(* ===== verification/GoBase.thy ===== *)
theory GoBase
  imports Main "HOL-Library.Sublist" "HOL-Library.Word"
begin

text \<open>
  The prelude: the parts of the Go language and its standard library that the modelled packages
  use (\<open>strings\<close>, \<open>strconv\<close>, \<open>fmt\<close>, \<open>errors\<close>) and the generic lemmas about them that the
  components share. Strings are lists of bytes; white space is the ASCII white space of
  \<open>strings.TrimSpace\<close>.
\<close>

named_theorems go_str \<open>facts about the string functions of the prelude\<close>

section \<open>Package strings\<close>

text \<open>\<open>strings.Split(s, sep)\<close> for the one-character separators the program uses.\<close>

fun split_on :: "char \<Rightarrow> string \<Rightarrow> string list" where
  "split_on c [] = [[]]"
| "split_on c (x # xs) =
     (if x = c then [] # split_on c xs
      else (case split_on c xs of [] \<Rightarrow> [[x]] | y # ys \<Rightarrow> (x # y) # ys))"

text \<open>\<open>strings.Join(parts, sep)\<close>.\<close>

fun join :: "string \<Rightarrow> string list \<Rightarrow> string" where
  "join sep [] = []"
| "join sep [x] = x"
| "join sep (x # y # ys) = x @ sep @ join sep (y # ys)"

text \<open>\<open>strings.Cut(s, sep)\<close>: the text before and after the first separator, if there is one.\<close>

fun cut :: "char \<Rightarrow> string \<Rightarrow> (string \<times> string) option" where
  "cut c [] = None"
| "cut c (x # xs) =
     (if x = c then Some ([], xs)
      else (case cut c xs of None \<Rightarrow> None | Some (a, b) \<Rightarrow> Some (x # a, b)))"

text \<open>\<open>strings.Contains(s, sub)\<close>.\<close>

fun contains :: "string \<Rightarrow> string \<Rightarrow> bool" where
  "contains [] sub = (sub = [])"
| "contains (x # xs) sub = (prefix sub (x # xs) \<or> contains xs sub)"

definition is_space :: "char \<Rightarrow> bool" where
  "is_space c \<longleftrightarrow> of_char c \<in> {9, 10, 11, 12, 13, 32 :: nat}"

text \<open>\<open>strings.Trim\<close> by a predicate; \<open>strings.TrimSpace\<close>.\<close>

definition trim_by :: "(char \<Rightarrow> bool) \<Rightarrow> string \<Rightarrow> string" where
  "trim_by p s = rev (dropWhile p (rev (dropWhile p s)))"

abbreviation trim_space :: "string \<Rightarrow> string" where
  "trim_space \<equiv> trim_by is_space"

abbreviation trim_char :: "char \<Rightarrow> string \<Rightarrow> string" where
  "trim_char c \<equiv> trim_by (\<lambda>x. x = c)"

text \<open>\<open>strings.ReplaceAll\<close> of one character by another, \<open>strings.ToLower\<close> on ASCII letters.\<close>

definition replace_char :: "char \<Rightarrow> char \<Rightarrow> string \<Rightarrow> string" where
  "replace_char a b = map (\<lambda>x. if x = a then b else x)"

definition lower_char :: "char \<Rightarrow> char" where
  "lower_char c = (let n = (of_char c :: nat) in if 65 \<le> n \<and> n \<le> 90 then char_of (n + 32) else c)"

definition to_lower :: "string \<Rightarrow> string" where
  "to_lower = map lower_char"

lemma split_on_not_Nil [simp, go_str]: "split_on c s \<noteq> []"
  by (cases s) (auto split: list.splits)

lemma join_Cons: "join sep (x # xs) = (if xs = [] then x else x @ sep @ join sep xs)"
  by (cases xs) auto

lemma join_split_on [go_str]: "join [c] (split_on c s) = s"
proof (induction s)
  case (Cons x xs)
  then show ?case
    by (cases "split_on c xs") (auto simp: join_Cons)
qed simp

lemma split_on_no_sep [go_str]: "c \<notin> set s \<Longrightarrow> split_on c s = [s]"
  by (induction s) auto

lemma split_on_append_sep [go_str]:
  "c \<notin> set a \<Longrightarrow> split_on c (a @ c # b) = a # split_on c b"
  by (induction a) auto

lemma split_on_pieces [go_str]: "p \<in> set (split_on c s) \<Longrightarrow> c \<notin> set p"
proof (induction s arbitrary: p)
  case (Cons x xs)
  then show ?case
    by (cases "split_on c xs") (auto split: if_splits)
qed simp

lemma split_on_join [go_str]:
  "xs \<noteq> [] \<Longrightarrow> (\<And>x. x \<in> set xs \<Longrightarrow> c \<notin> set x) \<Longrightarrow> split_on c (join [c] xs) = xs"
  by (induction xs rule: induct_list012) (auto simp: split_on_no_sep split_on_append_sep)

lemma cut_Some [go_str]: "cut c s = Some (a, b) \<Longrightarrow> s = a @ c # b \<and> c \<notin> set a"
  by (induction s arbitrary: a b) (auto split: if_splits option.splits)

lemma cut_None_iff [go_str]: "cut c s = None \<longleftrightarrow> c \<notin> set s"
  by (induction s) (auto split: option.splits)

lemma cut_append [go_str]: "c \<notin> set a \<Longrightarrow> cut c (a @ c # b) = Some (a, b)"
  by (induction a) auto

lemma contains_iff: "contains s sub \<longleftrightarrow> (\<exists>a b. s = a @ sub @ b)"
proof (induction s)
  case (Cons x xs)
  note IH = Cons.IH
  show ?case
  proof
    assume "contains (x # xs) sub"
    then show "\<exists>a b. x # xs = a @ sub @ b"
      by (metis IH append_Cons append_Nil contains.simps(2) prefixE)
  next
    assume "\<exists>a b. x # xs = a @ sub @ b"
    then obtain a b where ab: "x # xs = a @ sub @ b" by blast
    show "contains (x # xs) sub"
    proof (cases a)
      case Nil
      with ab have "prefix sub (x # xs)" by simp
      then show ?thesis by simp
    next
      case (Cons y ys)
      with ab have "\<exists>a b. xs = a @ sub @ b" by auto
      then have "contains xs sub" by (simp add: IH)
      then show ?thesis by simp
    qed
  qed
qed simp

lemma contains_append_right: "contains s sub \<Longrightarrow> contains (a @ s) sub"
  by (metis append.assoc contains_iff)

lemma dropWhile_fix: "(s \<noteq> [] \<Longrightarrow> \<not> p (hd s)) \<Longrightarrow> dropWhile p s = s"
  by (cases s) auto

lemma hd_trim_by: "trim_by p s \<noteq> [] \<Longrightarrow> \<not> p (hd (trim_by p s)) \<and> \<not> p (last (trim_by p s))"
proof -
  let ?u = "dropWhile p s"
  assume ne: "trim_by p s \<noteq> []"
  then have u: "?u \<noteq> []"
    unfolding trim_by_def by (metis dropWhile.simps(1) rev.simps(1))
  obtain z where z: "?u = trim_by p s @ z"
    unfolding trim_by_def by (metis rev_append rev_rev_ident takeWhile_dropWhile_id)
  have "hd (trim_by p s) = hd ?u" using z ne by (metis hd_append2)
  moreover have "\<not> p (hd ?u)" using u by (rule hd_dropWhile)
  moreover have "\<not> p (hd (dropWhile p (rev ?u)))"
    using ne unfolding trim_by_def by (metis hd_dropWhile rev_is_Nil_conv)
  ultimately show ?thesis
    using ne by (simp add: trim_by_def last_rev)
qed

lemma trim_by_Nil [simp]: "trim_by p [] = []"
  by (simp add: trim_by_def)

lemma trim_by_ends:
  "s \<noteq> [] \<Longrightarrow> \<not> p (hd s) \<Longrightarrow> \<not> p (last s) \<Longrightarrow> trim_by p s = s"
  unfolding trim_by_def by (simp add: dropWhile_fix hd_rev)

lemma trim_by_idem [go_str]: "trim_by p (trim_by p s) = trim_by p s"
proof (cases "trim_by p s = []")
  case False
  with hd_trim_by [OF False] show ?thesis by (blast intro: trim_by_ends)
qed simp

lemma trim_by_none [go_str]: "(\<And>x. x \<in> set s \<Longrightarrow> \<not> p x) \<Longrightarrow> trim_by p s = s"
  by (cases "s = []") (auto intro: trim_by_ends)

lemma set_trim_by: "set (trim_by p s) \<subseteq> set s"
  unfolding trim_by_def by (metis (no_types, lifting) set_dropWhileD set_rev subsetI)

section \<open>Searching lists\<close>

lemma find_SomeD: "find P xs = Some x \<Longrightarrow> x \<in> set xs \<and> P x"
  by (induction xs) (auto split: if_splits)

lemma find_None_D: "find P xs = None \<Longrightarrow> x \<in> set xs \<Longrightarrow> \<not> P x"
  by (simp add: find_None_iff)

lemma find_unique:
  assumes "x \<in> set xs" and "P x" and "\<And>y. y \<in> set xs \<Longrightarrow> P y \<Longrightarrow> y = x"
  shows "find P xs = Some x"
proof (cases "find P xs")
  case None
  with assms(1,2) show ?thesis by (simp add: find_None_iff)
next
  case (Some y)
  with find_SomeD [OF Some] assms(3) show ?thesis by simp
qed

section \<open>Package strconv and the integer verbs of fmt\<close>

definition digit_char :: "nat \<Rightarrow> char" where
  "digit_char d = char_of (48 + d)"

definition is_digit :: "char \<Rightarrow> bool" where
  "is_digit c \<longleftrightarrow> 48 \<le> (of_char c :: nat) \<and> (of_char c :: nat) \<le> 57"

definition digit_val :: "char \<Rightarrow> nat" where
  "digit_val c = of_char c - 48"

text \<open>\<open>fmt.Sprintf("%d", n)\<close> and \<open>strconv.Itoa\<close> for a non-negative number.\<close>

fun show_nat :: "nat \<Rightarrow> string" where
  "show_nat n = (if n < 10 then [digit_char n] else show_nat (n div 10) @ [digit_char (n mod 10)])"

declare show_nat.simps [simp del]

fun read_digits :: "nat \<Rightarrow> string \<Rightarrow> nat option" where
  "read_digits acc [] = Some acc"
| "read_digits acc (c # cs) =
     (if is_digit c then read_digits (10 * acc + digit_val c) cs else None)"

text \<open>\<open>strconv.ParseUint(s, 10, bits)\<close>: only digits, at least one, and below \<open>2 ^ bits\<close>.\<close>

definition parse_uint :: "nat \<Rightarrow> string \<Rightarrow> nat option" where
  "parse_uint bits s =
     (if s = [] then None
      else case read_digits 0 s of
             None \<Rightarrow> None
           | Some v \<Rightarrow> if v < 2 ^ bits then Some v else None)"

text \<open>\<open>strconv.Atoi\<close>: an optional sign, then at least one digit, within 64-bit \<open>int\<close>.\<close>

definition atoi :: "string \<Rightarrow> int option" where
  "atoi s =
     (let (neg, ds) = (case s of [] \<Rightarrow> (False, [])
                       | c # cs \<Rightarrow> if c = CHR ''-'' then (True, cs)
                                   else if c = CHR ''+'' then (False, cs) else (False, s))
      in if ds = [] then None
         else case read_digits 0 ds of
                None \<Rightarrow> None
              | Some v \<Rightarrow> if neg then (if v \<le> 2 ^ 63 then Some (- int v) else None)
                          else (if v < 2 ^ 63 then Some (int v) else None))"

text \<open>\<open>fmt.Sscanf(s, "%d", &id)\<close> on a line: leading blanks, an optional sign, the longest run of
  digits; what follows the number is left unread.\<close>

definition sscan_d :: "string \<Rightarrow> int option" where
  "sscan_d s =
     (let t = dropWhile is_space s;
          (sg, ds) = (case t of [] \<Rightarrow> ([], [])
                      | c # cs \<Rightarrow> if c = CHR ''-'' \<or> c = CHR ''+'' then ([c], cs) else ([], t))
      in atoi (sg @ takeWhile is_digit ds))"

lemma of_char_digit_char [simp]: "d < 10 \<Longrightarrow> of_char (digit_char d) = 48 + d"
  by (simp add: digit_char_def of_char_of)

lemma is_digit_digit_char [simp]: "d < 10 \<Longrightarrow> is_digit (digit_char d)"
  by (simp add: is_digit_def)

lemma digit_val_digit_char [simp]: "d < 10 \<Longrightarrow> digit_val (digit_char d) = d"
  by (simp add: digit_val_def)

lemma read_digits_append:
  "read_digits acc (a @ b) = (case read_digits acc a of None \<Rightarrow> None | Some v \<Rightarrow> read_digits v b)"
  by (induction a arbitrary: acc) auto

lemma show_nat_not_Nil [simp]: "show_nat n \<noteq> []"
  by (subst show_nat.simps) simp

lemma read_show_nat [simp]: "read_digits 0 (show_nat n) = Some n"
proof (induction n rule: show_nat.induct)
  case (1 n)
  show ?case
  proof (cases "n < 10")
    case False
    with 1 show ?thesis
      by (subst show_nat.simps) (simp add: read_digits_append)
  qed (subst show_nat.simps, simp)
qed

lemma show_nat_digits: "c \<in> set (show_nat n) \<Longrightarrow> is_digit c"
proof (induction n rule: show_nat.induct)
  case (1 n)
  then show ?case
    by (cases "n < 10") (auto simp: show_nat.simps [of n])
qed

lemma not_digit [simp]:
  "\<not> is_digit (CHR ''-'')" "\<not> is_digit (CHR '','')" "\<not> is_digit (CHR '':'')" "\<not> is_digit (CHR ''.'')"
  by (simp_all add: is_digit_def)

lemma show_nat_no_sep [simp]:
  "CHR ''-'' \<notin> set (show_nat n)" "CHR '','' \<notin> set (show_nat n)"
  "CHR '':'' \<notin> set (show_nat n)" "CHR ''.'' \<notin> set (show_nat n)"
  using show_nat_digits not_digit by blast+

lemma parse_show_nat [simp]: "n < 2 ^ bits \<Longrightarrow> parse_uint bits (show_nat n) = Some n"
  by (simp add: parse_uint_def)

lemma parse_uint_bound: "parse_uint bits s = Some v \<Longrightarrow> v < 2 ^ bits"
  by (auto simp: parse_uint_def split: if_splits option.splits)

lemma show_nat_inj: "show_nat a = show_nat b \<Longrightarrow> a = b"
  by (metis option.inject read_show_nat)

text \<open>\<open>%q\<close> of a printable text, and a text in single quotes.\<close>

definition quoted :: "string \<Rightarrow> string" where
  "quoted s = [CHR 0x22] @ s @ [CHR 0x22]"

definition squoted :: "string \<Rightarrow> string" where
  "squoted s = [CHR 0x27] @ s @ [CHR 0x27]"

section \<open>Package errors\<close>

text \<open>
  Go's \<open>error\<close> values. \<open>ErrS\<close> is \<open>errors.New\<close> or \<open>fmt.Errorf\<close> with only \<open>%s\<close> and \<open>%v\<close>;
  \<open>ErrWrap\<close> is \<open>fmt.Errorf("pre%wpost", err)\<close>; \<open>ErrJoin\<close> is \<open>errors.Join\<close>; \<open>StatusErr\<close> is the
  value \<open>api.StatusErrorf(code, msg)\<close> builds, of which the program reads the code.
\<close>

datatype goerr =
    ErrS string
  | StatusErr nat string
  | ErrWrap string goerr string
  | ErrJoin "goerr list"

fun err_text :: "goerr \<Rightarrow> string" where
  "err_text (ErrS s) = s"
| "err_text (StatusErr c s) = s"
| "err_text (ErrWrap a e b) = a @ err_text e @ b"
| "err_text (ErrJoin es) = join [CHR 0x0A] (map err_text es)"

text \<open>\<open>errors.As(err, &statusError)\<close>: the first status error in the tree.\<close>

fun status_of :: "goerr \<Rightarrow> nat option" and status_of_list :: "goerr list \<Rightarrow> nat option" where
  "status_of (ErrS s) = None"
| "status_of (StatusErr c s) = Some c"
| "status_of (ErrWrap a e b) = status_of e"
| "status_of (ErrJoin es) = status_of_list es"
| "status_of_list [] = None"
| "status_of_list (e # es) = (case status_of e of None \<Rightarrow> status_of_list es | Some c \<Rightarrow> Some c)"

definition errf :: "string \<Rightarrow> goerr \<Rightarrow> goerr" where
  "errf pre e = ErrS (pre @ err_text e)"

definition wrapf :: "string \<Rightarrow> goerr \<Rightarrow> goerr" where
  "wrapf pre e = ErrWrap pre e []"

lemma status_of_errf [simp]: "status_of (errf p e) = None"
  by (simp add: errf_def)

lemma status_of_wrapf [simp]: "status_of (wrapf p e) = status_of e"
  by (simp add: wrapf_def)

lemma err_text_wrapf [simp]: "err_text (wrapf p e) = p @ err_text e"
  by (simp add: wrapf_def)

lemma err_text_errf [simp]: "err_text (errf p e) = p @ err_text e"
  by (simp add: errf_def)

text \<open>\<open>errors.Join(a, b)\<close>, where a nil error is \<open>None\<close>.\<close>

definition join_err :: "goerr option \<Rightarrow> goerr option \<Rightarrow> goerr option" where
  "join_err a b = (case (a, b) of
       (None, None) \<Rightarrow> None
     | (Some x, None) \<Rightarrow> Some (ErrJoin [x])
     | (None, Some y) \<Rightarrow> Some (ErrJoin [y])
     | (Some x, Some y) \<Rightarrow> Some (ErrJoin [x, y]))"

lemma join_err_None_iff [simp]: "join_err a b = None \<longleftrightarrow> a = None \<and> b = None"
  by (auto simp: join_err_def split: option.splits)

end
