(* ===== verification/World.thy ===== *)
theory World
  imports GoBase
begin

text \<open>
  The world a daemon acts on and the effects it performs. A Go function \<open>func f(...) (T, error)\<close>
  is a value of type \<open>T io\<close>: it takes the world and returns a result and the new world. What the
  environment answers (commands, remote members, failing file or database operations, time,
  cryptography) is a parameter, the record \<open>env\<close>, and may depend on the whole history of events.
\<close>

section \<open>State\<close>

text \<open>Rows of the tables \<open>core_cluster_members\<close>, \<open>services\<close> and \<open>config\<close>.\<close>

record member_row =
  m_id :: nat
  m_name :: string
  m_addr :: string

record service_row =
  sr_id :: nat
  sr_member :: nat
  sr_service :: string

record config_row =
  cr_id :: nat
  cr_key :: string
  cr_value :: string

record db =
  members :: "member_row list"
  services :: "service_row list"
  configs :: "config_row list"
  next_service :: nat
  next_config :: nat

text \<open>Decoded bodies of requests and responses (package \<open>encoding/json\<close>).\<close>

datatype json = JNull | JBool bool | JNum nat | JStr string | JList "json list"
  | JObj "(string \<times> json) list"

text \<open>A directory, or a file with its permission bits and its contents.\<close>

datatype fnode = Dir | File nat string

datatype event =
    Cmd "string list"                  \<comment> \<open>an external command with its arguments\<close>
  | Sql string                         \<comment> \<open>a statement sent to the database\<close>
  | Os string string                   \<comment> \<open>a file-system call and its path\<close>
  | Http string string string          \<comment> \<open>peer, method and path of a request to a member\<close>
  | Sleep nat                          \<comment> \<open>milliseconds\<close>
  | Print string                       \<comment> \<open>text written to the terminal\<close>
  | Audit string "(string \<times> json) list" \<comment> \<open>message and fields of an entry of the security log\<close>

text \<open>The events are kept newest first.\<close>

record world =
  w_db :: db
  w_fs :: "string \<Rightarrow> fnode option"
  w_trace :: "event list"

text \<open>The fields of \<open>x509.Certificate\<close> the program sets or reads.\<close>

record cert =
  c_serial :: nat
  c_cn :: string
  c_org :: "string list"
  c_ou :: "string list"
  c_not_before :: nat
  c_not_after :: nat
  c_key_usage :: "32 word"
  c_is_ca :: bool

text \<open>A client for another member: its URL, the host name and the port in it.\<close>

record peer =
  p_url :: string
  p_host :: string
  p_port :: string

text \<open>
  What is outside the program: \<open>e_name\<close> and \<open>e_host\<close> are \<open>s.Name()\<close> and
  \<open>s.Address().Hostname()\<close>; \<open>e_cmd\<close> answers external commands; \<open>e_fault\<close> decides which database
  or file operation fails, and with which plain (not status) error; \<open>e_http\<close> answers requests to members; 
  \<open>e_outside\<close> are the files outside the directories of the snap, which the commands the program runs
  move and which the kernel provides; \<open>e_peers\<close> and \<open>e_leader\<close> are the clients the cluster library
  makes (\<open>s.Connect().Cluster\<close>, in the order in which the queries to them are run, and
  \<open>s.Connect().Leader\<close>); \<open>e_db_open\<close> is \<open>s.Database().IsOpen\<close>; \<open>e_security_log\<close> is the variable
  \<open>enabled\<close> of package \<open>securitylog\<close>, which is only set before the daemon starts; the others are the environment
  variables, the clock, the cryptographic packages and the texts of the packages \<open>yaml\<close> and \<open>json\<close>.
\<close>

record env =
  e_name :: string
  e_host :: string
  e_snap :: string
  e_root :: string
  e_cmd :: "event list \<Rightarrow> string list \<Rightarrow> goerr + string"
  e_fault :: "event list \<Rightarrow> event \<Rightarrow> string option"
  e_http :: "event list \<Rightarrow> string \<Rightarrow> string \<Rightarrow> string \<Rightarrow> json \<Rightarrow> goerr + json"
  e_now :: "event list \<Rightarrow> nat"
  e_md5 :: "string \<Rightarrow> nat list"
  e_gen_key :: "event list \<Rightarrow> goerr + string"
  e_rand_serial :: "event list \<Rightarrow> goerr + nat"
  e_create_cert :: "cert \<Rightarrow> cert \<Rightarrow> string \<Rightarrow> string \<Rightarrow> goerr + string"
  e_marshal_key :: "string \<Rightarrow> goerr + string"
  e_pem_encode :: "string \<Rightarrow> string \<Rightarrow> string"
  e_pem_decode :: "string \<Rightarrow> ((string \<times> string) \<times> string) option"
  e_key_pair :: "string \<Rightarrow> string \<Rightarrow> goerr + string list"
  e_parse_cert :: "string \<Rightarrow> goerr + cert"
  e_parse_pkcs8 :: "string \<Rightarrow> goerr + string"
  e_parse_ec :: "string \<Rightarrow> goerr + string"
  e_parse_pkcs1 :: "string \<Rightarrow> goerr + string"
  e_outside :: "event list \<Rightarrow> string \<Rightarrow> fnode option"
  e_yaml_marshal :: "json \<Rightarrow> goerr + string"
  e_yaml_unmarshal :: "string \<Rightarrow> goerr + json"
  e_json_unmarshal :: "string \<Rightarrow> goerr + json"
  e_peers :: "event list \<Rightarrow> bool \<Rightarrow> goerr + peer list"
  e_leader :: "event list \<Rightarrow> goerr + string"
  e_db_open :: "event list \<Rightarrow> goerr option"
  e_security_log :: bool

section \<open>Results and sequencing\<close>

text \<open>A panic is not an error value: no \<open>if err != nil\<close> catches it.\<close>

datatype 'a res = Ok 'a | Er goerr | Panic string

type_synonym 'a io = "world \<Rightarrow> 'a res \<times> world"

definition ret :: "'a \<Rightarrow> 'a io" where
  "ret x = (\<lambda>w. (Ok x, w))"

definition fail :: "goerr \<Rightarrow> 'a io" where
  "fail e = (\<lambda>w. (Er e, w))"

definition panic :: "string \<Rightarrow> 'a io" where
  "panic s = (\<lambda>w. (Panic s, w))"

text \<open>\<open>x, err := m(); if err != nil { return err }; k(x)\<close>\<close>

definition bind :: "'a io \<Rightarrow> ('a \<Rightarrow> 'b io) \<Rightarrow> 'b io" where
  "bind m k = (\<lambda>w. case m w of
       (Ok x, w') \<Rightarrow> k x w'
     | (Er e, w') \<Rightarrow> (Er e, w')
     | (Panic s, w') \<Rightarrow> (Panic s, w'))"

definition andthen :: "'a io \<Rightarrow> 'b io \<Rightarrow> 'b io" where
  "andthen m k = bind m (\<lambda>_. k)"

text \<open>\<open>x, err := m()\<close> without an early return: the error becomes a value.\<close>

definition attempt :: "'a io \<Rightarrow> (goerr + 'a) io" where
  "attempt m = (\<lambda>w. case m w of
       (Ok x, w') \<Rightarrow> (Ok (Inr x), w')
     | (Er e, w') \<Rightarrow> (Ok (Inl e), w')
     | (Panic s, w') \<Rightarrow> (Panic s, w'))"

text \<open>\<open>if err != nil { return fmt.Errorf(...) }\<close>\<close>

definition on_err :: "(goerr \<Rightarrow> goerr) \<Rightarrow> 'a io \<Rightarrow> 'a io" where
  "on_err f m = bind (attempt m) (\<lambda>r. case r of Inl e \<Rightarrow> fail (f e) | Inr x \<Rightarrow> ret x)"

text \<open>The error is only logged.\<close>

definition ignore_err :: "'a io \<Rightarrow> unit io" where
  "ignore_err m = bind (attempt m) (\<lambda>_. ret ())"

text \<open>\<open>allErrors = errors.Join(allErrors, fmt.Errorf(...))\<close> when \<open>m\<close> fails.\<close>

definition collect :: "(goerr \<Rightarrow> goerr) \<Rightarrow> 'a io \<Rightarrow> goerr option \<Rightarrow> goerr option io" where
  "collect f m acc = bind (attempt m) (\<lambda>r. case r of
       Inl e \<Rightarrow> ret (join_err acc (Some (f e)))
     | Inr _ \<Rightarrow> ret acc)"

text \<open>Returning a possibly nil error.\<close>

definition ret_err :: "goerr option \<Rightarrow> unit io" where
  "ret_err e = (case e of None \<Rightarrow> ret () | Some x \<Rightarrow> fail x)"

definition of_sum :: "goerr + 'a \<Rightarrow> 'a io" where
  "of_sum r = (case r of Inl e \<Rightarrow> fail e | Inr x \<Rightarrow> ret x)"

text \<open>\<open>for _, x := range xs\<close> with an accumulator; an error leaves the loop.\<close>

fun fold_io :: "('a \<Rightarrow> 's \<Rightarrow> 's io) \<Rightarrow> 'a list \<Rightarrow> 's \<Rightarrow> 's io" where
  "fold_io f [] s = ret s"
| "fold_io f (x # xs) s = bind (f x s) (fold_io f xs)"

fun for_each :: "('a \<Rightarrow> unit io) \<Rightarrow> 'a list \<Rightarrow> unit io" where
  "for_each f [] = ret ()"
| "for_each f (x # xs) = andthen (f x) (for_each f xs)"

text \<open>Reading the world.\<close>

definition reads :: "(world \<Rightarrow> 'a) \<Rightarrow> 'a io" where
  "reads f = (\<lambda>w. (Ok (f w), w))"

definition upd_db :: "(db \<Rightarrow> db) \<Rightarrow> unit io" where
  "upd_db f = (\<lambda>w. (Ok (), w\<lparr>w_db := f (w_db w)\<rparr>))"

definition upd_fs :: "((string \<Rightarrow> fnode option) \<Rightarrow> string \<Rightarrow> fnode option) \<Rightarrow> unit io" where
  "upd_fs f = (\<lambda>w. (Ok (), w\<lparr>w_fs := f (w_fs w)\<rparr>))"

section \<open>Effects\<close>

text \<open>An operation that is recorded and that the environment may fail.\<close>

definition step :: "env \<Rightarrow> event \<Rightarrow> unit io" where
  "step E ev = (\<lambda>w. (case e_fault E (w_trace w) ev of None \<Rightarrow> Ok () | Some msg \<Rightarrow> Er (ErrS msg),
                     w\<lparr>w_trace := ev # w_trace w\<rparr>))"

text \<open>\<open>shared.RunCommandContext(ctx, name, args...)\<close>\<close>

definition run_cmd :: "env \<Rightarrow> string list \<Rightarrow> string io" where
  "run_cmd E argv = (\<lambda>w. (case e_cmd E (w_trace w) argv of Inl e \<Rightarrow> Er e | Inr out \<Rightarrow> Ok out,
                          w\<lparr>w_trace := Cmd argv # w_trace w\<rparr>))"

text \<open>\<open>c.Query(ctx, method, version, path, body, &response)\<close>\<close>

definition http :: "env \<Rightarrow> string \<Rightarrow> string \<Rightarrow> string \<Rightarrow> json \<Rightarrow> json io" where
  "http E peer meth path body =
     (\<lambda>w. (case e_http E (w_trace w) peer meth path body of Inl e \<Rightarrow> Er e | Inr r \<Rightarrow> Ok r,
           w\<lparr>w_trace := Http peer meth path # w_trace w\<rparr>))"

text \<open>The clients for the other members, with or without the header that marks a notification, and the
  client for the leader.\<close>

definition peers :: "env \<Rightarrow> bool \<Rightarrow> peer list io" where
  "peers E notification = bind (reads (\<lambda>w. e_peers E (w_trace w) notification)) of_sum"

definition leader :: "env \<Rightarrow> string io" where
  "leader E = bind (reads (\<lambda>w. e_leader E (w_trace w))) of_sum"

definition sleep :: "nat \<Rightarrow> unit io" where
  "sleep ms = (\<lambda>w. (Ok (), w\<lparr>w_trace := Sleep ms # w_trace w\<rparr>))"

definition print :: "string \<Rightarrow> unit io" where
  "print s = (\<lambda>w. (Ok (), w\<lparr>w_trace := Print s # w_trace w\<rparr>))"

text \<open>
  \<open>s.Database().Transaction(ctx, body)\<close>: begin, the body, commit; a failing body or commit leaves
  the tables as they were.
\<close>

definition transaction :: "env \<Rightarrow> 'a io \<Rightarrow> 'a io" where
  "transaction E body = (\<lambda>w.
     case bind (step E (Sql ''BEGIN'')) (\<lambda>_.
          bind body (\<lambda>x. andthen (step E (Sql ''COMMIT'')) (ret x))) w of
       (Ok x, w') \<Rightarrow> (Ok x, w')
     | (Er e, w') \<Rightarrow> (Er e, w'\<lparr>w_db := w_db w\<rparr>)
     | (Panic s, w') \<Rightarrow> (Panic s, w'\<lparr>w_db := w_db w\<rparr>))"

section \<open>Execution lemmas\<close>

named_theorems run \<open>how each combinator executes\<close>

lemma run_ret [run]: "ret x w = (Ok x, w)" by (simp add: ret_def)
lemma run_fail [run]: "fail e w = (Er e, w)" by (simp add: fail_def)
lemma run_panic [run]: "panic s w = (Panic s, w)" by (simp add: panic_def)
lemma run_reads [run]: "reads f w = (Ok (f w), w)" by (simp add: reads_def)
lemma run_upd_db [run]: "upd_db f w = (Ok (), w\<lparr>w_db := f (w_db w)\<rparr>)" by (simp add: upd_db_def)
lemma run_upd_fs [run]: "upd_fs f w = (Ok (), w\<lparr>w_fs := f (w_fs w)\<rparr>)" by (simp add: upd_fs_def)
lemma run_sleep [run]: "sleep n w = (Ok (), w\<lparr>w_trace := Sleep n # w_trace w\<rparr>)"
  by (simp add: sleep_def)
lemma run_print [run]: "print s w = (Ok (), w\<lparr>w_trace := Print s # w_trace w\<rparr>)"
  by (simp add: print_def)

lemma run_bind [run]:
  "m w = (Ok x, w') \<Longrightarrow> bind m k w = k x w'"
  "m w = (Er e, w') \<Longrightarrow> bind m k w = (Er e, w')"
  "m w = (Panic s, w') \<Longrightarrow> bind m k w = (Panic s, w')"
  by (simp_all add: bind_def)

lemma run_attempt [run]:
  "m w = (Ok x, w') \<Longrightarrow> attempt m w = (Ok (Inr x), w')"
  "m w = (Er e, w') \<Longrightarrow> attempt m w = (Ok (Inl e), w')"
  "m w = (Panic s, w') \<Longrightarrow> attempt m w = (Panic s, w')"
  by (simp_all add: attempt_def)

lemma run_on_err [run]:
  "m w = (Ok x, w') \<Longrightarrow> on_err f m w = (Ok x, w')"
  "m w = (Er e, w') \<Longrightarrow> on_err f m w = (Er (f e), w')"
  "m w = (Panic s, w') \<Longrightarrow> on_err f m w = (Panic s, w')"
  by (simp_all add: on_err_def bind_def attempt_def ret_def fail_def)

lemma run_ignore_err [run]:
  "m w = (Ok x, w') \<Longrightarrow> ignore_err m w = (Ok (), w')"
  "m w = (Er e, w') \<Longrightarrow> ignore_err m w = (Ok (), w')"
  "m w = (Panic s, w') \<Longrightarrow> ignore_err m w = (Panic s, w')"
  by (simp_all add: ignore_err_def bind_def attempt_def ret_def)

lemma run_collect [run]:
  "m w = (Ok x, w') \<Longrightarrow> collect f m acc w = (Ok acc, w')"
  "m w = (Er e, w') \<Longrightarrow> collect f m acc w = (Ok (join_err acc (Some (f e))), w')"
  "m w = (Panic s, w') \<Longrightarrow> collect f m acc w = (Panic s, w')"
  by (simp_all add: collect_def bind_def attempt_def ret_def)

lemma run_andthen [run]:
  "m w = (Ok x, w') \<Longrightarrow> andthen m k w = k w'"
  "m w = (Er e, w') \<Longrightarrow> andthen m k w = (Er e, w')"
  "m w = (Panic s, w') \<Longrightarrow> andthen m k w = (Panic s, w')"
  by (simp_all add: andthen_def bind_def)

lemma io_cases [case_names Ok Er Panic]:
  fixes m :: "'a io"
  obtains x w' where "m w = (Ok x, w')" | e w' where "m w = (Er e, w')"
    | s w' where "m w = (Panic s, w')"
  by (metis res.exhaust surj_pair)

lemma bind_assoc: "bind (bind m k) l = bind m (\<lambda>x. bind (k x) l)"
  by (rule ext) (simp add: bind_def split: prod.splits res.splits)

lemma bind_ret [simp]: "bind (ret x) k = k x" "bind m ret = m"
  by (rule ext, simp add: bind_def ret_def split: prod.splits res.splits)+

lemma pure_simps [simp]:
  "bind (fail e) k = fail e" "bind (panic s) l = panic s"
  "andthen (ret x) m = m" "andthen (fail e) m = fail e"
  "on_err f (ret x) = ret x" "on_err f (fail e) = fail (f e)"
  "attempt (ret x) = ret (Inr x)" "attempt (fail e) = ret (Inl e)"
  by (rule ext, simp add: run andthen_def on_err_def attempt_def bind_def ret_def fail_def panic_def)+

lemma of_sum_simps [simp]: "of_sum (Inl e) = fail e" "of_sum (Inr x) = ret x"
  by (simp_all add: of_sum_def)

text \<open>Inversion: what a successful run of a combinator says about its parts.\<close>

named_theorems ok_elims \<open>elimination rules for successful runs\<close>

lemma bind_OkE [ok_elims]:
  assumes "bind m k w = (Ok y, w')"
  obtains x w1 where "m w = (Ok x, w1)" and "k x w1 = (Ok y, w')"
  using assms by (auto simp: bind_def split: prod.splits res.splits)

lemma andthen_OkE [ok_elims]:
  assumes "andthen m k w = (Ok y, w')"
  obtains x w1 where "m w = (Ok x, w1)" and "k w1 = (Ok y, w')"
  using assms by (auto simp: andthen_def elim: bind_OkE)

lemma on_err_OkE [ok_elims]:
  assumes "on_err f m w = (Ok y, w')"
  obtains "m w = (Ok y, w')"
  using assms by (cases m w rule: io_cases) (auto simp: run)

lemma attempt_OkE [ok_elims]:
  assumes "attempt m w = (Ok r, w')"
  obtains x where "r = Inr x" "m w = (Ok x, w')" | e where "r = Inl e" "m w = (Er e, w')"
  using assms by (cases m w rule: io_cases) (auto simp: run)

lemma ret_OkD [simp]: "ret x w = (r, w') \<longleftrightarrow> r = Ok x \<and> w' = w"
  by (auto simp: ret_def)

lemma fail_OkD [simp]: "fail e w = (r, w') \<longleftrightarrow> r = Er e \<and> w' = w"
  by (auto simp: fail_def)

lemma panic_OkD [simp]: "panic s w = (r, w') \<longleftrightarrow> r = Panic s \<and> w' = w"
  by (auto simp: panic_def)

lemma reads_OkD [simp]: "reads f w = (r, w') \<longleftrightarrow> r = Ok (f w) \<and> w' = w"
  by (auto simp: reads_def)

lemma step_OkE [ok_elims]:
  assumes "step E ev w = (Ok y, w')"
  obtains "w' = w\<lparr>w_trace := ev # w_trace w\<rparr>" and "e_fault E (w_trace w) ev = None"
  using assms by (auto simp: step_def split: option.splits)

text \<open>An environment in which no database or file operation fails.\<close>

definition no_fault :: "env \<Rightarrow> bool" where
  "no_fault E \<longleftrightarrow> (\<forall>t ev. e_fault E t ev = None)"

lemma run_step_no_fault [run]:
  "no_fault E \<Longrightarrow> step E ev w = (Ok (), w\<lparr>w_trace := ev # w_trace w\<rparr>)"
  by (simp add: no_fault_def step_def)

text \<open>A loop that ends well has established for every element what each pass establishes and no
  later pass destroys.\<close>

lemma for_each_all:
  assumes "for_each f xs w = (Ok u, w')"
    and each: "\<And>x w u w'. f x w = (Ok u, w') \<Longrightarrow> Q x w'"
    and stable: "\<And>x y w u w'. Q x w \<Longrightarrow> f y w = (Ok u, w') \<Longrightarrow> Q x w'"
  shows "\<forall>x \<in> set xs. Q x w'"
proof -
  have later: "for_each f ys w = (Ok u, w') \<Longrightarrow> Q x w \<Longrightarrow> Q x w'" for ys x w u w'
    by (induction ys arbitrary: w) (auto elim!: andthen_OkE dest: stable)
  show ?thesis
    using assms(1) by (induction xs arbitrary: w) (auto elim!: andthen_OkE dest: each later)
qed

lemma for_each_stable:
  assumes "for_each f xs w = (Ok u, w')" and "R w"
    and "\<And>y w u w'. R w \<Longrightarrow> f y w = (Ok u, w') \<Longrightarrow> R w'"
  shows "R w'"
  using assms(1,2) by (induction xs arbitrary: w) (auto elim!: andthen_OkE dest: assms(3))

section \<open>What a program keeps\<close>

text \<open>
  \<open>keeps P m\<close>: from a world satisfying \<open>P\<close>, the program ends (with a value, an error or a panic) in
  a world satisfying \<open>P\<close>. Frame properties are the case \<open>P = (\<lambda>w. view w = v)\<close>, invariants the case
  \<open>P = inv\<close>; one set of introduction rules follows the program text.
\<close>

named_theorems keeps_rules \<open>composition rules of keeps\<close>

definition keeps :: "(world \<Rightarrow> bool) \<Rightarrow> 'a io \<Rightarrow> bool" where
  "keeps P m \<longleftrightarrow> (\<forall>w. P w \<longrightarrow> P (snd (m w)))"

lemma keepsD: "keeps P m \<Longrightarrow> P w \<Longrightarrow> m w = (r, w') \<Longrightarrow> P w'"
  by (force simp: keeps_def)

lemma keepsI: "(\<And>w r w'. P w \<Longrightarrow> m w = (r, w') \<Longrightarrow> P w') \<Longrightarrow> keeps P m"
  unfolding keeps_def by (metis prod.collapse)

lemma keeps_pure [keeps_rules]:
  "keeps P (ret x)" "keeps P (fail e)" "keeps P (panic s)" "keeps P (reads f)"
  by (simp_all add: keeps_def run)

lemma keeps_bind [keeps_rules]:
  "keeps P m \<Longrightarrow> (\<And>x. keeps P (k x)) \<Longrightarrow> keeps P (bind m k)"
  by (force simp: keeps_def bind_def split: prod.splits res.splits)

lemma keeps_andthen [keeps_rules]: "keeps P m \<Longrightarrow> keeps P k \<Longrightarrow> keeps P (andthen m k)"
  unfolding andthen_def by (intro keeps_rules)

lemma keeps_attempt [keeps_rules]: "keeps P m \<Longrightarrow> keeps P (attempt m)"
  by (force simp: keeps_def attempt_def split: prod.splits res.splits)

lemma keeps_case_sum [keeps_rules]:
  "(\<And>e. keeps P (f e)) \<Longrightarrow> (\<And>x. keeps P (g x)) \<Longrightarrow> keeps P (case r of Inl e \<Rightarrow> f e | Inr x \<Rightarrow> g x)"
  by (cases r) auto

lemma keeps_case_option [keeps_rules]:
  "keeps P f \<Longrightarrow> (\<And>x. keeps P (g x)) \<Longrightarrow> keeps P (case r of None \<Rightarrow> f | Some x \<Rightarrow> g x)"
  by (cases r) auto

lemma keeps_case_list [keeps_rules]:
  "keeps P f \<Longrightarrow> (\<And>x xs. keeps P (g x xs)) \<Longrightarrow> keeps P (case r of [] \<Rightarrow> f | x # xs \<Rightarrow> g x xs)"
  by (cases r) auto

lemma keeps_case_prod [keeps_rules]:
  "(\<And>a b. keeps P (g a b)) \<Longrightarrow> keeps P (case r of (a, b) \<Rightarrow> g a b)"
  by (cases r) auto

lemma keeps_case_fnode [keeps_rules]:
  "keeps P f \<Longrightarrow> (\<And>m s. keeps P (g m s)) \<Longrightarrow> keeps P (case n of Dir \<Rightarrow> f | File m s \<Rightarrow> g m s)"
  by (cases n) auto

lemma keeps_if [keeps_rules]:
  "(c \<Longrightarrow> keeps P f) \<Longrightarrow> (\<not> c \<Longrightarrow> keeps P g) \<Longrightarrow> keeps P (if c then f else g)"
  by auto

lemma keeps_Let [keeps_rules]: "(\<And>x. keeps P (f x)) \<Longrightarrow> keeps P (let x = v in f x)"
  by simp

lemma keeps_on_err [keeps_rules]: "keeps P m \<Longrightarrow> keeps P (on_err f m)"
  unfolding on_err_def by (intro keeps_rules)

lemma keeps_ignore_err [keeps_rules]: "keeps P m \<Longrightarrow> keeps P (ignore_err m)"
  unfolding ignore_err_def by (intro keeps_rules)

lemma keeps_collect [keeps_rules]: "keeps P m \<Longrightarrow> keeps P (collect f m acc)"
  unfolding collect_def by (intro keeps_rules)

lemma keeps_ret_err [keeps_rules]: "keeps P (ret_err e)"
  unfolding ret_err_def by (intro keeps_rules)

lemma keeps_of_sum [keeps_rules]: "keeps P (of_sum r)"
  unfolding of_sum_def by (intro keeps_rules)

lemma keeps_clients [keeps_rules]: "keeps P (peers E n)" "keeps P (leader E)"
  unfolding peers_def leader_def by (intro keeps_rules)+

lemma keeps_fold_io [keeps_rules]: "(\<And>x s. keeps P (f x s)) \<Longrightarrow> keeps P (fold_io f xs s)"
proof (induction xs arbitrary: s)
  case (Cons x xs)
  then show ?case by (auto intro!: keeps_bind)
qed (simp add: keeps_rules)

lemma keeps_for_each [keeps_rules]: "(\<And>x. keeps P (f x)) \<Longrightarrow> keeps P (for_each f xs)"
  by (induction xs) (auto intro!: keeps_rules)

text \<open>
  A predicate that does not look at the trace, the security log apart, is kept by every effect that only
  records an event. The components extend this context with their own operations.
\<close>

fun auditing :: "event \<Rightarrow> bool" where
  "auditing (Audit m c) \<longleftrightarrow> True"
| "auditing _ \<longleftrightarrow> False"

lemma not_auditing [keeps_rules]: "\<not> auditing (Sql s)" "\<not> auditing (Os op p)"
  by simp_all

locale trace_blind =
  fixes P :: "world \<Rightarrow> bool"
  assumes blind: "\<not> auditing ev \<Longrightarrow> P w \<Longrightarrow> P (w\<lparr>w_trace := ev # w_trace w\<rparr>)"
begin

lemma keeps_step [keeps_rules]: "\<not> auditing ev \<Longrightarrow> keeps P (step E ev)"
  by (simp add: keeps_def step_def blind)

lemma keeps_run_cmd [keeps_rules]: "keeps P (run_cmd E argv)"
  by (simp add: keeps_def run_cmd_def blind)

lemma keeps_http [keeps_rules]: "keeps P (http E peer meth path body)"
  by (simp add: keeps_def http_def blind)

lemma keeps_sleep [keeps_rules]: "keeps P (sleep n)" "keeps P (print s)"
  by (simp_all add: keeps_def sleep_def print_def blind)

end

text \<open>The tables, the files, and the security log are views that are blind to the rest of the trace.\<close>

locale log_blind = trace_blind P for P +
  assumes log_blind: "P w \<Longrightarrow> P (w\<lparr>w_trace := Audit m c # w_trace w\<rparr>)"

interpretation dbv: log_blind "\<lambda>w. w_db w = d" for d
  by unfold_locales simp_all

interpretation invv: log_blind "\<lambda>w. I (w_db w)" for I
  by unfold_locales simp_all

interpretation fsv: log_blind "\<lambda>w. w_fs w = f" for f
  by unfold_locales simp_all

definition audits :: "world \<Rightarrow> event list" where
  "audits w = filter auditing (w_trace w)"

lemma audits_simps [simp]:
  "audits (w\<lparr>w_trace := ev # w_trace w\<rparr>) = (if auditing ev then ev # audits w else audits w)"
  "audits (w\<lparr>w_db := d\<rparr>) = audits w" "audits (w\<lparr>w_fs := f\<rparr>) = audits w"
  by (simp_all add: audits_def)

interpretation logv: trace_blind "\<lambda>w. audits w = A" for A
  by unfold_locales simp

text \<open>A transaction whose body keeps the tables keeps them; a failing one always does.\<close>

lemma transaction_fails_db:
  "transaction E m w = (Er e, w') \<Longrightarrow> w_db w' = w_db w"
  "transaction E m w = (Panic s, w') \<Longrightarrow> w_db w' = w_db w"
  by (auto simp: transaction_def split: prod.splits res.splits)

lemma transaction_OkE [ok_elims]:
  assumes "transaction E m w = (Ok x, w')"
  obtains w1 w2 where "w_db w1 = w_db w" and "w_fs w1 = w_fs w" and "m w1 = (Ok x, w2)"
    and "w_db w' = w_db w2" and "w_fs w' = w_fs w2"
proof -
  let ?m = "bind (step E (Sql ''BEGIN'')) (\<lambda>_. bind m (\<lambda>x. andthen (step E (Sql ''COMMIT'')) (ret x)))"
  have "?m w = (Ok x, w')"
    using assms by (auto simp: transaction_def split: prod.splits res.splits)
  then obtain u w1 y w2 v w3 where "step E (Sql ''BEGIN'') w = (Ok u, w1)" and "m w1 = (Ok y, w2)"
    and "step E (Sql ''COMMIT'') w2 = (Ok v, w3)" and "ret y w3 = (Ok x, w')"
    by (elim bind_OkE andthen_OkE)
  then show ?thesis
    using that [of w1 w2] by (auto elim!: step_OkE)
qed

lemma keeps_transaction_db:
  assumes "\<And>d. keeps (\<lambda>w. w_db w = d) m"
  shows "keeps (\<lambda>w. w_db w = d) (transaction E m)"
proof (rule keepsI)
  fix w r w' assume w: "w_db w = d" and run: "transaction E m w = (r, w')"
  let ?m = "bind (step E (Sql ''BEGIN'')) (\<lambda>_. bind m (\<lambda>x. andthen (step E (Sql ''COMMIT'')) (ret x)))"
  have "keeps (\<lambda>w. w_db w = d) ?m"
    by (intro keeps_rules assms)
  then have "w_db (snd (?m w)) = d" using w by (simp add: keeps_def)
  with run w show "w_db w' = d"
    by (auto simp: transaction_def split: prod.splits res.splits)
qed

lemma keeps_transaction_fs:
  assumes "\<And>f. keeps (\<lambda>w. w_fs w = f) m"
  shows "keeps (\<lambda>w. w_fs w = f) (transaction E m)"
proof (rule keepsI)
  fix w r w' assume w: "w_fs w = f" and run: "transaction E m w = (r, w')"
  let ?m = "bind (step E (Sql ''BEGIN'')) (\<lambda>_. bind m (\<lambda>x. andthen (step E (Sql ''COMMIT'')) (ret x)))"
  have "keeps (\<lambda>w. w_fs w = f) ?m"
    by (intro keeps_rules assms)
  then have "w_fs (snd (?m w)) = f" using w by (simp add: keeps_def)
  with run show "w_fs w' = f"
    by (auto simp: transaction_def split: prod.splits res.splits)
qed

lemma world_upd_same: "w_db (w::world) = d \<Longrightarrow> w\<lparr>w_db := d\<rparr> = w"
  by auto

text \<open>A transaction around a read-only body.\<close>

context trace_blind
begin

lemma keeps_transaction_read:
  assumes "\<And>d. keeps (\<lambda>w. w_db w = d) m" and "keeps P m"
  shows "keeps P (transaction E m)"
proof (rule keepsI)
  fix w r w' assume w: "P w" and run: "transaction E m w = (r, w')"
  let ?m = "bind (step E (Sql ''BEGIN'')) (\<lambda>_. bind m (\<lambda>x. andthen (step E (Sql ''COMMIT'')) (ret x)))"
  have "keeps P ?m" and "keeps (\<lambda>w'. w_db w' = w_db w) ?m"
    by (intro keeps_rules keeps_step dbv.keeps_step assms)+
  then have P: "P (snd (?m w))" and db: "w_db (snd (?m w)) = w_db w"
    using w by (simp_all add: keeps_def)
  have "w' = snd (?m w) \<or> w' = (snd (?m w))\<lparr>w_db := w_db w\<rparr>"
    using run by (auto simp: transaction_def split: prod.splits res.splits)
  then have "w' = snd (?m w)"
    using world_upd_same [OF db] by auto
  with P show "P w'" by simp
qed

end

text \<open>An invariant of the tables that the body keeps is kept, whatever the outcome.\<close>

lemma keeps_transaction_inv:
  assumes "keeps (\<lambda>w. I (w_db w)) m"
  shows "keeps (\<lambda>w. I (w_db w)) (transaction E m)"
proof (rule keepsI)
  fix w r w' assume w: "I (w_db w)" and run: "transaction E m w = (r, w')"
  let ?m = "bind (step E (Sql ''BEGIN'')) (\<lambda>_. bind m (\<lambda>x. andthen (step E (Sql ''COMMIT'')) (ret x)))"
  have "keeps (\<lambda>w. I (w_db w)) ?m"
    by (intro keeps_rules assms)
  then have "I (w_db (snd (?m w)))" using w by (simp add: keeps_def)
  with run w show "I (w_db w')"
    by (auto simp: transaction_def split: prod.splits res.splits)
qed

section \<open>Programs that do not panic\<close>

named_theorems np_rules \<open>composition rules of no_panic\<close>

definition no_panic :: "'a io \<Rightarrow> bool" where
  "no_panic m \<longleftrightarrow> (\<forall>w s w'. m w \<noteq> (Panic s, w'))"

lemma no_panicD: "no_panic m \<Longrightarrow> m w = (Panic s, w') \<Longrightarrow> False"
  by (simp add: no_panic_def)

lemma np_basic [np_rules]:
  "no_panic (ret x)" "no_panic (fail e)" "no_panic (reads f)" "no_panic (step E ev)"
  "no_panic (run_cmd E argv)" "no_panic (http E p m q b)" "no_panic (sleep n)" "no_panic (print s)"
  "no_panic (upd_db g)" "no_panic (upd_fs h)" "no_panic (of_sum r)"
  by (auto simp: no_panic_def run step_def run_cmd_def http_def of_sum_def split: sum.splits option.splits)

lemma np_bind [np_rules]: "no_panic m \<Longrightarrow> (\<And>x. no_panic (k x)) \<Longrightarrow> no_panic (bind m k)"
  by (auto simp: no_panic_def bind_def split: prod.splits res.splits)

lemma np_bind_Ok:
  "no_panic m \<Longrightarrow> (\<And>w x w'. m w = (Ok x, w') \<Longrightarrow> no_panic (k x)) \<Longrightarrow> no_panic (bind m k)"
  by (auto simp: no_panic_def bind_def split: prod.splits res.splits)

lemma np_andthen [np_rules]: "no_panic m \<Longrightarrow> no_panic k \<Longrightarrow> no_panic (andthen m k)"
  unfolding andthen_def by (intro np_rules)

lemma np_attempt [np_rules]: "no_panic m \<Longrightarrow> no_panic (attempt m)"
  by (auto simp: no_panic_def attempt_def split: prod.splits res.splits)

lemma np_clients [np_rules]: "no_panic (peers E n)" "no_panic (leader E)"
  unfolding peers_def leader_def by (intro np_rules)+

lemma np_case_sum [np_rules]:
  "(\<And>e. no_panic (f e)) \<Longrightarrow> (\<And>x. no_panic (g x)) \<Longrightarrow> no_panic (case r of Inl e \<Rightarrow> f e | Inr x \<Rightarrow> g x)"
  by (cases r) auto

lemma np_case_option [np_rules]:
  "no_panic f \<Longrightarrow> (\<And>x. no_panic (g x)) \<Longrightarrow> no_panic (case r of None \<Rightarrow> f | Some x \<Rightarrow> g x)"
  by (cases r) auto

lemma np_case_list [np_rules]:
  "no_panic f \<Longrightarrow> (\<And>x xs. no_panic (g x xs)) \<Longrightarrow> no_panic (case r of [] \<Rightarrow> f | x # xs \<Rightarrow> g x xs)"
  by (cases r) auto

lemma np_case_prod [np_rules]:
  "(\<And>a b. no_panic (g a b)) \<Longrightarrow> no_panic (case r of (a, b) \<Rightarrow> g a b)"
  by (cases r) auto

lemma np_case_fnode [np_rules]:
  "no_panic f \<Longrightarrow> (\<And>m s. no_panic (g m s)) \<Longrightarrow> no_panic (case n of Dir \<Rightarrow> f | File m s \<Rightarrow> g m s)"
  by (cases n) auto

lemma np_if [np_rules]: "(c \<Longrightarrow> no_panic f) \<Longrightarrow> (\<not> c \<Longrightarrow> no_panic g) \<Longrightarrow> no_panic (if c then f else g)"
  by auto

lemma np_Let [np_rules]: "(\<And>x. no_panic (f x)) \<Longrightarrow> no_panic (let x = v in f x)"
  by simp

lemma np_on_err [np_rules]: "no_panic m \<Longrightarrow> no_panic (on_err f m)"
  unfolding on_err_def by (intro np_rules)

lemma np_ignore_err [np_rules]: "no_panic m \<Longrightarrow> no_panic (ignore_err m)"
  unfolding ignore_err_def by (intro np_rules)

lemma np_collect [np_rules]: "no_panic m \<Longrightarrow> no_panic (collect f m acc)"
  unfolding collect_def by (intro np_rules)

lemma np_ret_err [np_rules]: "no_panic (ret_err e)"
  unfolding ret_err_def by (intro np_rules)

lemma np_fold_io [np_rules]: "(\<And>x s. no_panic (f x s)) \<Longrightarrow> no_panic (fold_io f xs s)"
proof (induction xs arbitrary: s)
  case (Cons x xs)
  then show ?case by (auto intro!: np_bind)
qed (simp add: np_rules)

lemma np_for_each [np_rules]: "(\<And>x. no_panic (f x)) \<Longrightarrow> no_panic (for_each f xs)"
  by (induction xs) (auto intro!: np_rules)

lemma np_transaction [np_rules]: "no_panic m \<Longrightarrow> no_panic (transaction E m)"
proof -
  assume m: "no_panic m"
  have "no_panic (bind (step E (Sql ''BEGIN'')) (\<lambda>_. bind m (\<lambda>x. andthen (step E (Sql ''COMMIT'')) (ret x))))"
    by (intro np_rules m)
  then show ?thesis
    by (auto simp: no_panic_def transaction_def split: prod.splits res.splits)
qed

section \<open>Programs that always return a value\<close>

named_theorems tot_rules \<open>composition rules of total_io\<close>

definition total_io :: "'a io \<Rightarrow> bool" where
  "total_io m \<longleftrightarrow> (\<forall>w. \<exists>x w'. m w = (Ok x, w'))"

lemma total_ioE:
  assumes "total_io m"
  obtains x w' where "m w = (Ok x, w')"
  using assms unfolding total_io_def by blast

lemma tot_basic [tot_rules]: "total_io (ret x)" "total_io (reads f)" "total_io (sleep n)" "total_io (print s)"
  by (auto simp: total_io_def run)

lemma tot_bind [tot_rules]: "total_io m \<Longrightarrow> (\<And>x. total_io (k x)) \<Longrightarrow> total_io (bind m k)"
  unfolding total_io_def by (metis run_bind(1))

lemma tot_andthen [tot_rules]: "total_io m \<Longrightarrow> total_io k \<Longrightarrow> total_io (andthen m k)"
  unfolding andthen_def by (intro tot_rules)

lemma tot_attempt [tot_rules]: "no_panic m \<Longrightarrow> total_io (attempt m)"
proof -
  assume m: "no_panic m"
  show ?thesis unfolding total_io_def
  proof
    fix w show "\<exists>x w'. attempt m w = (Ok x, w')"
      using m by (cases m w rule: io_cases) (auto simp: run dest: no_panicD)
  qed
qed

lemma tot_ignore_err [tot_rules]: "no_panic m \<Longrightarrow> total_io (ignore_err m)"
  unfolding ignore_err_def by (intro tot_rules)

lemma tot_case_sum [tot_rules]:
  "(\<And>e. total_io (f e)) \<Longrightarrow> (\<And>x. total_io (g x)) \<Longrightarrow> total_io (case r of Inl e \<Rightarrow> f e | Inr x \<Rightarrow> g x)"
  by (cases r) auto

lemma tot_case_option [tot_rules]:
  "total_io f \<Longrightarrow> (\<And>x. total_io (g x)) \<Longrightarrow> total_io (case r of None \<Rightarrow> f | Some x \<Rightarrow> g x)"
  by (cases r) auto

lemma tot_if [tot_rules]: "(c \<Longrightarrow> total_io f) \<Longrightarrow> (\<not> c \<Longrightarrow> total_io g) \<Longrightarrow> total_io (if c then f else g)"
  by auto

lemma tot_collect [tot_rules]: "no_panic m \<Longrightarrow> total_io (collect f m acc)"
  unfolding collect_def by (intro tot_rules)

lemma tot_fold_io [tot_rules]: "(\<And>x s. total_io (f x s)) \<Longrightarrow> total_io (fold_io f xs s)"
proof (induction xs arbitrary: s)
  case (Cons x xs)
  then show ?case by (auto intro!: tot_bind)
qed (simp add: tot_rules)

lemma tot_for_each [tot_rules]: "(\<And>x. total_io (f x)) \<Longrightarrow> total_io (for_each f xs)"
  by (induction xs) (auto intro!: tot_rules)

section \<open>A sample environment\<close>

text \<open>
  One machine on which every operation succeeds and every command answers with the empty text: the
  concrete inputs at which the general theorems are checked.
\<close>

definition sample_ca :: cert where
  "sample_ca = \<lparr>c_serial = 1, c_cn = ''MicroOVN CA'', c_org = [''MicroOVN''], c_ou = [''MicroOVN CA''],
     c_not_before = 0, c_not_after = 315360000, c_key_usage = 96, c_is_ca = True\<rparr>"

definition sample_env :: env where
  "sample_env = \<lparr>e_name = ''n1'', e_host = ''10.0.0.1'', e_snap = ''/s'', e_root = ''/c'',
     e_cmd = (\<lambda>t argv. Inr []), e_fault = (\<lambda>t ev. None), e_http = (\<lambda>t p m q b. Inr JNull),
     e_now = (\<lambda>t. 0), e_md5 = (\<lambda>s. replicate 16 0), e_gen_key = (\<lambda>t. Inr ''k''),
     e_rand_serial = (\<lambda>t. Inr 1),
     e_create_cert = (\<lambda>t p k s. Inr (if t = sample_ca then ''CA'' else ''leaf'')),
     e_marshal_key = Inr, e_pem_encode = (\<lambda>t b. t @ CHR 0x0A # b),
     e_pem_decode = (\<lambda>s. map_option (\<lambda>p. (p, [])) (cut CHR 0x0A s)),
     e_key_pair = (\<lambda>c k. Inr [c]),
     e_parse_cert = (\<lambda>d. if d = ''CA'' then Inr sample_ca else Inl (ErrS ''malformed certificate'')),
     e_parse_pkcs8 = Inr, e_parse_ec = Inr, e_parse_pkcs1 = Inr,
     e_outside = (\<lambda>t p. Some Dir), e_yaml_marshal = (\<lambda>j. Inr []), e_yaml_unmarshal = (\<lambda>s. Inr (JObj [])),
     e_json_unmarshal = (\<lambda>s. Inr (JObj [])), e_peers = (\<lambda>t n. Inr []), e_leader = (\<lambda>t. Inr ''n1''),
     e_db_open = (\<lambda>t. None), e_security_log = True\<rparr>"

definition sample_db :: db where
  "sample_db = \<lparr>members = [\<lparr>m_id = 1, m_name = ''n1'', m_addr = ''10.0.0.1:6443''\<rparr>],
     services = [], configs = [], next_service = 1, next_config = 1\<rparr>"

definition sample_world :: world where
  "sample_world = \<lparr>w_db = sample_db, w_fs = (\<lambda>p. None), w_trace = []\<rparr>"

named_theorems evals \<open>definitions unfolded to run a program at a concrete input\<close>

lemmas world_evals [evals] = Let_def transaction_def bind_def step_def andthen_def on_err_def attempt_def ret_def
  reads_def fail_def run_cmd_def http_def sleep_def print_def upd_db_def upd_fs_def collect_def ignore_err_def ret_err_def
  peers_def leader_def
  sample_world_def sample_env_def sample_db_def

text \<open>The same machine with the directory of ovn.env.\<close>

definition world_with_env :: world where
  "world_with_env = sample_world\<lparr>w_fs := (\<lambda>p. if p = ''/c/data/env'' then Some Dir else None)\<rparr>"

lemma no_fault_sample [simp]: "no_fault sample_env"
  by (simp add: no_fault_def sample_env_def)

end
