(* ===== verification/Paths.thy ===== *)
theory Paths
  imports World
begin

text \<open>
  Package \<open>paths\<close> (ovn/paths/paths.go) and the operations of package \<open>os\<close> on the file system of the
  world. The file system maps clean absolute paths to nodes; an operation fails when the environment
  says so or for the reason the operating system would give.
\<close>

section \<open>Package filepath\<close>

text \<open>\<open>filepath.Clean\<close> on the elements of a path, the kept ones in reverse; then \<open>filepath.Join\<close>.\<close>

fun clean_elems :: "bool \<Rightarrow> string list \<Rightarrow> string list \<Rightarrow> string list" where
  "clean_elems rooted acc [] = rev acc"
| "clean_elems rooted acc (e # es) =
     (if e = [] \<or> e = ''.'' then clean_elems rooted acc es
      else if e = ''..'' then
        (if acc \<noteq> [] \<and> hd acc \<noteq> ''..'' then clean_elems rooted (tl acc) es
         else if rooted then clean_elems rooted acc es
         else clean_elems rooted (e # acc) es)
      else clean_elems rooted (e # acc) es)"

definition path_clean :: "string \<Rightarrow> string" where
  "path_clean p =
     (if p = [] then ''.''
      else let rooted = (hd p = CHR ''/'');
               s = join ''/'' (clean_elems rooted [] (split_on CHR ''/'' p))
           in if rooted then ''/'' @ s else if s = [] then ''.'' else s)"

definition path_join :: "string list \<Rightarrow> string" where
  "path_join es =
     (let xs = filter (\<lambda>e. e \<noteq> []) es in if xs = [] then [] else path_clean (join ''/'' xs))"

text \<open>The file part of \<open>filepath.Split\<close>, and the directory that contains a path.\<close>

definition path_base :: "string \<Rightarrow> string" where
  "path_base p = last (split_on CHR ''/'' p)"

definition path_parent :: "string \<Rightarrow> string" where
  "path_parent p = (let q = join ''/'' (butlast (split_on CHR ''/'' p)) in if q = [] then ''/'' else q)"

text \<open>A clean absolute path is the list of its elements.\<close>

definition plain_elem :: "string \<Rightarrow> bool" where
  "plain_elem e \<longleftrightarrow> e \<noteq> [] \<and> e \<noteq> ''.'' \<and> e \<noteq> ''..'' \<and> CHR ''/'' \<notin> set e"

definition abs_path :: "string list \<Rightarrow> string" where
  "abs_path es = ''/'' @ join ''/'' es"

lemma clean_elems_plain:
  "list_all plain_elem es \<Longrightarrow> clean_elems r acc es = rev acc @ es"
  by (induction es arbitrary: acc) (auto simp: plain_elem_def)

lemma join_append: "xs \<noteq> [] \<Longrightarrow> ys \<noteq> [] \<Longrightarrow> join s (xs @ ys) = join s xs @ s @ join s ys"
  by (induction xs) (auto simp: join_Cons)

lemma abs_path_append: "xs \<noteq> [] \<Longrightarrow> ys \<noteq> [] \<Longrightarrow> abs_path (xs @ ys) = abs_path xs @ abs_path ys"
  by (simp add: abs_path_def join_append)

lemma split_abs_path:
  assumes "list_all plain_elem es" and "es \<noteq> []"
  shows "split_on CHR ''/'' (abs_path es) = [] # es"
proof -
  have "split_on CHR ''/'' (join ''/'' es) = es"
    using assms by (intro split_on_join) (auto simp: list_all_iff plain_elem_def)
  then show ?thesis by (simp add: abs_path_def)
qed

lemma path_clean_abs_path:
  assumes "list_all plain_elem es" and "es \<noteq> []"
  shows "path_clean (abs_path es) = abs_path es"
proof -
  have "path_clean (abs_path es) = ''/'' @ join ''/'' (clean_elems True [] ([] # es))"
    unfolding path_clean_def split_abs_path [OF assms] by (simp add: abs_path_def)
  also have "\<dots> = abs_path es"
    using assms by (simp add: clean_elems_plain abs_path_def)
  finally show ?thesis .
qed

lemma abs_path_not_Nil [simp]: "abs_path es \<noteq> []"
  by (simp add: abs_path_def)

lemma path_join_abs_path:
  assumes "list_all plain_elem es" and "es \<noteq> []" and "list_all plain_elem fs" and "fs \<noteq> []"
  shows "path_join (abs_path es # fs) = abs_path (es @ fs)"
proof -
  have fs: "filter (\<lambda>e. e \<noteq> []) fs = fs"
    using assms(3) by (auto simp: list_all_iff plain_elem_def filter_id_conv)
  have "join ''/'' (abs_path es # fs) = abs_path (es @ fs)"
    using assms(2,4) by (simp add: join_Cons abs_path_append) (simp add: abs_path_def)
  moreover have "path_clean (abs_path (es @ fs)) = abs_path (es @ fs)"
    using assms by (intro path_clean_abs_path) auto
  ultimately show ?thesis
    using fs by (simp add: path_join_def)
qed

lemma path_base_abs_path: "list_all plain_elem es \<Longrightarrow> es \<noteq> [] \<Longrightarrow> path_base (abs_path es) = last es"
  by (simp add: path_base_def split_abs_path)

section \<open>Package paths\<close>

text \<open>\<open>e_root\<close> is \<open>$SNAP_COMMON\<close> and \<open>e_snap\<close> is \<open>$SNAP\<close>.\<close>

definition runtimeDir :: "env \<Rightarrow> string" where "runtimeDir E = path_join [e_root E, ''run'']"
definition dataDir :: "env \<Rightarrow> string" where "dataDir E = path_join [e_root E, ''data'']"
definition LogsDir :: "env \<Rightarrow> string" where "LogsDir E = path_join [e_root E, ''logs'']"
definition OvnRuntimeDir :: "env \<Rightarrow> string" where "OvnRuntimeDir E = path_join [runtimeDir E, ''ovn'']"

definition CentralDBDir :: "env \<Rightarrow> string" where
  "CentralDBDir E = path_join [dataDir E, ''central'', ''db'']"
definition CentralDBNBPath :: "env \<Rightarrow> string" where
  "CentralDBNBPath E = path_join [CentralDBDir E, ''ovnnb_db.db'']"
definition CentralDBSBPath :: "env \<Rightarrow> string" where
  "CentralDBSBPath E = path_join [CentralDBDir E, ''ovnsb_db.db'']"

text \<open>\<open>time.Now().Format(time.DateTime)\<close> of a time in seconds, in the location UTC.\<close>

definition pad2 :: "nat \<Rightarrow> string" where
  "pad2 n = (if n < 10 then ''0'' @ show_nat n else show_nat n)"

definition format_datetime :: "nat \<Rightarrow> string" where
  "format_datetime t =
     (let z = t div 86400 + 719468; era = z div 146097; doe = z mod 146097;
          yoe = (doe - doe div 1460 + doe div 36524 - doe div 146096) div 365;
          doy = doe - (365 * yoe + yoe div 4 - yoe div 100);
          mp = (5 * doy + 2) div 153;
          day = doy - (153 * mp + 2) div 5 + 1;
          month = (if mp < 10 then mp + 3 else mp - 9);
          year = yoe + era * 400 + (if month \<le> 2 then 1 else 0);
          s = t mod 86400
      in show_nat year @ ''-'' @ pad2 month @ ''-'' @ pad2 day @ '' '' @
         pad2 (s div 3600) @ '':'' @ pad2 (s mod 3600 div 60) @ '':'' @ pad2 (s mod 60))"

definition CentralDBSBBackupPath :: "env \<Rightarrow> nat \<Rightarrow> string" where
  "CentralDBSBBackupPath E t =
     path_join [CentralDBDir E, ''ovnsb_db_backup_'' @ format_datetime t @ ''.db'']"
definition CentralDBNBBackupPath :: "env \<Rightarrow> nat \<Rightarrow> string" where
  "CentralDBNBBackupPath E t =
     path_join [CentralDBDir E, ''ovnnb_db_backup_'' @ format_datetime t @ ''.db'']"

definition SwitchDBDir :: "env \<Rightarrow> string" where
  "SwitchDBDir E = path_join [dataDir E, ''switch'', ''db'']"
definition SwitchRuntimeDir :: "env \<Rightarrow> string" where
  "SwitchRuntimeDir E = path_join [runtimeDir E, ''switch'']"
definition SwitchDataDir :: "env \<Rightarrow> string" where
  "SwitchDataDir E = path_join [dataDir E, ''switch'', ''openvswitch'']"
definition EnvDir :: "env \<Rightarrow> string" where "EnvDir E = path_join [dataDir E, ''env'']"
definition OvnEnvFile :: "env \<Rightarrow> string" where "OvnEnvFile E = path_join [EnvDir E, ''ovn.env'']"

definition OvnNBDatabaseSock :: "env \<Rightarrow> string" where
  "OvnNBDatabaseSock E = path_join [OvnRuntimeDir E, ''ovnnb_db.sock'']"
definition OvnSBDatabaseSock :: "env \<Rightarrow> string" where
  "OvnSBDatabaseSock E = path_join [OvnRuntimeDir E, ''ovnsb_db.sock'']"
definition OvnNBControlSock :: "env \<Rightarrow> string" where
  "OvnNBControlSock E = path_join [OvnRuntimeDir E, ''ovnnb_db.ctl'']"
definition OvnSBControlSock :: "env \<Rightarrow> string" where
  "OvnSBControlSock E = path_join [OvnRuntimeDir E, ''ovnsb_db.ctl'']"
definition OvsDatabaseSock :: "env \<Rightarrow> string" where
  "OvsDatabaseSock E = path_join [SwitchRuntimeDir E, ''db.sock'']"

definition PkiDir :: "env \<Rightarrow> string" where "PkiDir E = path_join [dataDir E, ''pki'']"
definition PkiCaCertFile :: "env \<Rightarrow> string" where
  "PkiCaCertFile E = path_join [PkiDir E, ''cacert.pem'']"

definition getServiceCertFiles :: "env \<Rightarrow> string \<Rightarrow> string \<times> string" where
  "getServiceCertFiles E srv =
     (path_join [PkiDir E, srv @ ''-cert.pem''], path_join [PkiDir E, srv @ ''-privkey.pem''])"

definition OvsdbSbSchema :: "env \<Rightarrow> string" where
  "OvsdbSbSchema E = path_join [e_snap E, ''share'', ''ovn'', ''ovn-sb.ovsschema'']"
definition OvsdbNbSchema :: "env \<Rightarrow> string" where
  "OvsdbNbSchema E = path_join [e_snap E, ''share'', ''ovn'', ''ovn-nb.ovsschema'']"
definition OvsdbSwitchSchema :: "env \<Rightarrow> string" where
  "OvsdbSwitchSchema E = path_join [e_snap E, ''share'', ''openvswitch'', ''vswitch.ovsschema'']"
definition Wrappers :: "env \<Rightarrow> string" where "Wrappers E = path_join [e_snap E, ''commands'']"

definition BirdConfigDir :: "env \<Rightarrow> string" where "BirdConfigDir E = path_join [dataDir E, ''bird'']"
definition BirdDefaultConfig :: "env \<Rightarrow> string" where
  "BirdDefaultConfig E = path_join [e_snap E, ''etc'', ''bird'', ''bird.conf'']"
definition BirdConfigFile :: "env \<Rightarrow> string" where
  "BirdConfigFile E = path_join [BirdConfigDir E, ''bird.conf'']"

definition RequiredDirs :: "env \<Rightarrow> string list" where
  "RequiredDirs E = [OvnRuntimeDir E, CentralDBDir E, SwitchDBDir E, SwitchRuntimeDir E,
     SwitchDataDir E, LogsDir E, PkiDir E, EnvDir E, BirdConfigDir E]"

definition BackupDirs :: "env \<Rightarrow> string list" where
  "BackupDirs E = [dataDir E, LogsDir E, BirdConfigDir E]"

text \<open>The snap is installed: its common directory is a clean absolute path.\<close>

definition rooted :: "env \<Rightarrow> string list \<Rightarrow> bool" where
  "rooted E es \<longleftrightarrow> e_root E = abs_path es \<and> es \<noteq> [] \<and> list_all plain_elem es"

lemma plain_names [simp]:
  "plain_elem ''run''" "plain_elem ''data''" "plain_elem ''logs''" "plain_elem ''ovn''"
  "plain_elem ''central''" "plain_elem ''db''" "plain_elem ''switch''" "plain_elem ''openvswitch''"
  "plain_elem ''env''" "plain_elem ''pki''" "plain_elem ''bird''" "plain_elem ''ovn.env''"
  "plain_elem ''ovnnb_db.db''" "plain_elem ''ovnsb_db.db''" "plain_elem ''cacert.pem''"
  by (simp_all add: plain_elem_def)

lemma plain_append: "CHR ''/'' \<notin> set s \<Longrightarrow> length b > 2 \<Longrightarrow> CHR ''/'' \<notin> set b \<Longrightarrow> plain_elem (s @ b)"
  by (auto simp: plain_elem_def append_eq_Cons_conv)

lemma rooted_paths:
  assumes "rooted E es"
  shows "dataDir E = abs_path (es @ [''data''])" and "runtimeDir E = abs_path (es @ [''run''])"
    and "LogsDir E = abs_path (es @ [''logs''])"
    and "PkiDir E = abs_path (es @ [''data'', ''pki''])"
    and "EnvDir E = abs_path (es @ [''data'', ''env''])"
    and "BirdConfigDir E = abs_path (es @ [''data'', ''bird''])"
    and "CentralDBDir E = abs_path (es @ [''data'', ''central'', ''db''])"
  using assms unfolding dataDir_def runtimeDir_def LogsDir_def PkiDir_def EnvDir_def BirdConfigDir_def
    CentralDBDir_def rooted_def
  by (simp_all add: path_join_abs_path)

end
