(* ===== verification/FileSystem.thy ===== *)
theory FileSystem
  imports Paths
begin

text \<open>
  The operations of package \<open>os\<close> the program uses, and the two functions of
  ovn/environment/environment.go that build and tear down the directory tree, \<open>CreatePaths\<close> and
  \<open>CleanupPaths\<close>.
\<close>

section \<open>Package os\<close>

type_synonym fs = "string \<Rightarrow> fnode option"

definition is_dir :: "fs \<Rightarrow> string \<Rightarrow> bool" where
  "is_dir f p \<longleftrightarrow> p = ''/'' \<or> f p = Some Dir"

text \<open>\<open>p\<close> is \<open>d\<close> or lies below it.\<close>

definition under :: "string \<Rightarrow> string \<Rightarrow> bool" where
  "under d p \<longleftrightarrow> p = d \<or> prefix (d @ ''/'') p"

text \<open>An operation on a path: the environment may fail it, or the file system refuses it with a
  message.\<close>

definition fs_op :: "env \<Rightarrow> string \<Rightarrow> string \<Rightarrow> (fs \<Rightarrow> string + fs \<times> 'a) \<Rightarrow> 'a io" where
  "fs_op E op p f = andthen (step E (Os op p))
     (\<lambda>w. case f (w_fs w) of
            Inl msg \<Rightarrow> (Er (ErrS (op @ '' '' @ p @ '': '' @ msg)), w)
          | Inr (g, x) \<Rightarrow> (Ok x, w\<lparr>w_fs := g\<rparr>))"

definition noent :: string where "noent = ''no such file or directory''"

definition ancestors :: "string \<Rightarrow> string list" where
  "ancestors p = (let es = tl (split_on CHR ''/'' p) in
     map (\<lambda>k. abs_path (take k es)) [1 ..< length es + 1])"

definition mkdir_all :: "string \<Rightarrow> fs \<Rightarrow> string + fs \<times> unit" where
  "mkdir_all p f =
     (if \<exists>a \<in> set (ancestors p). f a \<noteq> None \<and> f a \<noteq> Some Dir then Inl ''not a directory''
      else Inr (\<lambda>q. if q \<in> set (ancestors p) then Some Dir else f q, ()))"

definition mkdir :: "string \<Rightarrow> fs \<Rightarrow> string + fs \<times> unit" where
  "mkdir p f =
     (if f p \<noteq> None then Inl ''file exists''
      else if \<not> is_dir f (path_parent p) then Inl noent
      else Inr (f(p \<mapsto> Dir), ()))"

text \<open>A rename moves the whole tree below the old path.\<close>

definition move_tree :: "string \<Rightarrow> string \<Rightarrow> fs \<Rightarrow> fs" where
  "move_tree old new f = (\<lambda>p.
     if under new p then f (old @ drop (length new) p)
     else if under old p then None else f p)"

definition rename_path :: "string \<Rightarrow> string \<Rightarrow> fs \<Rightarrow> string + fs \<times> unit" where
  "rename_path old new f =
     (if f old = None then Inl noent
      else if f new = Some Dir then Inl ''file exists''
      else if \<not> is_dir f (path_parent new) then Inl noent
      else if under old new \<and> old \<noteq> new then Inl ''invalid argument''
      else if f old = Some Dir \<and> f new \<noteq> None then Inl ''not a directory''
      else Inr (move_tree old new f, ()))"

definition remove_all :: "string \<Rightarrow> fs \<Rightarrow> string + fs \<times> unit" where
  "remove_all p f = Inr (\<lambda>q. if under p q then None else f q, ())"

text \<open>\<open>O_CREATE | O_TRUNC\<close>: an existing file keeps its permissions and loses its contents.\<close>

definition open_trunc :: "string \<Rightarrow> nat \<Rightarrow> fs \<Rightarrow> string + fs \<times> unit" where
  "open_trunc p mode f = (case f p of
       Some Dir \<Rightarrow> Inl ''is a directory''
     | Some (File m s) \<Rightarrow> Inr (f(p \<mapsto> File m []), ())
     | None \<Rightarrow> if is_dir f (path_parent p) then Inr (f(p \<mapsto> File mode []), ()) else Inl noent)"

definition append_file :: "string \<Rightarrow> string \<Rightarrow> fs \<Rightarrow> string + fs \<times> unit" where
  "append_file p s f = (case f p of
       Some (File m t) \<Rightarrow> Inr (f(p \<mapsto> File m (t @ s)), ())
     | _ \<Rightarrow> Inl ''bad file descriptor'')"

definition chmod_file :: "string \<Rightarrow> nat \<Rightarrow> fs \<Rightarrow> string + fs \<times> unit" where
  "chmod_file p mode f = (case f p of
       Some (File m t) \<Rightarrow> Inr (f(p \<mapsto> File mode t), ())
     | _ \<Rightarrow> Inl ''bad file descriptor'')"

definition read_file :: "string \<Rightarrow> fs \<Rightarrow> string + fs \<times> string" where
  "read_file p f = (case f p of
       Some (File m t) \<Rightarrow> Inr (f, t) | Some Dir \<Rightarrow> Inl ''is a directory'' | None \<Rightarrow> Inl noent)"

definition os_MkdirAll :: "env \<Rightarrow> string \<Rightarrow> unit io" where
  "os_MkdirAll E p = fs_op E ''mkdir -p'' p (mkdir_all p)"
definition os_Mkdir :: "env \<Rightarrow> string \<Rightarrow> unit io" where
  "os_Mkdir E p = fs_op E ''mkdir'' p (mkdir p)"
definition os_Rename :: "env \<Rightarrow> string \<Rightarrow> string \<Rightarrow> unit io" where
  "os_Rename E old new = fs_op E ''rename'' (old @ '' '' @ new) (rename_path old new)"
definition os_RemoveAll :: "env \<Rightarrow> string \<Rightarrow> unit io" where
  "os_RemoveAll E p = fs_op E ''rm -r'' p (remove_all p)"
definition os_OpenTrunc :: "env \<Rightarrow> string \<Rightarrow> nat \<Rightarrow> unit io" where
  "os_OpenTrunc E p mode = fs_op E ''open'' p (open_trunc p mode)"
definition os_Write :: "env \<Rightarrow> string \<Rightarrow> string \<Rightarrow> unit io" where
  "os_Write E p s = fs_op E ''write'' p (append_file p s)"
definition os_Chmod :: "env \<Rightarrow> string \<Rightarrow> nat \<Rightarrow> unit io" where
  "os_Chmod E p mode = fs_op E ''chmod'' p (chmod_file p mode)"
definition os_ReadFile :: "env \<Rightarrow> string \<Rightarrow> string io" where
  "os_ReadFile E p = fs_op E ''read'' p (read_file p)"

text \<open>\<open>os.Create(p)\<close> is \<open>OpenFile\<close> with mode 0666 (under the umask 022 of the daemon, 0644).\<close>

definition os_Create :: "env \<Rightarrow> string \<Rightarrow> unit io" where
  "os_Create E p = os_OpenTrunc E p 420"

text \<open>\<open>os.WriteFile(p, data, mode)\<close>.\<close>

definition os_WriteFile :: "env \<Rightarrow> string \<Rightarrow> string \<Rightarrow> nat \<Rightarrow> unit io" where
  "os_WriteFile E p s mode = andthen (os_OpenTrunc E p mode) (os_Write E p s)"

text \<open>\<open>_, err := os.Stat(p); os.IsNotExist(err)\<close>: false when the path is there; an error stands for
  the failures that are not \<open>IsNotExist\<close>.\<close>

definition os_NotExist :: "env \<Rightarrow> string \<Rightarrow> bool io" where
  "os_NotExist E p = andthen (step E (Os ''stat'' p)) (reads (\<lambda>w. w_fs w p = None))"

text \<open>The same for the files outside the snap, and reading one of them.\<close>

definition outside_NotExist :: "env \<Rightarrow> string \<Rightarrow> bool io" where
  "outside_NotExist E p = andthen (step E (Os ''stat'' p)) (reads (\<lambda>w. e_outside E (w_trace w) p = None))"

definition outside_ReadFile :: "env \<Rightarrow> string \<Rightarrow> string io" where
  "outside_ReadFile E p = andthen (step E (Os ''read'' p))
     (bind (reads (\<lambda>w. e_outside E (w_trace w) p)) (\<lambda>n. case n of
        Some (File m s) \<Rightarrow> ret s
      | _ \<Rightarrow> fail (ErrS (''open '' @ p @ '': '' @ noent))))"

definition outside_WriteFile :: "env \<Rightarrow> string \<Rightarrow> string \<Rightarrow> nat \<Rightarrow> unit io" where
  "outside_WriteFile E p s mode = step E (Os ''write'' p)"

lemma fs_op_OkE [ok_elims]:
  assumes "fs_op E op p f w = (Ok x, w')"
  obtains g where "f (w_fs w) = Inr (g, x)" and "w_fs w' = g" and "w_db w' = w_db w"
  using assms by (auto simp: fs_op_def elim!: ok_elims split: sum.splits)

lemma run_fs_op [run]:
  assumes "no_fault E"
  shows "fs_op E op p f w = (case f (w_fs w) of
      Inl msg \<Rightarrow> (Er (ErrS (op @ '' '' @ p @ '': '' @ msg)), w\<lparr>w_trace := Os op p # w_trace w\<rparr>)
    | Inr (g, x) \<Rightarrow> (Ok x, w\<lparr>w_fs := g, w_trace := Os op p # w_trace w\<rparr>))"
  using assms by (auto simp: fs_op_def run run_andthen(1) [OF run_step_no_fault] split: sum.splits)

lemma fs_op_refused:
  assumes "f (w_fs w) = Inl msg"
  shows "\<exists>e w'. fs_op E op p f w = (Er e, w') \<and> w_fs w' = w_fs w"
  using assms by (auto simp: fs_op_def andthen_def bind_def step_def split: option.splits)

lemma fs_op_no_panic [simp]: "fs_op E op p f w \<noteq> (Panic s, w')"
  by (auto simp: fs_op_def andthen_def bind_def step_def split: option.splits sum.splits)

lemmas os_defs = os_MkdirAll_def os_Mkdir_def os_Rename_def os_RemoveAll_def os_OpenTrunc_def
  os_Write_def os_Chmod_def os_ReadFile_def os_Create_def os_WriteFile_def os_NotExist_def

lemma np_fs_op [np_rules]: "no_panic (fs_op E op p f)"
  by (simp add: no_panic_def)

lemma np_outside [np_rules]:
  "no_panic (outside_NotExist E p)" "no_panic (outside_ReadFile E p)" "no_panic (outside_WriteFile E p s m)"
  unfolding outside_NotExist_def outside_ReadFile_def outside_WriteFile_def by (intro np_rules)+

lemma np_os [np_rules]:
  "no_panic (os_MkdirAll E p)" "no_panic (os_Mkdir E p)" "no_panic (os_Rename E p q)"
  "no_panic (os_RemoveAll E p)" "no_panic (os_OpenTrunc E p m)" "no_panic (os_Write E p s)"
  "no_panic (os_Chmod E p m)" "no_panic (os_ReadFile E p)" "no_panic (os_Create E p)"
  "no_panic (os_WriteFile E p s m)" "no_panic (os_NotExist E p)"
  unfolding os_defs by (intro np_rules)+

context trace_blind
begin

lemma keeps_outside [keeps_rules]:
  "keeps P (outside_NotExist E p)" "keeps P (outside_ReadFile E p)" "keeps P (outside_WriteFile E p s m)"
  unfolding outside_NotExist_def outside_ReadFile_def outside_WriteFile_def
  by (intro keeps_rules keeps_step)+

end

text \<open>What only looks at the tables is kept by every file operation.\<close>

locale fs_blind = trace_blind P for P +
  assumes fs_blind: "P w \<Longrightarrow> P (w\<lparr>w_fs := f\<rparr>)"
begin

lemma keeps_fs_op [keeps_rules]: "keeps P (fs_op E op p f)"
  unfolding fs_op_def
  by (intro keeps_rules keeps_step) (auto simp: keeps_def fs_blind split: sum.splits)

lemma keeps_os [keeps_rules]:
  "keeps P (os_MkdirAll E p)" "keeps P (os_Mkdir E p)" "keeps P (os_Rename E p q)"
  "keeps P (os_RemoveAll E p)" "keeps P (os_OpenTrunc E p m)" "keeps P (os_Write E p s)"
  "keeps P (os_Chmod E p m)" "keeps P (os_ReadFile E p)" "keeps P (os_Create E p)"
  "keeps P (os_WriteFile E p s m)" "keeps P (os_NotExist E p)"
  unfolding os_defs by (intro keeps_rules keeps_step keeps_fs_op)+

end

interpretation dbf: fs_blind "\<lambda>w. w_db w = d" for d
  by unfold_locales simp

interpretation invf: fs_blind "\<lambda>w. I (w_db w)" for I
  by unfold_locales simp

section \<open>CreatePaths and CleanupPaths\<close>

definition CreatePaths :: "env \<Rightarrow> unit io" where
  "CreatePaths E = for_each (\<lambda>path. on_err
       (\<lambda>e. wrapf (''unable to create '' @ quoted path @ '': '') e)
       (os_MkdirAll E path)) (RequiredDirs E)"

text \<open>\<open>errors.Join(errs...)\<close> of a slice: nil when it is empty.\<close>

definition join_errs :: "goerr list \<Rightarrow> unit io" where
  "join_errs es = (if es = [] then ret () else fail (ErrJoin es))"

text \<open>A loop that appends the errors of its steps to a slice.\<close>

definition gather :: "(goerr \<Rightarrow> goerr) \<Rightarrow> ('a \<Rightarrow> unit io) \<Rightarrow> 'a list \<Rightarrow> goerr list \<Rightarrow> goerr list io" where
  "gather f op = fold_io (\<lambda>x es. bind (attempt (op x))
     (\<lambda>r. case r of Inl e \<Rightarrow> ret (es @ [f e]) | Inr _ \<Rightarrow> ret es))"

definition backupDir :: "nat \<Rightarrow> string" where
  "backupDir now = ''backup_'' @ show_nat now"

definition CleanupPaths :: "env \<Rightarrow> unit io" where
  "CleanupPaths E =
     bind (reads (\<lambda>w. path_join [e_root E, backupDir (e_now E (w_trace w))])) (\<lambda>backupPath.
     bind (attempt (os_Mkdir E backupPath)) (\<lambda>r. case r of
       Inl e \<Rightarrow> fail (ErrJoin [errf (''failed to create backup directory '' @ squoted backupPath @
                  '', refusing to continue with data removal: '') e])
     | Inr _ \<Rightarrow>
         bind (gather id (\<lambda>dir. os_Rename E dir (path_join [backupPath, path_base dir])) (BackupDirs E) [])
         (\<lambda>errs. if errs \<noteq> []
           then fail (ErrJoin (errs @
             [ErrS ''failures occured during backup, refusing to continue with data removal'']))
           else bind (fold_io (\<lambda>dir es. bind (attempt (os_RemoveAll E dir))
                  (\<lambda>r. case r of
                     Inl e \<Rightarrow> ret (es @ [wrapf (''failed to remove directory '' @ squoted dir @ '': '') e])
                   | Inr _ \<Rightarrow> ret es)) (RequiredDirs E) [])
                join_errs)))"

lemma np_gather [np_rules]: "(\<And>x. no_panic (op x)) \<Longrightarrow> no_panic (gather f op xs es)"
  unfolding gather_def by (intro np_rules)

lemma np_paths [np_rules]: "no_panic (CreatePaths E)" "no_panic (CleanupPaths E)"
  unfolding CreatePaths_def CleanupPaths_def join_errs_def by (intro np_rules)+

section \<open>What the two functions do to the tree\<close>

lemma split_on_append: "split_on c (a @ c # b) = split_on c a @ split_on c b"
proof (induction a)
  case (Cons x xs)
  then show ?case by (cases "split_on c xs") auto
qed simp

lemma abs_path_inj:
  assumes "list_all plain_elem xs" "xs \<noteq> []" "list_all plain_elem ys" "ys \<noteq> []" "abs_path xs = abs_path ys"
  shows "xs = ys"
proof -
  have "[] # xs = [] # ys"
    unfolding split_abs_path [OF assms(1,2), symmetric] split_abs_path [OF assms(3,4), symmetric] assms(5) ..
  then show ?thesis by simp
qed

lemma under_abs_path:
  assumes xs: "list_all plain_elem xs" "xs \<noteq> []" and ys: "list_all plain_elem ys" "ys \<noteq> []"
  shows "under (abs_path xs) (abs_path ys) \<longleftrightarrow> prefix xs ys"
proof
  assume u: "under (abs_path xs) (abs_path ys)"
  show "prefix xs ys"
  proof (cases "abs_path ys = abs_path xs")
    case True
    then show ?thesis using abs_path_inj [OF ys xs] by simp
  next
    case False
    then obtain z where "abs_path ys = abs_path xs @ CHR ''/'' # z"
      using u by (auto simp: under_def prefix_def)
    then have "split_on CHR ''/'' (abs_path ys) = split_on CHR ''/'' (abs_path xs) @ split_on CHR ''/'' z"
      by (simp add: split_on_append)
    then show ?thesis by (simp add: split_abs_path xs ys)
  qed
next
  assume "prefix xs ys"
  then obtain zs where zs: "ys = xs @ zs" by (auto simp: prefix_def)
  show "under (abs_path xs) (abs_path ys)"
  proof (cases "zs = []")
    case False
    then have "abs_path ys = abs_path xs @ ''/'' @ join ''/'' zs"
      using xs zs by (simp add: abs_path_append) (simp add: abs_path_def)
    then show ?thesis by (simp add: under_def)
  qed (simp add: zs under_def)
qed

lemma rename_vacates:
  assumes "rename_path old new f = Inr (g, u)" and "under old p" and "\<not> under new p"
  shows "g p = None"
  using assms by (auto simp: rename_path_def move_tree_def split: if_splits)

lemma rename_keeps_vacant:
  assumes "rename_path old new f = Inr (g, u)" and "f p = None" and "\<not> under new p"
  shows "g p = None"
  using assms by (auto simp: rename_path_def move_tree_def split: if_splits)

lemma gather_Cons_Er:
  assumes "op x w = (Er e, w1)"
  shows "gather f op (x # xs) es w = gather f op xs (es @ [f e]) w1"
  using assms by (simp add: gather_def bind_def run)

lemma gather_Cons_Ok:
  assumes "op x w = (Ok u, w1)"
  shows "gather f op (x # xs) es w = gather f op xs es w1"
  using assms by (simp add: gather_def bind_def run)

lemma gather_total:
  assumes "\<And>x w s w'. op x w \<noteq> (Panic s, w')"
  shows "\<exists>es' w'. gather f op xs es w = (Ok es', w') \<and> (es \<noteq> [] \<longrightarrow> es' \<noteq> [])"
proof (induction xs arbitrary: es w)
  case (Cons x xs)
  show ?case
  proof (cases "op x" w rule: io_cases)
    case (Ok u w1)
    with Cons [of es w1] show ?thesis by (simp only: gather_Cons_Ok)
  next
    case (Er e w1)
    with Cons [of "es @ [f e]" w1] show ?thesis by (auto simp only: gather_Cons_Er append_is_Nil_conv)
  qed (use assms in blast)
qed (simp add: gather_def)

text \<open>Backing up a directory and then a directory inside it always leaves an error.\<close>

lemma backup_nested_fails:
  assumes nested: "under a c" and apart: "\<not> under (dst a) c" "\<not> under (dst b) c"
  shows "\<exists>es w'. gather id (\<lambda>d. os_Rename E d (dst d)) [a, b, c] [] w = (Ok es, w') \<and> es \<noteq> []"
proof -
  let ?op = "\<lambda>d. os_Rename E d (dst d)"
  have np: "?op x w \<noteq> (Panic s, w')" for x w s w' by (simp add: os_Rename_def)
  note later = gather_total [of ?op, OF np]
  show ?thesis
  proof (cases "?op a" w rule: io_cases)
    case (Er e w1)
    then show ?thesis
      using later [of id "[b, c]" "[] @ [id e]" w1] by (simp add: gather_Cons_Er del: append_Nil)
  next
    case a: (Ok u w1)
    then have v1: "w_fs w1 c = None"
      using nested apart by (auto simp: os_Rename_def elim!: fs_op_OkE intro: rename_vacates)
    show ?thesis
    proof (cases "?op b" w1 rule: io_cases)
      case (Er e w2)
      then show ?thesis
        using later [of id "[c]" "[] @ [id e]" w2] a by (simp add: gather_Cons_Er gather_Cons_Ok del: append_Nil)
    next
      case b: (Ok u2 w2)
      then have "w_fs w2 c = None"
        using v1 apart by (auto simp: os_Rename_def elim!: fs_op_OkE intro: rename_keeps_vacant)
      then have "rename_path c (dst c) (w_fs w2) = Inl noent" by (simp add: rename_path_def)
      then obtain e w3 where "?op c w2 = (Er e, w3)"
        unfolding os_Rename_def using fs_op_refused by blast
      then show ?thesis
        using a b later [of id "[]" "[] @ [id e]" w3]
        by (simp add: gather_Cons_Er gather_Cons_Ok del: append_Nil)
    qed (use np in blast)
  qed (use np in blast)
qed

lemma is_digit_plain: "(\<And>c. c \<in> set s \<Longrightarrow> is_digit c) \<Longrightarrow> CHR ''/'' \<notin> set s"
  by (force simp: is_digit_def)

lemma plain_backup: "plain_elem (backupDir n)"
  using is_digit_plain [OF show_nat_digits] by (auto simp: plain_elem_def backupDir_def)

text \<open>In an installed snap \<open>CleanupPaths\<close> returns an error on every run and in every environment:
  the directory of BIRD is inside the data directory, which has been moved away when its turn comes.\<close>

theorem CleanupPaths_never_succeeds:
  assumes root: "rooted E es"
  shows "\<exists>e w'. CleanupPaths E w = (Er e, w')"
proof -
  define b where "b = backupDir (e_now E (w_trace w))"
  have plain: "list_all plain_elem es" "es \<noteq> []" using root by (auto simp: rooted_def)
  have bp: "path_join [e_root E, b] = abs_path (es @ [b])"
    using root plain_backup unfolding rooted_def b_def
    by (simp add: path_join_abs_path)
  show ?thesis
  proof (cases "os_Mkdir E (abs_path (es @ [b]))" w rule: io_cases)
    case (Er e w1)
    then show ?thesis
      by (simp add: CleanupPaths_def bind_def run b_def [symmetric] bp)
  next
    case (Panic s w1)
    then show ?thesis by (simp add: os_Mkdir_def)
  next
    case (Ok u w1)
    let ?dst = "\<lambda>d. path_join [abs_path (es @ [b]), path_base d]"
    have pb: "plain_elem b" by (simp add: b_def plain_backup)
    have dst: "?dst (abs_path (es @ xs)) = abs_path (es @ [b, last xs])"
      if "list_all plain_elem xs" "xs \<noteq> []" for xs
    proof -
      have "path_base (abs_path (es @ xs)) = last xs" and "plain_elem (last xs)"
        using that plain path_base_abs_path [of "es @ xs"] by (auto simp: list_all_iff)
      then show ?thesis
        using plain pb path_join_abs_path [of "es @ [b]" "[last xs]"] by simp
    qed
    have ndata: "b \<noteq> ''data''" by (simp add: b_def backupDir_def)
    have "\<exists>ers w'. gather id (\<lambda>d. os_Rename E d (?dst d))
            [dataDir E, LogsDir E, BirdConfigDir E] [] w1 = (Ok ers, w') \<and> ers \<noteq> []"
    proof (rule backup_nested_fails)
      show "under (dataDir E) (BirdConfigDir E)"
        using plain by (simp add: rooted_paths [OF root] under_abs_path)
      show "\<not> under (?dst (dataDir E)) (BirdConfigDir E)" "\<not> under (?dst (LogsDir E)) (BirdConfigDir E)"
        using plain pb ndata dst [of "[''data'']"] dst [of "[''logs'']"]
        by (simp_all add: rooted_paths [OF root] under_abs_path)
    qed
    then show ?thesis
      using Ok by (auto simp: CleanupPaths_def bind_def run b_def [symmetric] bp BackupDirs_def
        split: prod.splits)
  qed
qed

text \<open>After \<open>CreatePaths\<close> every required directory is there and no file is lost.\<close>

lemma self_ancestor:
  assumes "list_all plain_elem es" and "es \<noteq> []"
  shows "abs_path es \<in> set (ancestors (abs_path es))"
  using assms by (auto simp: ancestors_def split_abs_path intro!: image_eqI [of _ _ "length es"]
      simp del: One_nat_def simp: Suc_le_eq One_nat_def)

lemma mkdir_all_result:
  assumes "mkdir_all p f = Inr (g, u)"
  shows "p \<in> set (ancestors p) \<Longrightarrow> g p = Some Dir"
    and "f q = Some n \<Longrightarrow> g q = Some n"
  using assms by (auto simp: mkdir_all_def split: if_splits) force

lemma RequiredDirs_abs:
  assumes "rooted E es" and "d \<in> set (RequiredDirs E)"
  shows "\<exists>xs. d = abs_path xs \<and> list_all plain_elem xs \<and> xs \<noteq> []"
proof -
  note r = rooted_paths [OF assms(1)]
  have plain: "list_all plain_elem es" "es \<noteq> []" using assms(1) by (auto simp: rooted_def)
  have "OvnRuntimeDir E = abs_path (es @ [''run'', ''ovn''])"
    and "SwitchDBDir E = abs_path (es @ [''data'', ''switch'', ''db''])"
    and "SwitchRuntimeDir E = abs_path (es @ [''run'', ''switch''])"
    and "SwitchDataDir E = abs_path (es @ [''data'', ''switch'', ''openvswitch''])"
    using plain by (simp_all add: OvnRuntimeDir_def SwitchDBDir_def SwitchRuntimeDir_def
        SwitchDataDir_def r path_join_abs_path)
  then have "\<exists>xs. d = abs_path (es @ xs) \<and> list_all plain_elem xs"
    using assms(2) unfolding RequiredDirs_def r
    by (simp only: list.set insert_iff empty_iff) (elim disjE; force)
  then show ?thesis using plain by fastforce
qed

lemma CreatePaths_Ok:
  assumes root: "rooted E es" and run: "CreatePaths E w = (Ok u, w')"
  shows "(\<forall>d \<in> set (RequiredDirs E). w_fs w' d = Some Dir) \<and>
         (\<forall>p n. w_fs w p = Some n \<longrightarrow> w_fs w' p = Some n) \<and> w_db w' = w_db w"
proof (intro conjI allI impI)
  let ?m = "\<lambda>path. on_err (\<lambda>e. wrapf (''unable to create '' @ quoted path @ '': '') e) (os_MkdirAll E path)"
  note run = run [unfolded CreatePaths_def]
  have stable: "w_fs a p = Some n \<Longrightarrow> ?m y a = (Ok v, b) \<Longrightarrow> w_fs b p = Some n" for a b p n y v
    by (auto simp: os_MkdirAll_def elim!: ok_elims dest: mkdir_all_result(2))
  have "\<forall>d \<in> set (RequiredDirs E). d \<in> set (ancestors d) \<longrightarrow> w_fs w' d = Some Dir"
    by (rule for_each_all [OF run])
       (auto simp: os_MkdirAll_def elim!: ok_elims dest: mkdir_all_result)
  then show "\<forall>d \<in> set (RequiredDirs E). w_fs w' d = Some Dir"
    using RequiredDirs_abs [OF root] self_ancestor by blast
  show "w_fs w p = Some n \<Longrightarrow> w_fs w' p = Some n" for p n
    by (rule for_each_stable [OF run]) (auto intro: stable)
  show "w_db w' = w_db w"
    by (rule for_each_stable [OF run]) (auto simp: os_MkdirAll_def elim!: ok_elims)
qed

theorem CleanupPaths_never_succeeds_witness: "\<exists>e w'. CleanupPaths sample_env sample_world = (Er e, w')"
  by (rule CleanupPaths_never_succeeds [of _ "[''c'']"])
     (simp add: rooted_def sample_env_def abs_path_def plain_elem_def)

lemmas file_evals [evals] = path_join_def path_clean_def path_parent_def path_base_def fs_op_def noent_def is_dir_def
  os_OpenTrunc_def open_trunc_def os_Write_def append_file_def os_ReadFile_def read_file_def os_Create_def
  os_WriteFile_def os_Chmod_def chmod_file_def os_Mkdir_def mkdir_def dataDir_def EnvDir_def OvnEnvFile_def

end
