(* ===== verification/Netplan.thy ===== *)
theory Netplan
  imports FileSystem "HOL-Library.AList"
begin

text \<open>
  Package \<open>netplan\<close> (netplan/netplan.go): the configuration of the interfaces of the BGP service, how it
  is handed to netplan and how its devices are removed. A Go map is an association list in the order
  of one iteration; the lemmas hold for every order. The package \<open>yaml\<close> is a parameter: what is
  modelled of it are the fields and their keys.
\<close>

section \<open>The configuration\<close>

record dummy_dev =
  dummy_MacAddress :: string
  dummy_AcceptRa :: bool
  dummy_LinkLocal :: "string list"

record virtualEthernet =
  Peer :: string
  veth_MacAddress :: string
  veth_AcceptRa :: bool
  veth_LinkLocal :: "string list"

record vrf_dev =
  Table :: string
  vrf_Interfaces :: "string list"

record bridge_dev =
  FailMode :: string
  br_Interfaces :: "string list"

record netplan_config =
  Version :: nat
  VirtualEthernets :: "(string \<times> virtualEthernet) list"
  Vrfs :: "(string \<times> vrf_dev) list"
  Dummy :: "(string \<times> dummy_dev) list"
  Bridges :: "(string \<times> bridge_dev) list"
  ExternalIDs :: "(string \<times> string) list"

definition NewConfig :: netplan_config where
  "NewConfig = \<lparr>Version = 2, VirtualEthernets = [], Vrfs = [], Dummy = [], Bridges = [], ExternalIDs = []\<rparr>"

definition AddDummy :: "string \<Rightarrow> string \<Rightarrow> bool \<Rightarrow> string list \<Rightarrow> netplan_config \<Rightarrow> netplan_config" where
  "AddDummy iface mac acceptRa linkLocal c = c\<lparr>Dummy := AList.update iface
     \<lparr>dummy_MacAddress = mac, dummy_AcceptRa = acceptRa, dummy_LinkLocal = linkLocal\<rparr> (Dummy c)\<rparr>"

definition AddVeth :: "string \<Rightarrow> string \<Rightarrow> string \<Rightarrow> bool \<Rightarrow> string list \<Rightarrow> netplan_config \<Rightarrow> netplan_config" where
  "AddVeth iface peer mac acceptRa linkLocal c = c\<lparr>VirtualEthernets := AList.update iface
     \<lparr>Peer = peer, veth_MacAddress = mac, veth_AcceptRa = acceptRa, veth_LinkLocal = linkLocal\<rparr>
     (VirtualEthernets c)\<rparr>"

definition AddVRF :: "string \<Rightarrow> string \<Rightarrow> string list \<Rightarrow> netplan_config \<Rightarrow> netplan_config" where
  "AddVRF name table ifaces c = c\<lparr>Vrfs := AList.update name
     \<lparr>Table = table, vrf_Interfaces = ifaces\<rparr> (Vrfs c)\<rparr>"

definition AddBridge :: "string \<Rightarrow> string list \<Rightarrow> netplan_config \<Rightarrow> netplan_config" where
  "AddBridge name ifaces c = c\<lparr>Bridges := AList.update name
     \<lparr>FailMode = ''secure'', br_Interfaces = ifaces\<rparr> (Bridges c)\<rparr>"

section \<open>Fields and keys\<close>

text \<open>An \<open>omitempty\<close> field that is empty is left out.\<close>

definition opt_str :: "string \<Rightarrow> string \<Rightarrow> (string \<times> json) list" where
  "opt_str k s = (if s = [] then [] else [(k, JStr s)])"

definition opt_list :: "string \<Rightarrow> string list \<Rightarrow> (string \<times> json) list" where
  "opt_list k xs = (if xs = [] then [] else [(k, JList (map JStr xs))])"

definition opt_map :: "string \<Rightarrow> ('a \<Rightarrow> json) \<Rightarrow> (string \<times> 'a) list \<Rightarrow> (string \<times> json) list" where
  "opt_map k f m = (if m = [] then [] else [(k, JObj (map (\<lambda>(a, b). (a, f b)) m))])"

definition yaml_of_config :: "netplan_config \<Rightarrow> json" where
  "yaml_of_config c = JObj [(''network'', JObj (
     [(''version'', JNum (Version c))] @
     opt_map ''virtual-ethernets'' (\<lambda>v. JObj ([(''peer'', JStr (Peer v))] @
        opt_str ''macaddress'' (veth_MacAddress v) @ [(''accept-ra'', JBool (veth_AcceptRa v))] @
        opt_list ''link-local'' (veth_LinkLocal v))) (VirtualEthernets c) @
     opt_map ''vrfs'' (\<lambda>v. JObj [(''table'', JStr (Table v)),
        (''interfaces'', JList (map JStr (vrf_Interfaces v)))]) (Vrfs c) @
     opt_map ''dummy-devices'' (\<lambda>v. JObj (opt_str ''macaddress'' (dummy_MacAddress v) @
        [(''accept-ra'', JBool (dummy_AcceptRa v))] @ opt_list ''link-local'' (dummy_LinkLocal v))) (Dummy c) @
     opt_map ''bridges'' (\<lambda>b. JObj ([(''openvswitch'', JObj (opt_str ''fail-mode'' (FailMode b)))] @
        opt_list ''interfaces'' (br_Interfaces b))) (Bridges c) @
     [(''openvswitch'', JObj (opt_map ''external-ids'' JStr (ExternalIDs c)))]))]"

text \<open>Decoding the fields the program reads back: the peers of the pairs and the tables of the VRFs.
  An absent field has its zero value; a scalar decodes into a string.\<close>

definition field :: "string \<Rightarrow> json \<Rightarrow> json" where
  "field k j = (case j of JObj fs \<Rightarrow> (case map_of fs k of Some v \<Rightarrow> v | None \<Rightarrow> JNull) | _ \<Rightarrow> JNull)"

definition entries :: "json \<Rightarrow> (string \<times> json) list" where
  "entries j = (case j of JObj fs \<Rightarrow> fs | _ \<Rightarrow> [])"

definition scalar :: "json \<Rightarrow> string" where
  "scalar j = (case j of JStr s \<Rightarrow> s | JNum n \<Rightarrow> show_nat n
     | JBool b \<Rightarrow> (if b then ''true'' else ''false'') | _ \<Rightarrow> [])"

definition veth_of_yaml :: "json \<Rightarrow> virtualEthernet" where
  "veth_of_yaml j = \<lparr>Peer = scalar (field ''peer'' j), veth_MacAddress = scalar (field ''macaddress'' j),
     veth_AcceptRa = (field ''accept-ra'' j = JBool True),
     veth_LinkLocal = (case field ''link-local'' j of JList xs \<Rightarrow> map scalar xs | _ \<Rightarrow> [])\<rparr>"

definition vrf_of_yaml :: "json \<Rightarrow> vrf_dev" where
  "vrf_of_yaml j = \<lparr>Table = scalar (field ''table'' j),
     vrf_Interfaces = (case field ''interfaces'' j of JList xs \<Rightarrow> map scalar xs | _ \<Rightarrow> [])\<rparr>"

definition config_of_yaml :: "json \<Rightarrow> netplan_config" where
  "config_of_yaml j = (let n = field ''network'' j in
     NewConfig\<lparr>VirtualEthernets := map (\<lambda>(k, v). (k, veth_of_yaml v)) (entries (field ''virtual-ethernets'' n)),
       Vrfs := map (\<lambda>(k, v). (k, vrf_of_yaml v)) (entries (field ''vrfs'' n))\<rparr>)"

section \<open>Removing devices\<close>

text \<open>Deleting one end of a pair removes the other; \<open>deleted\<close> holds the peers of the deleted ends.\<close>

fun cleanup_veths :: "env \<Rightarrow> string list \<Rightarrow> (string \<times> virtualEthernet) list \<Rightarrow> unit io" where
  "cleanup_veths E deleted [] = ret ()"
| "cleanup_veths E deleted ((iface, d) # rest) =
     (if iface \<in> set deleted then cleanup_veths E deleted rest
      else bind (attempt (run_cmd E [''ip'', ''link'', ''delete'', ''dev'', iface])) (\<lambda>r. case r of
         Inl e \<Rightarrow> if \<not> contains (err_text e) ''Cannot find device''
                  then fail (errf (''failed remove interface '' @ squoted iface @ '': '') e)
                  else cleanup_veths E deleted rest
       | Inr _ \<Rightarrow> cleanup_veths E (Peer d # deleted) rest))"

definition CleanupVirtualEthernets :: "env \<Rightarrow> netplan_config \<Rightarrow> unit io" where
  "CleanupVirtualEthernets E c = cleanup_veths E [] (VirtualEthernets c)"

definition CleanupVRFs :: "env \<Rightarrow> netplan_config \<Rightarrow> bool \<Rightarrow> unit io" where
  "CleanupVRFs E c del = for_each (\<lambda>(vrf, d).
     bind (on_err (errf (''failed to flush vrf '' @ squoted vrf @ '': ''))
             (run_cmd E [''ip'', ''route'', ''flush'', ''table'', Table d])) (\<lambda>_.
     if del then bind (on_err (errf (''failed to delete vrf '' @ squoted vrf @ '': ''))
                   (run_cmd E [''ip'', ''link '', ''delete'', ''dev'', vrf])) (\<lambda>_. ret ())
     else ret ())) (Vrfs c)"

section \<open>Talking to netplan\<close>

definition WriteToNetplan :: "env \<Rightarrow> string \<Rightarrow> netplan_config \<Rightarrow> unit io" where
  "WriteToNetplan E filename c =
     bind (of_sum (e_yaml_marshal E (yaml_of_config c))) (\<lambda>data.
     andthen (on_err (errf ''failed to write file: '')
                (outside_WriteFile E (''/tmp/'' @ filename) data 384))
     (bind (run_cmd E [''mv'', ''/tmp/'' @ filename, ''/etc/netplan'']) (\<lambda>_. ret ())))"

definition Apply :: "env \<Rightarrow> unit io" where
  "Apply E = bind (attempt (run_cmd E [''dbus-send'', ''--system'', ''--type=method_call'', ''--print-reply'',
       ''--dest=io.netplan.Netplan'', ''/io/netplan/Netplan'', ''io.netplan.Netplan.Apply'']))
     (\<lambda>r. case r of
        Inl e \<Rightarrow> if contains (err_text e)
                      (''The 'ovs-vsctl' tool is required to setup OpenVSwitch interfaces.'')
                  then fail (ErrS ''failed to apply netplan config: installed netplan does not support using ovs-vsctl from microovn'')
                  else fail e
      | Inr _ \<Rightarrow> ret ())"

definition LoadConfig :: "env \<Rightarrow> string \<Rightarrow> netplan_config io" where
  "LoadConfig E filename =
     bind (on_err (wrapf (''failed to open file '' @ quoted filename @ '': '')) (outside_ReadFile E filename))
     (\<lambda>text. bind (on_err (wrapf ''failed to decode YAML: '') (of_sum (e_yaml_unmarshal E text)))
     (\<lambda>j. ret (config_of_yaml j)))"

definition Cleanup :: "env \<Rightarrow> string \<Rightarrow> unit io" where
  "Cleanup E filename =
     (let path = ''/etc/netplan/'' @ filename; tmp = ''/tmp/'' @ filename in
      bind (attempt (outside_NotExist E path)) (\<lambda>r.
      if r = Inr True then ret ()
      else
        bind (on_err (errf ''failed to move netplan config: '') (run_cmd E [''mv'', path, tmp])) (\<lambda>_.
        bind (on_err (errf ''cannot read netplan config: '') (LoadConfig E tmp)) (\<lambda>c.
        andthen (on_err (errf ''virtual ethernets cleanup failed: '') (CleanupVirtualEthernets E c))
        (andthen (on_err (errf ''VRF cleanup failed: '') (CleanupVRFs E c False))
        (bind (on_err (errf ''failed to delete netplan config: '') (run_cmd E [''rm'', tmp])) (\<lambda>_.
         Apply E)))))))"

section \<open>Frame lemmas\<close>

lemma np_cleanup_veths [np_rules]: "no_panic (cleanup_veths E deleted vs)"
  by (induction E deleted vs rule: cleanup_veths.induct) (auto intro!: np_rules)

lemma np_netplan [np_rules]:
  "no_panic (WriteToNetplan E f c)" "no_panic (Apply E)" "no_panic (Cleanup E f)"
  unfolding WriteToNetplan_def Apply_def Cleanup_def LoadConfig_def CleanupVirtualEthernets_def
    CleanupVRFs_def Let_def
  by (intro np_rules)+

context trace_blind
begin

lemma keeps_cleanup_veths [keeps_rules]: "keeps P (cleanup_veths E deleted vs)"
  by (induction E deleted vs rule: cleanup_veths.induct) (auto intro!: keeps_rules keeps_run_cmd)

lemma keeps_netplan [keeps_rules]:
  "keeps P (WriteToNetplan E f c)" "keeps P (Apply E)" "keeps P (Cleanup E f)"
  unfolding WriteToNetplan_def Apply_def Cleanup_def LoadConfig_def CleanupVirtualEthernets_def
    CleanupVRFs_def Let_def
  by (intro keeps_rules keeps_run_cmd keeps_outside keeps_cleanup_veths)+

end

section \<open>Which ends of the pairs are deleted\<close>

fun deleted_ends :: "string list \<Rightarrow> (string \<times> virtualEthernet) list \<Rightarrow> string list" where
  "deleted_ends deleted [] = []"
| "deleted_ends deleted ((i, d) # rest) =
     (if i \<in> set deleted then deleted_ends deleted rest else i # deleted_ends (Peer d # deleted) rest)"

abbreviation delete_cmd :: "string \<Rightarrow> string list" where
  "delete_cmd i \<equiv> [''ip'', ''link'', ''delete'', ''dev'', i]"

lemma cleanup_veths_run:
  assumes "\<And>t i. \<exists>out. e_cmd E t (delete_cmd i) = Inr out"
  shows "cleanup_veths E deleted vs w = (Ok (), w\<lparr>w_trace :=
           rev (map (\<lambda>i. Cmd (delete_cmd i)) (deleted_ends deleted vs)) @ w_trace w\<rparr>)"
proof (induction deleted vs arbitrary: w rule: deleted_ends.induct)
  case (2 deleted i d rest)
  obtain out where "e_cmd E (w_trace w) (delete_cmd i) = Inr out" using assms by blast
  with 2 show ?case by (simp add: bind_def attempt_def run_cmd_def)
qed simp

lemma deleted_ends_set: "set (deleted_ends deleted vs) \<subseteq> fst ` set vs - set deleted"
  by (induction deleted vs rule: deleted_ends.induct) auto

lemma deleted_ends_cover:
  "i \<in> fst ` set vs \<Longrightarrow> \<forall>(j, d) \<in> set vs. Peer d = p j \<Longrightarrow> \<forall>j \<in> fst ` set vs. p (p j) = j \<Longrightarrow>
   i \<in> set (deleted_ends deleted vs) \<or> i \<in> set deleted \<or> p i \<in> set (deleted_ends deleted vs)"
proof (induction deleted vs rule: deleted_ends.induct)
  case (2 deleted j d rest)
  show ?case
  proof (cases "j \<in> set deleted \<or> i = j")
    case True
    with 2 show ?thesis by auto
  next
    case False
    with 2 have "i \<in> set (deleted_ends (Peer d # deleted) rest) \<or> i \<in> set (Peer d # deleted) \<or>
        p i \<in> set (deleted_ends (Peer d # deleted) rest)" by auto
    with False 2 show ?thesis by auto
  qed
qed simp

lemma deleted_ends_once:
  assumes "\<forall>(j, d) \<in> set vs. Peer d = p j" and "\<forall>j \<in> fst ` set vs. p (p j) = j \<and> p j \<noteq> j"
    and "i \<in> set (deleted_ends deleted vs)"
  shows "p i \<notin> set (deleted_ends deleted vs)"
  using assms
proof (induction deleted vs rule: deleted_ends.induct)
  case (2 deleted j d rest)
  show ?case
  proof (cases "j \<in> set deleted")
    case True
    with 2 show ?thesis by auto
  next
    case False
    let ?rest = "deleted_ends (Peer d # deleted) rest"
    have pj: "Peer d = p j" "p (p j) = j" "p j \<noteq> j" using "2.prems" by auto
    have not_peer: "p j \<notin> set ?rest" using deleted_ends_set [of "Peer d # deleted" rest] pj by auto
    show ?thesis
    proof (cases "i = j")
      case True
      with False not_peer pj show ?thesis by simp
    next
      case i: False
      with 2 False have ir: "i \<in> set ?rest" and "p i \<notin> set ?rest" by auto
      moreover have "p i \<noteq> j"
      proof
        assume "p i = j"
        moreover have "i \<in> fst ` set rest" using ir deleted_ends_set by blast
        ultimately have "i = p j" using "2.prems"(2) by auto
        with ir not_peer show False by simp
      qed
      ultimately show ?thesis using False by simp
    qed
  qed
qed simp

section \<open>Properties\<close>

text \<open>In a configuration of pairs, if the deletions succeed then of every pair exactly one end is
  deleted, in whatever order the map is iterated.\<close>

theorem CleanupVirtualEthernets_one_end:
  assumes cmds: "\<And>t i. \<exists>out. e_cmd E t (delete_cmd i) = Inr out"
    and pairs: "\<forall>(i, d) \<in> set (VirtualEthernets c). Peer d \<noteq> i \<and>
      (\<exists>d'. map_of (VirtualEthernets c) (Peer d) = Some d' \<and> Peer d' = i)"
    and keys: "distinct (map fst (VirtualEthernets c))"
  shows "\<exists>D. CleanupVirtualEthernets E c w =
            (Ok (), w\<lparr>w_trace := rev (map (\<lambda>i. Cmd (delete_cmd i)) D) @ w_trace w\<rparr>) \<and>
          (\<forall>(i, d) \<in> set (VirtualEthernets c). (i \<in> set D) \<noteq> (Peer d \<in> set D))"
proof -
  let ?vs = "VirtualEthernets c"
  let ?p = "\<lambda>i. case map_of ?vs i of Some d \<Rightarrow> Peer d | None \<Rightarrow> i"
  let ?D = "deleted_ends [] ?vs"
  have m: "map_of ?vs i = Some d" if "(i, d) \<in> set ?vs" for i d
    using keys that by simp
  have p1: "\<forall>(i, d) \<in> set ?vs. Peer d = ?p i"
    using m by fastforce
  have p2: "\<forall>i \<in> fst ` set ?vs. ?p (?p i) = i \<and> ?p i \<noteq> i"
    using m pairs by fastforce
  have "\<forall>(i, d) \<in> set ?vs. (i \<in> set ?D) \<noteq> (Peer d \<in> set ?D)"
  proof (clarify)
    fix i d assume id: "(i, d) \<in> set ?vs" and eq: "(i \<in> set ?D) = (Peer d \<in> set ?D)"
    have key: "i \<in> fst ` set ?vs" using id by force
    have peer: "Peer d = ?p i" using p1 id by auto
    have "i \<in> set ?D \<or> ?p i \<in> set ?D"
      using deleted_ends_cover [OF key p1, of "[]"] p2 by auto
    moreover have "i \<in> set ?D \<Longrightarrow> ?p i \<notin> set ?D"
      using deleted_ends_once [OF p1 p2, of i "[]"] by simp
    ultimately show False using eq unfolding peer by blast
  qed
  then show ?thesis
    unfolding CleanupVirtualEthernets_def using cleanup_veths_run [OF cmds, of "[]" ?vs] by blast
qed

lemma CleanupVirtualEthernets_one_end_witness:
  "let c = AddVeth ''b'' ''a'' [] False [] (AddVeth ''a'' ''b'' [] False [] NewConfig)
   in \<exists>D. (''a'' \<in> set D) \<noteq> (''b'' \<in> set D) \<and> (\<exists>w'. CleanupVirtualEthernets sample_env c sample_world = (Ok (), w'))"
proof -
  let ?c = "AddVeth ''b'' ''a'' [] False [] (AddVeth ''a'' ''b'' [] False [] NewConfig)"
  have vs: "VirtualEthernets ?c =
      [(''a'', \<lparr>Peer = ''b'', veth_MacAddress = [], veth_AcceptRa = False, veth_LinkLocal = []\<rparr>),
       (''b'', \<lparr>Peer = ''a'', veth_MacAddress = [], veth_AcceptRa = False, veth_LinkLocal = []\<rparr>)]"
    by (simp add: AddVeth_def NewConfig_def)
  have "\<exists>D. CleanupVirtualEthernets sample_env ?c sample_world =
            (Ok (), sample_world\<lparr>w_trace := rev (map (\<lambda>i. Cmd (delete_cmd i)) D) @ w_trace sample_world\<rparr>) \<and>
          (\<forall>(i, d) \<in> set (VirtualEthernets ?c). (i \<in> set D) \<noteq> (Peer d \<in> set D))"
    by (rule CleanupVirtualEthernets_one_end) (simp_all add: vs sample_env_def)
  then show ?thesis unfolding Let_def vs by auto
qed

end
