(* ===== verification/ServiceTypes.thy ===== *)
theory ServiceTypes
  imports GoBase
begin

text \<open>
  Package \<open>types\<close> (api/types/services.go, api/types/setup_bgp.go): the names of the services, the
  options of the BGP service with their parser and validator, and the request of the cluster-wide BGP
  set-up.
\<close>

section \<open>Services and responses\<close>

definition SrvChassis :: string where "SrvChassis = ''chassis''"
definition SrvCentral :: string where "SrvCentral = ''central''"
definition SrvSwitch :: string where "SrvSwitch = ''switch''"
definition SrvBgp :: string where "SrvBgp = ''bgp''"

lemmas srv_defs = SrvChassis_def SrvCentral_def SrvSwitch_def SrvBgp_def

definition ServiceNames :: "string list" where
  "ServiceNames = [SrvBgp, SrvChassis, SrvCentral, SrvSwitch]"

record Service =
  Service_service :: string
  Service_location :: string

record WarningSet =
  EvenCentral :: bool
  FewCentral :: bool

record ServiceControlResponse =
  Message :: string
  Warnings :: WarningSet

record RegenerateEnvResponse =
  Env_Success :: bool
  Env_Errors :: "string list"

definition NewRegenerateEnvResponse :: RegenerateEnvResponse where
  "NewRegenerateEnvResponse = \<lparr>Env_Success = False, Env_Errors = []\<rparr>"

fun CheckValidService_loop :: "string list \<Rightarrow> string \<Rightarrow> bool" where
  "CheckValidService_loop [] srv = False"
| "CheckValidService_loop (s # ss) srv = (if s = srv then True else CheckValidService_loop ss srv)"

definition CheckValidService :: "string \<Rightarrow> bool" where
  "CheckValidService srv = CheckValidService_loop ServiceNames srv"

section \<open>Options of the BGP service\<close>

record ExtraBgpConfig =
  ExternalConnection :: string
  Bridge :: string
  Vrf :: string
  Asn :: string
  AsnRange :: "64 word \<times> 64 word"
  ManualBgpdConfig :: bool

definition empty_bgp :: ExtraBgpConfig where
  "empty_bgp = \<lparr>ExternalConnection = [], Bridge = [], Vrf = [], Asn = [], AsnRange = (0, 0),
     ManualBgpdConfig = False\<rparr>"

definition ParseAsnRange :: "string \<Rightarrow> goerr + 64 word \<times> 64 word" where
  "ParseAsnRange s = (case split_on CHR ''-'' s of
       [a, b] \<Rightarrow>
         (case parse_uint 32 a of
            None \<Rightarrow> Inl (ErrS (''option 'asn_range' min value is not valid: '' @ a))
          | Some mn \<Rightarrow>
              (case parse_uint 32 b of
                 None \<Rightarrow> Inl (ErrS (''option 'asn_range' max value is not valid: '' @ b))
               | Some mx \<Rightarrow> Inr (of_nat mn, of_nat mx)))
     | _ \<Rightarrow> Inl (ErrS (''option 'asn_range' must be in format 'min-max': '' @ s)))"

definition show_range :: "64 word \<times> 64 word \<Rightarrow> string" where
  "show_range r = show_nat (unat (fst r)) @ ''-'' @ show_nat (unat (snd r))"

text \<open>A validator returns the error it finds.\<close>

definition validateAsnRange :: "64 word \<times> 64 word \<Rightarrow> goerr option" where
  "validateAsnRange r =
     (if snd r \<le> fst r then Some (ErrS (''option 'asn_range' min must be less than max: '' @ show_range r))
      else if fst r < 4200000000 \<or> 4294967294 < snd r
      then Some (ErrS (''option 'asn_range' must be within RFC 6996 range (4200000000-4294967294): '' @
                       show_range r))
      else None)"

text \<open>Both list options: split at the commas, trim, drop the empty ones. The structs
  \<open>BgpExternalConnection\<close> and \<open>BgpBridge\<close> hold one name each.\<close>

definition ParseExternalConnection :: "ExtraBgpConfig \<Rightarrow> string list" where
  "ParseExternalConnection c =
     filter (\<lambda>x. x \<noteq> []) (map trim_space (split_on CHR '','' (ExternalConnection c)))"

definition ParseBridge :: "ExtraBgpConfig \<Rightarrow> string list" where
  "ParseBridge c = filter (\<lambda>x. x \<noteq> []) (map trim_space (split_on CHR '','' (Bridge c)))"

definition Validate :: "ExtraBgpConfig \<Rightarrow> goerr option" where
  "Validate c =
     (if Vrf c \<noteq> [] \<and> atoi (Vrf c) = None
      then Some (ErrS (''option 'vrf' is not a number: '' @ Vrf c))
      else if Asn c \<noteq> [] \<and> parse_uint 32 (Asn c) = None
      then Some (ErrS (''option 'asn' is not a valid number: '' @ Asn c))
      else case (if fst (AsnRange c) \<noteq> 0 \<or> snd (AsnRange c) \<noteq> 0 then validateAsnRange (AsnRange c) else None) of
        Some e \<Rightarrow> Some e
      | None \<Rightarrow>
          if length (ParseExternalConnection c) + length (ParseBridge c) = 0
          then Some (ErrS ''external connections or bridges have to be set'') else None)"

text \<open>The loop of \<open>FromMap\<close>; the entries of the map come in an arbitrary order.\<close>

fun FromMap_loop :: "(string \<times> string) list \<Rightarrow> ExtraBgpConfig \<Rightarrow> goerr + ExtraBgpConfig" where
  "FromMap_loop [] c = Inr c"
| "FromMap_loop ((key, val) # rest) c =
     (if key = ''ext_connection'' then FromMap_loop rest (c\<lparr>ExternalConnection := val\<rparr>)
      else if key = ''br'' then FromMap_loop rest (c\<lparr>Bridge := val\<rparr>)
      else if key = ''vrf'' then FromMap_loop rest (c\<lparr>Vrf := val\<rparr>)
      else if key = ''asn'' then FromMap_loop rest (c\<lparr>Asn := val\<rparr>)
      else if key = ''asn_range'' then
        (case ParseAsnRange val of
           Inl e \<Rightarrow> Inl e
         | Inr r \<Rightarrow> FromMap_loop rest (c\<lparr>AsnRange := r\<rparr>))
      else Inl (ErrS (''unknown BGP config option: '' @ key)))"

definition FromMap :: "ExtraBgpConfig \<Rightarrow> (string \<times> string) list \<Rightarrow> goerr + ExtraBgpConfig" where
  "FromMap c raw = (case FromMap_loop raw c of
       Inl e \<Rightarrow> Inl e
     | Inr c' \<Rightarrow> (case Validate c' of None \<Rightarrow> Inr c' | Some e \<Rightarrow> Inl e))"

section \<open>The cluster-wide set-up request\<close>

text \<open>\<open>SetupBgpRequest\<close> embeds \<open>ExtraBgpConfig\<close>; its own \<open>Validate\<close> hides the embedded one.\<close>

record SetupBgpRequest = ExtraBgpConfig +
  ConnectionIP4Range :: string

definition SetupBgpRequest_Validate :: "'a SetupBgpRequest_scheme \<Rightarrow> goerr option" where
  "SetupBgpRequest_Validate r =
     (if ExternalConnection r = [] \<and> Bridge r = []
      then Some (ErrS ''either --interface or --br must be provided'')
      else if ExternalConnection r \<noteq> [] \<and> Bridge r \<noteq> []
      then Some (ErrS ''--interface and --br are mutually exclusive'') else None)"

record SetupBgpResponse =
  Setup_Success :: bool
  Setup_Message :: string
  Setup_Errors :: "string list"

definition BgpConfigKeyPrefix :: string where "BgpConfigKeyPrefix = ''microovn-bgp''"
definition BgpConfigKeyCluster :: string where "BgpConfigKeyCluster = ''microovn-bgp-cluster''"
definition BgpConfigKeyInterface :: string where "BgpConfigKeyInterface = ''microovn-bgp-arg-interface''"
definition BgpConfigKeyBridge :: string where "BgpConfigKeyBridge = ''microovn-bgp-arg-br''"
definition BgpConfigKeyAsn :: string where "BgpConfigKeyAsn = ''microovn-bgp-arg-asn''"
definition BgpConfigKeyAsnRange :: string where "BgpConfigKeyAsnRange = ''microovn-bgp-arg-asn_range''"
definition BgpConfigKeyConnectionIP4Range :: string where
  "BgpConfigKeyConnectionIP4Range = ''microovn-bgp-arg-connection-ip4-range''"

lemmas bgp_key_defs = BgpConfigKeyPrefix_def BgpConfigKeyCluster_def BgpConfigKeyInterface_def
  BgpConfigKeyBridge_def BgpConfigKeyAsn_def BgpConfigKeyAsnRange_def BgpConfigKeyConnectionIP4Range_def

section \<open>Lemmas\<close>

lemma CheckValidService_iff: "CheckValidService s \<longleftrightarrow> s \<in> {''bgp'', ''chassis'', ''central'', ''switch''}"
  by (auto simp: CheckValidService_def ServiceNames_def srv_defs)

lemma of_nat64_inj: "n < 2 ^ 32 \<Longrightarrow> unat (of_nat n :: 64 word) = n"
  by (simp add: unat_of_nat)

lemma ParseAsnRange_show:
  assumes "unat (fst r) < 2 ^ 32" and "unat (snd r) < 2 ^ 32"
  shows "ParseAsnRange (show_range r) = Inr r"
proof -
  have "split_on CHR ''-'' (show_range r) = [show_nat (unat (fst r)), show_nat (unat (snd r))]"
    by (simp add: show_range_def split_on_append_sep split_on_no_sep)
  then show ?thesis using assms by (simp add: ParseAsnRange_def)
qed

lemma ParseAsnRange_bound:
  "ParseAsnRange s = Inr r \<Longrightarrow> unat (fst r) < 2 ^ 32 \<and> unat (snd r) < 2 ^ 32"
  by (auto simp: ParseAsnRange_def of_nat64_inj dest!: parse_uint_bound
      split: list.splits option.splits)

lemma validateAsnRange_None:
  "validateAsnRange (a, b) = None \<longleftrightarrow> 4200000000 \<le> a \<and> a < b \<and> b \<le> 4294967294"
  by (auto simp: validateAsnRange_def)

lemma parsed_names:
  "x \<in> set (ParseExternalConnection c) \<or> x \<in> set (ParseBridge c) \<Longrightarrow>
   x \<noteq> [] \<and> CHR '','' \<notin> set x \<and> trim_space x = x"
  using set_trim_by split_on_pieces
  by (fastforce simp: ParseExternalConnection_def ParseBridge_def trim_by_idem)

text \<open>What \<open>Validate\<close> guarantees.\<close>

definition bgp_ok :: "'a ExtraBgpConfig_scheme \<Rightarrow> bool" where
  "bgp_ok c \<longleftrightarrow> (Vrf c = [] \<or> atoi (Vrf c) \<noteq> None) \<and> (Asn c = [] \<or> parse_uint 32 (Asn c) \<noteq> None) \<and>
     (AsnRange c = (0, 0) \<or>
      4200000000 \<le> fst (AsnRange c) \<and> fst (AsnRange c) < snd (AsnRange c) \<and> snd (AsnRange c) \<le> 4294967294)"

lemma Validate_None: "Validate c = None \<longleftrightarrow>
    bgp_ok c \<and> (ParseExternalConnection c \<noteq> [] \<or> ParseBridge c \<noteq> [])"
  by (cases "AsnRange c"; cases "validateAsnRange (AsnRange c)")
     (auto simp: Validate_def bgp_ok_def validateAsnRange_None [symmetric] simp del: not_None_eq)

text \<open>\<open>FromMap\<close> as a function of the map it iterates over.\<close>

definition known_entry :: "string \<times> string \<Rightarrow> bool" where
  "known_entry kv \<longleftrightarrow> fst kv \<in> {''ext_connection'', ''br'', ''vrf'', ''asn''} \<or>
     fst kv = ''asn_range'' \<and> (\<exists>r. ParseAsnRange (snd kv) = Inr r)"

definition pick :: "(string \<rightharpoonup> string) \<Rightarrow> string \<Rightarrow> string \<Rightarrow> string" where
  "pick m k old = (case m k of None \<Rightarrow> old | Some v \<Rightarrow> v)"

definition pick_range :: "(string \<rightharpoonup> string) \<Rightarrow> 64 word \<times> 64 word \<Rightarrow> 64 word \<times> 64 word" where
  "pick_range m old = (case m ''asn_range'' of None \<Rightarrow> old
     | Some v \<Rightarrow> (case ParseAsnRange v of Inl _ \<Rightarrow> old | Inr r \<Rightarrow> r))"

definition config_of_map :: "(string \<rightharpoonup> string) \<Rightarrow> ExtraBgpConfig \<Rightarrow> ExtraBgpConfig" where
  "config_of_map m c = c\<lparr>ExternalConnection := pick m ''ext_connection'' (ExternalConnection c),
     Bridge := pick m ''br'' (Bridge c), Vrf := pick m ''vrf'' (Vrf c), Asn := pick m ''asn'' (Asn c),
     AsnRange := pick_range m (AsnRange c)\<rparr>"

text \<open>The assignment one entry makes.\<close>

definition set_entry :: "string \<Rightarrow> string \<Rightarrow> ExtraBgpConfig \<Rightarrow> ExtraBgpConfig" where
  "set_entry k v c =
     (if k = ''ext_connection'' then c\<lparr>ExternalConnection := v\<rparr>
      else if k = ''br'' then c\<lparr>Bridge := v\<rparr>
      else if k = ''vrf'' then c\<lparr>Vrf := v\<rparr>
      else if k = ''asn'' then c\<lparr>Asn := v\<rparr>
      else (case ParseAsnRange v of Inl _ \<Rightarrow> c | Inr r \<Rightarrow> c\<lparr>AsnRange := r\<rparr>))"

lemmas map_config_defs = config_of_map_def pick_def pick_range_def

lemma known_entryE:
  assumes "known_entry (k, v)"
  obtains "k = ''ext_connection''" | "k = ''br''" | "k = ''vrf''" | "k = ''asn''"
    | r where "k = ''asn_range''" "ParseAsnRange v = Inr r"
  using assms unfolding known_entry_def by auto

lemma FromMap_loop_known:
  assumes "known_entry (k, v)"
  shows "FromMap_loop ((k, v) # raw) c = FromMap_loop raw (set_entry k v c)"
  using assms by (cases rule: known_entryE) (simp_all add: set_entry_def)

lemma FromMap_loop_unknown:
  assumes "\<not> known_entry (k, v)"
  shows "\<exists>e. FromMap_loop ((k, v) # raw) c = Inl e"
proof (cases "k = ''asn_range''")
  case True
  with assms show ?thesis by (cases "ParseAsnRange v") (simp_all add: known_entry_def)
next
  case False
  with assms show ?thesis by (simp add: known_entry_def)
qed

lemma config_of_map_step:
  assumes "map_of raw k = None" and "known_entry (k, v)"
  shows "config_of_map (map_of raw) (set_entry k v c) = config_of_map (map_of ((k, v) # raw)) c"
  using assms(2,1) by (cases rule: known_entryE) (simp_all add: set_entry_def map_config_defs)

lemma FromMap_loop_Inr:
  assumes "distinct (map fst raw)"
  shows "FromMap_loop raw c = Inr c' \<longleftrightarrow> (\<forall>kv \<in> set raw. known_entry kv) \<and> c' = config_of_map (map_of raw) c"
  using assms
proof (induction raw arbitrary: c)
  case (Cons kv raw)
  obtain k v where kv: "kv = (k, v)" by fastforce
  have none: "map_of raw k = None"
    using Cons.prems by (simp add: kv map_of_eq_None_iff image_iff)
  show ?case
  proof (cases "known_entry (k, v)")
    case True
    have "distinct (map fst raw)" using Cons.prems by simp
    note IH = Cons.IH [OF this, of "set_entry k v c"]
    have known: "(\<forall>x \<in> set (kv # raw). known_entry x) \<longleftrightarrow> (\<forall>x \<in> set raw. known_entry x)"
      using True kv by simp
    have loop: "FromMap_loop (kv # raw) c = FromMap_loop raw (set_entry k v c)"
      unfolding kv by (rule FromMap_loop_known [OF True])
    have conf: "config_of_map (map_of (kv # raw)) c = config_of_map (map_of raw) (set_entry k v c)"
      unfolding kv by (rule config_of_map_step [OF none True, symmetric])
    show ?thesis unfolding known loop conf by (rule IH)
  next
    case False
    with FromMap_loop_unknown [OF False, of raw c] show ?thesis
      unfolding kv by (auto simp del: FromMap_loop.simps)
  qed
qed (auto simp add: map_config_defs)

lemma FromMap_Inr:
  assumes "distinct (map fst raw)"
  shows "FromMap c raw = Inr c' \<longleftrightarrow> (\<forall>kv \<in> set raw. known_entry kv) \<and>
           c' = config_of_map (map_of raw) c \<and> Validate c' = None"
proof (cases "FromMap_loop raw c")
  case (Inl e)
  then show ?thesis
    using FromMap_loop_Inr [OF assms, of c "config_of_map (map_of raw) c"] by (auto simp: FromMap_def)
next
  case (Inr d)
  then show ?thesis
    using FromMap_loop_Inr [OF assms, of c d] by (auto simp: FromMap_def split: option.splits)
qed

section \<open>Properties\<close>

text \<open>Whether \<open>FromMap\<close> accepts the options and what it then returns does not depend on the order in
  which Go iterates over the map; what it accepts is a valid configuration.\<close>

theorem FromMap_order_independent:
  assumes "distinct (map fst raw)" and "distinct (map fst raw')" and "set raw = set raw'"
    and "FromMap c raw = Inr c'"
  shows "FromMap c raw' = Inr c' \<and> bgp_ok c' \<and> (ParseExternalConnection c' \<noteq> [] \<or> ParseBridge c' \<noteq> [])"
proof -
  have "map_of raw = map_of raw'"
    using assms(1-3) by (simp add: map_of_inject_set)
  with assms(4) show ?thesis
    using assms(3) unfolding FromMap_Inr [OF assms(1)] FromMap_Inr [OF assms(2)] Validate_None by metis
qed

lemma FromMap_order_independent_witness:
  "FromMap empty_bgp [(''vrf'', ''10''), (''br'', ''b0'')] =
     Inr (empty_bgp\<lparr>Vrf := ''10'', Bridge := ''b0''\<rparr>)"
proof -
  have v: "FromMap empty_bgp [(''br'', ''b0''), (''vrf'', ''10'')] =
      Inr (empty_bgp\<lparr>Bridge := ''b0'', Vrf := ''10''\<rparr>)"
    by (simp add: FromMap_def Validate_def empty_bgp_def ParseExternalConnection_def ParseBridge_def
        atoi_def trim_by_def is_space_def is_digit_def digit_val_def)
  have "FromMap empty_bgp [(''vrf'', ''10''), (''br'', ''b0'')] =
      Inr (empty_bgp\<lparr>Bridge := ''b0'', Vrf := ''10''\<rparr>)"
    using FromMap_order_independent [OF _ _ _ v, of "[(''vrf'', ''10''), (''br'', ''b0'')]"] by auto
  then show ?thesis by simp
qed

text \<open>\<open>ParseAsnRange\<close> reads back every range of 32-bit numbers printed as min-max, and only returns
  such ranges.\<close>

theorem ParseAsnRange_roundtrip:
  "(unat (fst r) < 2 ^ 32 \<and> unat (snd r) < 2 ^ 32 \<longrightarrow> ParseAsnRange (show_range r) = Inr r) \<and>
   (ParseAsnRange s = Inr q \<longrightarrow> unat (fst q) < 2 ^ 32 \<and> unat (snd q) < 2 ^ 32 \<and>
      ParseAsnRange (show_range q) = Inr q)"
  using ParseAsnRange_show ParseAsnRange_bound by blast

lemma ParseAsnRange_roundtrip_witness:
  "ParseAsnRange (show_range (4200000000, 4200000100)) = Inr (4200000000, 4200000100)"
  using ParseAsnRange_roundtrip [of "(4200000000, 4200000100)" "[]" "(0, 0)"] by simp

end
