(* ===== verification/ApiTypes.thy ===== *)
theory ApiTypes
  imports Netplan ServiceTypes
begin

text \<open>
  The bodies of requests and responses (package \<open>api/types\<close>) and how \<open>encoding/json\<close> writes and reads
  them by the struct tags: an absent or null field keeps the value the target had, a field of another
  type is an error, of repeated keys the last one counts, and an empty \<open>omitempty\<close> field is left out.
  The text of a message is a tree of type \<open>json\<close>.
\<close>

section \<open>Decoding by struct tags\<close>

definition bad_json :: "goerr + 'a" where
  "bad_json = Inl (ErrS ''json: cannot unmarshal value into Go value'')"

text \<open>\<open>dec_field name dec d j\<close>: the field \<open>name\<close> of the object \<open>j\<close>, for a target whose field holds \<open>d\<close>.\<close>

definition dec_field :: "string \<Rightarrow> (json \<Rightarrow> goerr + 'a) \<Rightarrow> 'a \<Rightarrow> json \<Rightarrow> goerr + 'a" where
  "dec_field name dec d j = (case j of
       JObj fs \<Rightarrow> (case map_of (rev fs) name of
           None \<Rightarrow> Inr d
         | Some v \<Rightarrow> if v = JNull then Inr d else dec v)
     | JNull \<Rightarrow> Inr d
     | _ \<Rightarrow> bad_json)"

definition dec_str :: "json \<Rightarrow> goerr + string" where
  "dec_str j = (case j of JStr s \<Rightarrow> Inr s | _ \<Rightarrow> bad_json)"

definition dec_bool :: "json \<Rightarrow> goerr + bool" where
  "dec_bool j = (case j of JBool b \<Rightarrow> Inr b | _ \<Rightarrow> bad_json)"

definition dec_u64 :: "json \<Rightarrow> goerr + 64 word" where
  "dec_u64 j = (case j of JNum n \<Rightarrow> if n < 2 ^ 64 then Inr (of_nat n) else bad_json | _ \<Rightarrow> bad_json)"

fun dec_all :: "(json \<Rightarrow> goerr + 'a) \<Rightarrow> json list \<Rightarrow> goerr + 'a list" where
  "dec_all dec [] = Inr []"
| "dec_all dec (j # js) = (case dec j of Inl e \<Rightarrow> Inl e
     | Inr x \<Rightarrow> (case dec_all dec js of Inl e \<Rightarrow> Inl e | Inr xs \<Rightarrow> Inr (x # xs)))"

definition dec_list :: "(json \<Rightarrow> goerr + 'a) \<Rightarrow> json \<Rightarrow> goerr + 'a list" where
  "dec_list dec j = (case j of JList js \<Rightarrow> dec_all dec js | JNull \<Rightarrow> Inr [] | _ \<Rightarrow> bad_json)"

definition dec_map :: "(json \<Rightarrow> goerr + 'a) \<Rightarrow> json \<Rightarrow> goerr + (string \<times> 'a) list" where
  "dec_map dec j = (case j of
       JObj fs \<Rightarrow> (case dec_all dec (map snd fs) of Inl e \<Rightarrow> Inl e | Inr xs \<Rightarrow> Inr (zip (map fst fs) xs))
     | JNull \<Rightarrow> Inr [] | _ \<Rightarrow> bad_json)"

text \<open>A fixed array of two: missing elements are zero, further ones are ignored.\<close>

definition dec_pair :: "(json \<Rightarrow> goerr + 64 word) \<Rightarrow> json \<Rightarrow> goerr + 64 word \<times> 64 word" where
  "dec_pair dec j = (case j of
       JList (a # b # _) \<Rightarrow> (case dec a of Inl e \<Rightarrow> Inl e
         | Inr x \<Rightarrow> (case dec b of Inl e \<Rightarrow> Inl e | Inr y \<Rightarrow> Inr (x, y)))
     | JList [a] \<Rightarrow> (case dec a of Inl e \<Rightarrow> Inl e | Inr x \<Rightarrow> Inr (x, 0))
     | JList [] \<Rightarrow> Inr (0, 0)
     | _ \<Rightarrow> bad_json)"

text \<open>Reading the fields of a struct one after the other.\<close>

definition andfield :: "goerr + ('a \<Rightarrow> 'b) \<Rightarrow> goerr + 'a \<Rightarrow> goerr + 'b" where
  "andfield f x = (case f of Inl e \<Rightarrow> Inl e | Inr g \<Rightarrow> (case x of Inl e \<Rightarrow> Inl e | Inr v \<Rightarrow> Inr (g v)))"

lemma andfield_simps [simp]: "andfield (Inr g) (Inr v) = Inr (g v)" "andfield (Inl e) x = Inl e"
  "andfield (Inr g) (Inl e) = Inl e"
  by (simp_all add: andfield_def)

section \<open>Services\<close>

definition enc_strs :: "string list \<Rightarrow> json" where
  "enc_strs xs = (if xs = [] then JNull else JList (map JStr xs))"

definition enc_Service :: "Service \<Rightarrow> json" where
  "enc_Service s = JObj [(''service'', JStr (Service_service s)), (''location'', JStr (Service_location s))]"

definition dec_Service :: "json \<Rightarrow> goerr + Service" where
  "dec_Service j = andfield (andfield (Inr (\<lambda>s l. \<lparr>Service_service = s, Service_location = l\<rparr>))
     (dec_field ''service'' dec_str [] j)) (dec_field ''location'' dec_str [] j)"

definition dec_WarningSet :: "WarningSet \<Rightarrow> json \<Rightarrow> goerr + WarningSet" where
  "dec_WarningSet d j = andfield (andfield (Inr (\<lambda>a b. \<lparr>EvenCentral = a, FewCentral = b\<rparr>))
     (dec_field ''EvenCentral'' dec_bool (EvenCentral d) j)) (dec_field ''FewCentral'' dec_bool (FewCentral d) j)"

definition enc_WarningSet :: "WarningSet \<Rightarrow> json" where
  "enc_WarningSet w = JObj [(''EvenCentral'', JBool (EvenCentral w)), (''FewCentral'', JBool (FewCentral w))]"

definition enc_ServiceControlResponse :: "ServiceControlResponse \<Rightarrow> json" where
  "enc_ServiceControlResponse r = JObj [(''message'', JStr (Message r)), (''warnings'', enc_WarningSet (Warnings r))]"

definition dec_ServiceControlResponse :: "json \<Rightarrow> goerr + ServiceControlResponse" where
  "dec_ServiceControlResponse j = (let w0 = \<lparr>EvenCentral = False, FewCentral = False\<rparr> in
     andfield (andfield (Inr (\<lambda>m w. \<lparr>Message = m, Warnings = w\<rparr>)) (dec_field ''message'' dec_str [] j))
       (dec_field ''warnings'' (dec_WarningSet w0) w0 j))"

record DisableServiceRequest = AllowDisableLastCentral :: bool

definition enc_DisableServiceRequest :: "DisableServiceRequest \<Rightarrow> json" where
  "enc_DisableServiceRequest r = JObj [(''allowDisableLastCentral'', JBool (AllowDisableLastCentral r))]"

definition dec_DisableServiceRequest :: "json \<Rightarrow> goerr + DisableServiceRequest" where
  "dec_DisableServiceRequest j = andfield (Inr (\<lambda>b. \<lparr>AllowDisableLastCentral = b\<rparr>))
     (dec_field ''allowDisableLastCentral'' dec_bool False j)"

definition enc_RegenerateEnvResponse :: "RegenerateEnvResponse \<Rightarrow> json" where
  "enc_RegenerateEnvResponse r = JObj [(''success'', JBool (Env_Success r)),
     (''error'', JList (map JStr (Env_Errors r)))]"

definition dec_RegenerateEnvResponse :: "RegenerateEnvResponse \<Rightarrow> json \<Rightarrow> goerr + RegenerateEnvResponse" where
  "dec_RegenerateEnvResponse d j =
     andfield (andfield (Inr (\<lambda>s e. \<lparr>Env_Success = s, Env_Errors = e\<rparr>))
       (dec_field ''success'' dec_bool (Env_Success d) j))
       (dec_field ''error'' (dec_list dec_str) (Env_Errors d) j)"

section \<open>Options of the BGP service\<close>

definition bgp_fields :: "'a ExtraBgpConfig_scheme \<Rightarrow> (string \<times> json) list" where
  "bgp_fields c =
     opt_str ''ext_iface'' (ExternalConnection c) @ opt_str ''bridge'' (Bridge c) @ opt_str ''vrf'' (Vrf c) @
     opt_str ''asn'' (Asn c) @
     [(''asn_range'', JList [JNum (unat (fst (AsnRange c))), JNum (unat (snd (AsnRange c)))])] @
     (if ManualBgpdConfig c then [(''manual_bgpd_config'', JBool True)] else [])"

definition enc_ExtraBgpConfig :: "ExtraBgpConfig \<Rightarrow> json" where
  "enc_ExtraBgpConfig c = JObj (bgp_fields c)"

definition dec_bgp :: "(string \<Rightarrow> string \<Rightarrow> string \<Rightarrow> string \<Rightarrow> 64 word \<times> 64 word \<Rightarrow> bool \<Rightarrow> 'b) \<Rightarrow> json \<Rightarrow> goerr + 'b" where
  "dec_bgp f j = andfield (andfield (andfield (andfield (andfield (andfield (Inr f)
     (dec_field ''ext_iface'' dec_str [] j)) (dec_field ''bridge'' dec_str [] j)) (dec_field ''vrf'' dec_str [] j))
     (dec_field ''asn'' dec_str [] j)) (dec_field ''asn_range'' (dec_pair dec_u64) (0, 0) j))
     (dec_field ''manual_bgpd_config'' dec_bool False j)"

definition dec_ExtraBgpConfig :: "json \<Rightarrow> goerr + ExtraBgpConfig" where
  "dec_ExtraBgpConfig = dec_bgp (\<lambda>i b v a r m. \<lparr>ExternalConnection = i, Bridge = b, Vrf = v, Asn = a,
     AsnRange = r, ManualBgpdConfig = m\<rparr>)"

text \<open>\<open>ExtraServiceConfig\<close> has the one optional field \<open>bgpConfig\<close>; a nil pointer to it encodes as null.\<close>

definition enc_ExtraServiceConfig :: "ExtraBgpConfig option option \<Rightarrow> json" where
  "enc_ExtraServiceConfig c = (case c of None \<Rightarrow> JNull | Some None \<Rightarrow> JObj []
     | Some (Some b) \<Rightarrow> JObj [(''bgpConfig'', enc_ExtraBgpConfig b)])"

definition dec_ExtraServiceConfig :: "json \<Rightarrow> goerr + ExtraBgpConfig option" where
  "dec_ExtraServiceConfig = dec_field ''bgpConfig'' (\<lambda>v. andfield (Inr Some) (dec_ExtraBgpConfig v)) None"

definition enc_SetupBgpRequest :: "SetupBgpRequest \<Rightarrow> json" where
  "enc_SetupBgpRequest r = JObj (bgp_fields r @ opt_str ''connection_ip4_range'' (ConnectionIP4Range r))"

definition dec_SetupBgpRequest :: "json \<Rightarrow> goerr + SetupBgpRequest" where
  "dec_SetupBgpRequest j = andfield (dec_bgp (\<lambda>i b v a r m c. \<lparr>ExternalConnection = i, Bridge = b, Vrf = v,
     Asn = a, AsnRange = r, ManualBgpdConfig = m, ConnectionIP4Range = c\<rparr>) j)
     (dec_field ''connection_ip4_range'' dec_str [] j)"

definition dec_SetupBgpResponse :: "json \<Rightarrow> goerr + SetupBgpResponse" where
  "dec_SetupBgpResponse j = andfield (andfield (andfield
     (Inr (\<lambda>s m e. \<lparr>Setup_Success = s, Setup_Message = m, Setup_Errors = e\<rparr>))
     (dec_field ''success'' dec_bool False j)) (dec_field ''message'' dec_str [] j))
     (dec_field ''errors'' (dec_list dec_str) [] j)"

definition enc_SetupBgpResponse :: "SetupBgpResponse \<Rightarrow> json" where
  "enc_SetupBgpResponse r = JObj ([(''success'', JBool (Setup_Success r)), (''message'', JStr (Setup_Message r))] @
     opt_list ''errors'' (Setup_Errors r))"

section \<open>Certificates\<close>

text \<open>The two lists are built by \<open>append\<close> from nil, so an empty one is written as null.\<close>

record IssueCertificateResponse =
  Issue_Success :: "string list"
  Issue_Failed :: "string list"

definition no_issue :: IssueCertificateResponse where
  "no_issue = \<lparr>Issue_Success = [], Issue_Failed = []\<rparr>"

definition enc_IssueCertificateResponse :: "IssueCertificateResponse \<Rightarrow> json" where
  "enc_IssueCertificateResponse r =
     JObj [(''success'', enc_strs (Issue_Success r)), (''failed'', enc_strs (Issue_Failed r))]"

definition dec_IssueCertificateResponse :: "json \<Rightarrow> goerr + IssueCertificateResponse" where
  "dec_IssueCertificateResponse j = andfield (andfield (Inr (\<lambda>s f. \<lparr>Issue_Success = s, Issue_Failed = f\<rparr>))
     (dec_field ''success'' (dec_list dec_str) [] j)) (dec_field ''failed'' (dec_list dec_str) [] j)"

record RegenerateCaResponse =
  NewCa :: bool
  ReissuedCertificates :: "(string \<times> IssueCertificateResponse) list"
  Ca_Errors :: "string list"

definition NewRegenerateCaResponse :: RegenerateCaResponse where
  "NewRegenerateCaResponse = \<lparr>NewCa = False, ReissuedCertificates = [], Ca_Errors = []\<rparr>"

definition enc_RegenerateCaResponse :: "RegenerateCaResponse \<Rightarrow> json" where
  "enc_RegenerateCaResponse r = JObj [(''newCa'', JBool (NewCa r)),
     (''reissuedCertificates'',
       JObj (map (\<lambda>(h, c). (h, enc_IssueCertificateResponse c)) (ReissuedCertificates r))),
     (''error'', JList (map JStr (Ca_Errors r)))]"

definition dec_RegenerateCaResponse :: "json \<Rightarrow> goerr + RegenerateCaResponse" where
  "dec_RegenerateCaResponse j = andfield (andfield (andfield
     (Inr (\<lambda>n c e. \<lparr>NewCa = n, ReissuedCertificates = c, Ca_Errors = e\<rparr>))
     (dec_field ''newCa'' dec_bool False j))
     (dec_field ''reissuedCertificates'' (dec_map dec_IssueCertificateResponse) [] j))
     (dec_field ''error'' (dec_list dec_str) [] j)"

record CaInfo =
  AutoRenew :: bool
  CaInfo_Error :: string

definition enc_CaInfo :: "CaInfo \<Rightarrow> json" where
  "enc_CaInfo i = JObj [(''auto_renew'', JBool (AutoRenew i)), (''error'', JStr (CaInfo_Error i))]"

definition dec_CaInfo :: "json \<Rightarrow> goerr + CaInfo" where
  "dec_CaInfo j = andfield (andfield (Inr (\<lambda>a e. \<lparr>AutoRenew = a, CaInfo_Error = e\<rparr>))
     (dec_field ''auto_renew'' dec_bool False j)) (dec_field ''error'' dec_str [] j)"

record CustomCaRequest =
  Ca_Certificate :: string
  Ca_PrivateKey :: string

definition enc_CustomCaRequest :: "CustomCaRequest \<Rightarrow> json" where
  "enc_CustomCaRequest r = JObj [(''certificate'', JStr (Ca_Certificate r)), (''private_key'', JStr (Ca_PrivateKey r))]"

definition dec_CustomCaRequest :: "json \<Rightarrow> goerr + CustomCaRequest" where
  "dec_CustomCaRequest j = andfield (andfield (Inr (\<lambda>c k. \<lparr>Ca_Certificate = c, Ca_PrivateKey = k\<rparr>))
     (dec_field ''certificate'' dec_str [] j)) (dec_field ''private_key'' dec_str [] j)"

section \<open>Configuration options\<close>

record SetConfigRequest =
  Set_Key :: string
  Set_Value :: string

record SetConfigResponse = Set_Error :: string

record GetConfigRequest = Get_Key :: string

record GetConfigResponse =
  Get_Value :: string
  Get_IsSet :: bool
  Get_Error :: string

definition enc_SetConfigRequest :: "SetConfigRequest \<Rightarrow> json" where
  "enc_SetConfigRequest r = JObj [(''key'', JStr (Set_Key r)), (''value'', JStr (Set_Value r))]"

definition dec_SetConfigRequest :: "json \<Rightarrow> goerr + SetConfigRequest" where
  "dec_SetConfigRequest j = andfield (andfield (Inr (\<lambda>k v. \<lparr>Set_Key = k, Set_Value = v\<rparr>))
     (dec_field ''key'' dec_str [] j)) (dec_field ''value'' dec_str [] j)"

definition enc_SetConfigResponse :: "SetConfigResponse \<Rightarrow> json" where
  "enc_SetConfigResponse r = JObj [(''error'', JStr (Set_Error r))]"

definition dec_SetConfigResponse :: "json \<Rightarrow> goerr + SetConfigResponse" where
  "dec_SetConfigResponse j = andfield (Inr (\<lambda>e. \<lparr>Set_Error = e\<rparr>)) (dec_field ''error'' dec_str [] j)"

definition enc_GetConfigRequest :: "GetConfigRequest \<Rightarrow> json" where
  "enc_GetConfigRequest r = JObj [(''key'', JStr (Get_Key r))]"

definition dec_GetConfigRequest :: "json \<Rightarrow> goerr + GetConfigRequest" where
  "dec_GetConfigRequest j = andfield (Inr (\<lambda>k. \<lparr>Get_Key = k\<rparr>)) (dec_field ''key'' dec_str [] j)"

definition enc_GetConfigResponse :: "GetConfigResponse \<Rightarrow> json" where
  "enc_GetConfigResponse r = JObj [(''value'', JStr (Get_Value r)), (''isSet'', JBool (Get_IsSet r)),
     (''error'', JStr (Get_Error r))]"

definition dec_GetConfigResponse :: "json \<Rightarrow> goerr + GetConfigResponse" where
  "dec_GetConfigResponse j = andfield (andfield (andfield
     (Inr (\<lambda>v i e. \<lparr>Get_Value = v, Get_IsSet = i, Get_Error = e\<rparr>))
     (dec_field ''value'' dec_str [] j)) (dec_field ''isSet'' dec_bool False j)) (dec_field ''error'' dec_str [] j)"

section \<open>Schema versions\<close>

text \<open>The error type is an \<open>int\<close> in the order of its constants.\<close>

datatype OvsdbSchemaFetchError = SchemaErrorNone | SchemaErrorGeneric | SchemaErrorNotSupported
  | SchemaErrorOther nat

fun schema_error_code :: "OvsdbSchemaFetchError \<Rightarrow> nat" where
  "schema_error_code SchemaErrorNone = 0"
| "schema_error_code SchemaErrorGeneric = 1"
| "schema_error_code SchemaErrorNotSupported = 2"
| "schema_error_code (SchemaErrorOther n) = n + 3"

definition schema_error_of :: "nat \<Rightarrow> OvsdbSchemaFetchError" where
  "schema_error_of n = (if n = 0 then SchemaErrorNone else if n = 1 then SchemaErrorGeneric
     else if n = 2 then SchemaErrorNotSupported else SchemaErrorOther (n - 3))"

record OvsdbSchemaVersionResult =
  Schema_Host :: string
  SchemaVersion :: string
  Schema_Error :: OvsdbSchemaFetchError

definition enc_SchemaVersionResult :: "OvsdbSchemaVersionResult \<Rightarrow> json" where
  "enc_SchemaVersionResult r = JObj [(''host'', JStr (Schema_Host r)), (''schemaVersion'', JStr (SchemaVersion r)),
     (''error'', JNum (schema_error_code (Schema_Error r)))]"

definition dec_schema_error :: "json \<Rightarrow> goerr + OvsdbSchemaFetchError" where
  "dec_schema_error j = (case j of JNum n \<Rightarrow> Inr (schema_error_of n) | _ \<Rightarrow> bad_json)"

definition dec_SchemaVersionResult :: "json \<Rightarrow> goerr + OvsdbSchemaVersionResult" where
  "dec_SchemaVersionResult j = andfield (andfield (andfield
     (Inr (\<lambda>h v e. \<lparr>Schema_Host = h, SchemaVersion = v, Schema_Error = e\<rparr>))
     (dec_field ''host'' dec_str [] j)) (dec_field ''schemaVersion'' dec_str [] j))
     (dec_field ''error'' dec_schema_error SchemaErrorNone j)"

section \<open>Every message is read back as it was written\<close>

text \<open>The contract of a message type: what the peer wrote is what this side reads. The clients and the
  handlers rely on it.\<close>

locale wire =
  fixes enc :: "'a \<Rightarrow> json" and dec :: "json \<Rightarrow> goerr + 'b" and view :: "'a \<Rightarrow> 'b"
  assumes roundtrip: "dec (enc x) = Inr (view x)"
begin

lemma same_message: "enc x = enc y \<Longrightarrow> view x = view y"
  by (metis roundtrip sum.inject(2))

lemma list_roundtrip: "dec_all dec (map enc xs) = Inr (map view xs)"
  by (induction xs) (simp_all add: roundtrip)

end

lemma dec_field_JObj: "dec_field n dec d (JObj fs) = (case map_of (rev fs) n of
    None \<Rightarrow> Inr d | Some v \<Rightarrow> if v = JNull then Inr d else dec v)"
  by (simp add: dec_field_def)

lemma unat64_less: "unat (x :: 64 word) < 2 ^ 64"
  by (rule order.strict_trans2 [OF unsigned_less]) simp

lemma dec_scalars [simp]: "dec_str (JStr s) = Inr s" "dec_bool (JBool b) = Inr b"
  "dec_u64 (JNum (unat x)) = Inr x"
  using unat64_less [of x] by (simp_all add: dec_str_def dec_bool_def dec_u64_def)

interpretation str_wire: wire JStr dec_str id
  by unfold_locales simp

lemma dec_strs [simp]: "dec_list dec_str (JList (map JStr xs)) = Inr xs"
  using str_wire.list_roundtrip [of xs] by (simp add: dec_list_def)

lemmas dec_simps = dec_field_JObj bad_json_def

interpretation service_wire: wire enc_Service dec_Service id
  by unfold_locales (simp add: enc_Service_def dec_Service_def dec_simps)

interpretation control_wire: wire enc_ServiceControlResponse dec_ServiceControlResponse id
  by unfold_locales (simp add: enc_ServiceControlResponse_def dec_ServiceControlResponse_def
      enc_WarningSet_def dec_WarningSet_def dec_simps Let_def)

interpretation disable_wire: wire enc_DisableServiceRequest dec_DisableServiceRequest id
  by unfold_locales (simp add: enc_DisableServiceRequest_def dec_DisableServiceRequest_def dec_simps)

interpretation env_wire: wire enc_RegenerateEnvResponse "dec_RegenerateEnvResponse d" id for d
  by unfold_locales (simp add: enc_RegenerateEnvResponse_def dec_RegenerateEnvResponse_def dec_simps)

lemma dec_field_append: "n \<notin> fst ` set ys \<Longrightarrow> dec_field n dec d (JObj (xs @ ys)) = dec_field n dec d (JObj xs)"
  using map_of_eq_None_iff [of "rev ys" n] by (simp add: dec_simps map_add_def)

lemma dec_bgp_single:
  "dec_field ''ext_iface'' dec_str [] (JObj (bgp_fields c)) = Inr (ExternalConnection c)"
  "dec_field ''bridge'' dec_str [] (JObj (bgp_fields c)) = Inr (Bridge c)"
  "dec_field ''vrf'' dec_str [] (JObj (bgp_fields c)) = Inr (Vrf c)"
  "dec_field ''asn'' dec_str [] (JObj (bgp_fields c)) = Inr (Asn c)"
  "dec_field ''asn_range'' (dec_pair dec_u64) (0, 0) (JObj (bgp_fields c)) = Inr (AsnRange c)"
  "dec_field ''manual_bgpd_config'' dec_bool False (JObj (bgp_fields c)) = Inr (ManualBgpdConfig c)"
  by (auto simp: dec_simps bgp_fields_def opt_str_def dec_pair_def)

lemma dec_bgp_fields:
  "dec_bgp f (JObj (bgp_fields c)) = Inr (f (ExternalConnection c) (Bridge c) (Vrf c) (Asn c)
     (AsnRange c) (ManualBgpdConfig c))"
  by (simp add: dec_bgp_def dec_bgp_single)

interpretation bgp_wire: wire enc_ExtraBgpConfig dec_ExtraBgpConfig id
  by unfold_locales (simp add: enc_ExtraBgpConfig_def dec_ExtraBgpConfig_def dec_bgp_fields)

interpretation extra_wire: wire enc_ExtraServiceConfig dec_ExtraServiceConfig "\<lambda>c. Option.bind c id"
proof
  fix c :: "ExtraBgpConfig option option"
  have "enc_ExtraBgpConfig b \<noteq> JNull" for b by (simp add: enc_ExtraBgpConfig_def)
  then show "dec_ExtraServiceConfig (enc_ExtraServiceConfig c) = Inr (Option.bind c id)"
    by (auto simp: enc_ExtraServiceConfig_def dec_ExtraServiceConfig_def dec_field_def bgp_wire.roundtrip
        split: option.splits)
qed

lemma dec_bgp_append:
  "dec_bgp f (JObj (xs @ opt_str ''connection_ip4_range'' v)) = dec_bgp f (JObj xs)"
  by (simp add: dec_bgp_def dec_field_append opt_str_def)

lemma dec_range4: "dec_field ''connection_ip4_range'' dec_str []
    (JObj (bgp_fields r @ opt_str ''connection_ip4_range'' v)) = Inr v"
  by (auto simp: dec_simps bgp_fields_def opt_str_def)

interpretation setup_wire: wire enc_SetupBgpRequest dec_SetupBgpRequest id
  by unfold_locales
     (simp add: enc_SetupBgpRequest_def dec_SetupBgpRequest_def dec_bgp_append dec_bgp_fields dec_range4)

interpretation setup_response_wire: wire enc_SetupBgpResponse dec_SetupBgpResponse id
  by unfold_locales (auto simp: enc_SetupBgpResponse_def dec_SetupBgpResponse_def opt_list_def dec_simps)

interpretation issue_wire: wire enc_IssueCertificateResponse dec_IssueCertificateResponse id
  by unfold_locales (auto simp: enc_IssueCertificateResponse_def dec_IssueCertificateResponse_def enc_strs_def dec_simps)

interpretation ca_wire: wire enc_RegenerateCaResponse dec_RegenerateCaResponse id
proof
  fix r
  have "dec_map dec_IssueCertificateResponse (JObj (map (\<lambda>(h, c). (h, enc_IssueCertificateResponse c)) m)) = Inr m" for m
    using issue_wire.list_roundtrip [of "map snd m"]
    by (simp add: dec_map_def case_prod_beta comp_def zip_map_fst_snd)
  then show "dec_RegenerateCaResponse (enc_RegenerateCaResponse r) = Inr (id r)"
    by (simp add: enc_RegenerateCaResponse_def dec_RegenerateCaResponse_def dec_simps)
qed

interpretation info_wire: wire enc_CaInfo dec_CaInfo id
  by unfold_locales (simp add: enc_CaInfo_def dec_CaInfo_def dec_simps)

interpretation custom_ca_wire: wire enc_CustomCaRequest dec_CustomCaRequest id
  by unfold_locales (simp add: enc_CustomCaRequest_def dec_CustomCaRequest_def dec_simps)

interpretation set_wire: wire enc_SetConfigRequest dec_SetConfigRequest id
  by unfold_locales (simp add: enc_SetConfigRequest_def dec_SetConfigRequest_def dec_simps)

interpretation set_response_wire: wire enc_SetConfigResponse dec_SetConfigResponse id
  by unfold_locales (simp add: enc_SetConfigResponse_def dec_SetConfigResponse_def dec_simps)

interpretation get_wire: wire enc_GetConfigRequest dec_GetConfigRequest id
  by unfold_locales (simp add: enc_GetConfigRequest_def dec_GetConfigRequest_def dec_simps)

interpretation get_response_wire: wire enc_GetConfigResponse dec_GetConfigResponse id
  by unfold_locales (simp add: enc_GetConfigResponse_def dec_GetConfigResponse_def dec_simps)

lemma schema_error_roundtrip [simp]: "schema_error_of (schema_error_code e) = e"
  by (cases e) (simp_all add: schema_error_of_def)

interpretation schema_wire: wire enc_SchemaVersionResult dec_SchemaVersionResult id
  by unfold_locales (simp add: enc_SchemaVersionResult_def dec_SchemaVersionResult_def dec_schema_error_def dec_simps)

end
