(* ===== verification/Database.thy ===== *)
theory Database
  imports World "HOL-Library.Char_ord" "HOL-Library.List_Lexorder" "HOL-Library.Product_Lexorder"
begin

text \<open>
  Package \<open>database\<close>: the schema of the tables \<open>services\<close> and \<open>config\<close> (schema.go) and the
  generated mappers (service.mapper.go, config.mapper.go), statement by statement. Every prepared
  statement, query and execution is an effect the environment may fail; the SQL text of a statement
  is a function on the tables.
\<close>

section \<open>Entities (service.go, config.go)\<close>

record service =
  sv_id :: nat
  sv_member :: string
  sv_service :: string

record service_filter =
  sf_member :: "string option"
  sf_service :: "string option"

record config_item =
  ci_id :: nat
  ci_key :: string
  ci_value :: string

record config_item_filter =
  cf_key :: "string option"

section \<open>The schema (schema.go)\<close>

text \<open>
  Primary keys, \<open>AUTOINCREMENT\<close>, \<open>UNIQUE(member_id, service)\<close>, \<open>UNIQUE(key)\<close> and the foreign key
  of \<open>services\<close>. The table of members belongs to the cluster library: its ids and names are keys.
\<close>

definition services_schema :: "db \<Rightarrow> bool" where
  "services_schema d \<longleftrightarrow>
     distinct (map sr_id (services d)) \<and>
     (\<forall>r \<in> set (services d). sr_id r < next_service d) \<and>
     distinct (map (\<lambda>r. (sr_member r, sr_service r)) (services d)) \<and>
     (\<forall>r \<in> set (services d). sr_member r \<in> set (map m_id (members d)))"

definition config_schema :: "db \<Rightarrow> bool" where
  "config_schema d \<longleftrightarrow>
     distinct (map cr_id (configs d)) \<and>
     (\<forall>r \<in> set (configs d). cr_id r < next_config d) \<and>
     distinct (map cr_key (configs d))"

definition members_keys :: "db \<Rightarrow> bool" where
  "members_keys d \<longleftrightarrow> distinct (map m_id (members d)) \<and> distinct (map m_name (members d))"

definition db_ok :: "db \<Rightarrow> bool" where
  "db_ok d \<longleftrightarrow> members_keys d \<and> services_schema d \<and> config_schema d"

lemma db_ok_sample [simp]: "db_ok (w_db sample_world)" "db_ok (w_db world_with_env)"
  by (simp_all add: world_with_env_def sample_world_def sample_db_def db_ok_def members_keys_def services_schema_def config_schema_def)

section \<open>Statements\<close>

text \<open>\<open>db.Stmt(tx, name)\<close> with the error text the mapper gives it.\<close>

definition prepare :: "env \<Rightarrow> string \<Rightarrow> unit io" where
  "prepare E name = on_err (wrapf (''Failed to get '' @ quoted name @ '' prepared statement: ''))
     (step E (Sql (''prepare '' @ name)))"

text \<open>Running a statement that changes rows, and one that reads them.\<close>

definition exec_stmt :: "env \<Rightarrow> string \<Rightarrow> (db \<Rightarrow> goerr + db \<times> 'a) \<Rightarrow> 'a io" where
  "exec_stmt E name f = andthen (step E (Sql (''exec '' @ name)))
     (\<lambda>w. case f (w_db w) of Inl e \<Rightarrow> (Er e, w) | Inr (d, x) \<Rightarrow> (Ok x, w\<lparr>w_db := d\<rparr>))"

definition query_stmt :: "env \<Rightarrow> string \<Rightarrow> (db \<Rightarrow> 'a) \<Rightarrow> 'a io" where
  "query_stmt E name q = andthen (step E (Sql (''query '' @ name))) (reads (\<lambda>w. q (w_db w)))"

lemma keeps_prepare [keeps_rules]:
  "(\<And>E s. keeps P (step E (Sql s))) \<Longrightarrow> keeps P (prepare E name)"
  unfolding prepare_def by (intro keeps_rules)

lemma keeps_query_stmt [keeps_rules]:
  "(\<And>E s. keeps P (step E (Sql s))) \<Longrightarrow> keeps P (query_stmt E name q)"
  unfolding query_stmt_def by (intro keeps_rules)

lemma keeps_exec_stmt_inv:
  "(\<And>d d' x. I d \<Longrightarrow> f d = Inr (d', x) \<Longrightarrow> I d') \<Longrightarrow> keeps (\<lambda>w. I (w_db w)) (exec_stmt E name f)"
  unfolding exec_stmt_def
  by (intro keeps_rules) (auto simp: keeps_def split: sum.splits)

lemma keeps_exec_stmt_fs [keeps_rules]: "keeps (\<lambda>w. w_fs w = v) (exec_stmt E name f)"
  unfolding exec_stmt_def
  by (intro keeps_rules) (auto simp: keeps_def split: sum.splits)

section \<open>SQL of the services table (service.mapper.go)\<close>

definition member_id_of :: "db \<Rightarrow> string \<Rightarrow> nat option" where
  "member_id_of d name = map_option m_id (find (\<lambda>m. m_name m = name) (members d))"

text \<open>\<open>SELECT ... FROM services JOIN core_cluster_members ... ORDER BY core_cluster_members.id,
  services.service\<close>\<close>

definition service_objects :: "db \<Rightarrow> service list" where
  "service_objects d =
     map (\<lambda>(m, r). \<lparr>sv_id = sr_id r, sv_member = m_name m, sv_service = sr_service r\<rparr>)
       (sort_key (\<lambda>(m, r). (m_id m, sr_service r))
          [(m, r). m \<leftarrow> members d, r \<leftarrow> services d, sr_member r = m_id m])"

definition filter_matches :: "service_filter \<Rightarrow> service \<Rightarrow> bool" where
  "filter_matches f s \<longleftrightarrow>
     (case sf_member f of None \<Rightarrow> True | Some m \<Rightarrow> sv_member s = m) \<and>
     (case sf_service f of None \<Rightarrow> True | Some v \<Rightarrow> sv_service s = v)"

definition select_services :: "service_filter list \<Rightarrow> db \<Rightarrow> service list" where
  "select_services fs d = filter (\<lambda>s. fs = [] \<or> (\<exists>f \<in> set fs. filter_matches f s)) (service_objects d)"

definition select_service_ids :: "string \<Rightarrow> string \<Rightarrow> db \<Rightarrow> nat list" where
  "select_service_ids member srv d =
     [sr_id r. r \<leftarrow> services d, m \<leftarrow> members d,
        sr_member r = m_id m \<and> m_name m = member \<and> sr_service r = srv]"

definition insert_service :: "string \<Rightarrow> string \<Rightarrow> db \<Rightarrow> goerr + db \<times> nat" where
  "insert_service member srv d = (case member_id_of d member of
       None \<Rightarrow> Inl (ErrS ''NOT NULL constraint failed: services.member_id'')
     | Some i \<Rightarrow>
         if (i, srv) \<in> set (map (\<lambda>r. (sr_member r, sr_service r)) (services d))
         then Inl (ErrS ''UNIQUE constraint failed: services.member_id, services.service'')
         else Inr (d\<lparr>services := services d @
                      [\<lparr>sr_id = next_service d, sr_member = i, sr_service = srv\<rparr>],
                     next_service := next_service d + 1\<rparr>, next_service d))"

definition delete_rows :: "(service_row \<Rightarrow> bool) \<Rightarrow> db \<Rightarrow> goerr + db \<times> nat" where
  "delete_rows p d = Inr (d\<lparr>services := filter (\<lambda>r. \<not> p r) (services d)\<rparr>,
                          length (filter p (services d)))"

definition delete_by_member_service :: "string \<Rightarrow> string \<Rightarrow> db \<Rightarrow> goerr + db \<times> nat" where
  "delete_by_member_service member srv d =
     delete_rows (\<lambda>r. Some (sr_member r) = member_id_of d member \<and> sr_service r = srv) d"

definition delete_by_member :: "string \<Rightarrow> db \<Rightarrow> goerr + db \<times> nat" where
  "delete_by_member member d = delete_rows (\<lambda>r. Some (sr_member r) = member_id_of d member) d"

definition update_service_row :: "string \<Rightarrow> string \<Rightarrow> nat \<Rightarrow> db \<Rightarrow> goerr + db \<times> nat" where
  "update_service_row member srv i d =
     (let hit = filter (\<lambda>r. sr_id r = i) (services d) in
      if hit = [] then Inr (d, 0)
      else case member_id_of d member of
        None \<Rightarrow> Inl (ErrS ''NOT NULL constraint failed: services.member_id'')
      | Some k \<Rightarrow>
          if (\<exists>r \<in> set (services d). sr_id r \<noteq> i \<and> sr_member r = k \<and> sr_service r = srv)
          then Inl (ErrS ''UNIQUE constraint failed: services.member_id, services.service'')
          else Inr (d\<lparr>services := map (\<lambda>r. if sr_id r = i then r\<lparr>sr_member := k, sr_service := srv\<rparr>
                                           else r) (services d)\<rparr>, length hit))"

section \<open>Mapper methods of services\<close>

definition services_fetch_err :: "goerr \<Rightarrow> goerr" where
  "services_fetch_err = wrapf (''Failed to fetch from '' @ quoted ''services'' @ '' table: '')"

text \<open>The loop of \<open>GetServices\<close> over the filters: with one filter it picks the prepared statement,
  with more it fetches the statement texts and joins their conditions with OR.\<close>

definition filter_stmt :: "service_filter \<Rightarrow> string option" where
  "filter_stmt f = (case (sf_member f, sf_service f) of
       (Some _, Some _) \<Rightarrow> Some ''serviceObjectsByMemberAndService''
     | (None, Some _) \<Rightarrow> Some ''serviceObjectsByService''
     | (Some _, None) \<Rightarrow> Some ''serviceObjectsByMember''
     | (None, None) \<Rightarrow> None)"

definition pick_stmt :: "env \<Rightarrow> nat \<Rightarrow> service_filter \<Rightarrow> unit io" where
  "pick_stmt E n f = (case filter_stmt f of
       None \<Rightarrow> fail (ErrS ''Cannot filter on empty ServiceFilter'')
     | Some name \<Rightarrow>
         if n = 1 then prepare E name
         else on_err (wrapf (''Failed to get '' @ quoted ''serviceObjects'' @ '' prepared statement: ''))
                (step E (Sql (''string '' @ name))))"

definition getServices :: "env \<Rightarrow> service_filter list \<Rightarrow> service list io" where
  "getServices E fs = on_err services_fetch_err (query_stmt E ''services'' (select_services fs))"

definition GetServices :: "env \<Rightarrow> service_filter list \<Rightarrow> service list io" where
  "GetServices E fs =
     andthen (if fs = [] then prepare E ''serviceObjects'' else ret ())
     (andthen (for_each (pick_stmt E (length fs)) fs)
     (on_err services_fetch_err (getServices E fs)))"

definition GetService :: "env \<Rightarrow> string \<Rightarrow> string \<Rightarrow> service io" where
  "GetService E member srv =
     bind (on_err services_fetch_err
             (GetServices E [\<lparr>sf_member = Some member, sf_service = Some srv\<rparr>]))
     (\<lambda>objects. case objects of
        [] \<Rightarrow> fail (StatusErr 404 ''Service not found'')
      | [x] \<Rightarrow> ret x
      | _ \<Rightarrow> fail (ErrS (''More than one '' @ quoted ''services'' @ '' entry matches'')))"

definition GetServiceID :: "env \<Rightarrow> string \<Rightarrow> string \<Rightarrow> nat io" where
  "GetServiceID E member srv =
     andthen (prepare E ''serviceID'')
     (bind (on_err (wrapf (''Failed to get '' @ quoted ''services'' @ '' ID: ''))
              (query_stmt E ''serviceID'' (select_service_ids member srv)))
     (\<lambda>ids. case ids of
        [] \<Rightarrow> fail (StatusErr 404 ''Service not found'')
      | i # _ \<Rightarrow> ret i))"

text \<open>\<open>api.StatusErrorCheck(err, http.StatusNotFound)\<close>\<close>

definition is_not_found :: "goerr \<Rightarrow> bool" where
  "is_not_found e \<longleftrightarrow> status_of e = Some 404"

definition ServiceExists :: "env \<Rightarrow> string \<Rightarrow> string \<Rightarrow> bool io" where
  "ServiceExists E member srv =
     bind (attempt (GetServiceID E member srv))
     (\<lambda>r. case r of
        Inl e \<Rightarrow> if is_not_found e then ret False else fail e
      | Inr _ \<Rightarrow> ret True)"

definition CreateService :: "env \<Rightarrow> service \<Rightarrow> nat io" where
  "CreateService E object =
     bind (on_err (wrapf ''Failed to check for duplicates: '')
             (ServiceExists E (sv_member object) (sv_service object)))
     (\<lambda>exists.
        if exists
        then fail (StatusErr 409 (''This '' @ quoted ''services'' @ '' entry already exists''))
        else
          andthen (prepare E ''serviceCreate'')
          (bind (on_err (wrapf (''Failed to create '' @ quoted ''services'' @ '' entry: ''))
                   (exec_stmt E ''serviceCreate'' (insert_service (sv_member object) (sv_service object))))
          (\<lambda>i.
          andthen (on_err (wrapf (''Failed to fetch '' @ quoted ''services'' @ '' entry ID: ''))
                     (step E (Sql ''lastInsertId'')))
          (ret i))))"

text \<open>\<open>n, err := result.RowsAffected()\<close>\<close>

definition rows_affected :: "env \<Rightarrow> nat \<Rightarrow> nat io" where
  "rows_affected E n =
     andthen (on_err (wrapf ''Fetch affected rows: '') (step E (Sql ''rowsAffected''))) (ret n)"

definition DeleteService :: "env \<Rightarrow> string \<Rightarrow> string \<Rightarrow> unit io" where
  "DeleteService E member srv =
     andthen (prepare E ''serviceDeleteByMemberAndService'')
     (bind (on_err (wrapf (''Delete '' @ quoted ''services'' @ '': ''))
              (exec_stmt E ''serviceDeleteByMemberAndService'' (delete_by_member_service member srv)))
     (\<lambda>res. bind (rows_affected E res)
     (\<lambda>n. if n = 0 then fail (StatusErr 404 ''Service not found'')
          else if n > 1 then fail (ErrS (''Query deleted '' @ show_nat n @ '' Service rows instead of 1''))
          else ret ())))"

definition DeleteServices :: "env \<Rightarrow> string \<Rightarrow> unit io" where
  "DeleteServices E member =
     andthen (prepare E ''serviceDeleteByMember'')
     (bind (on_err (wrapf (''Delete '' @ quoted ''services'' @ '': ''))
              (exec_stmt E ''serviceDeleteByMember'' (delete_by_member member)))
     (\<lambda>res. bind (rows_affected E res) (\<lambda>_. ret ())))"

definition UpdateService :: "env \<Rightarrow> string \<Rightarrow> string \<Rightarrow> service \<Rightarrow> unit io" where
  "UpdateService E member srv object =
     bind (GetServiceID E member srv) (\<lambda>i.
     andthen (prepare E ''serviceUpdate'')
     (bind (on_err (wrapf (''Update '' @ quoted ''services'' @ '' entry failed: ''))
              (exec_stmt E ''serviceUpdate'' (update_service_row (sv_member object) (sv_service object) i)))
     (\<lambda>res. bind (rows_affected E res)
     (\<lambda>n. if n \<noteq> 1 then fail (ErrS (''Query updated '' @ show_nat n @ '' rows instead of 1''))
          else ret ()))))"

section \<open>SQL and mapper methods of config (config.mapper.go)\<close>

definition config_objects :: "db \<Rightarrow> config_item list" where
  "config_objects d =
     map (\<lambda>r. \<lparr>ci_id = cr_id r, ci_key = cr_key r, ci_value = cr_value r\<rparr>) (sort_key cr_key (configs d))"

definition select_configs :: "config_item_filter list \<Rightarrow> db \<Rightarrow> config_item list" where
  "select_configs fs d =
     filter (\<lambda>c. fs = [] \<or> Some (ci_key c) \<in> set (map cf_key fs)) (config_objects d)"

definition insert_config :: "string \<Rightarrow> string \<Rightarrow> db \<Rightarrow> goerr + db \<times> nat" where
  "insert_config k v d =
     (if k \<in> set (map cr_key (configs d)) then Inl (ErrS ''UNIQUE constraint failed: config.key'')
      else Inr (d\<lparr>configs := configs d @ [\<lparr>cr_id = next_config d, cr_key = k, cr_value = v\<rparr>],
                  next_config := next_config d + 1\<rparr>, next_config d))"

definition delete_config :: "string \<Rightarrow> db \<Rightarrow> goerr + db \<times> nat" where
  "delete_config k d = Inr (d\<lparr>configs := filter (\<lambda>r. cr_key r \<noteq> k) (configs d)\<rparr>,
                            length (filter (\<lambda>r. cr_key r = k) (configs d)))"

definition update_config :: "string \<Rightarrow> string \<Rightarrow> nat \<Rightarrow> db \<Rightarrow> goerr + db \<times> nat" where
  "update_config k v i d =
     (let hit = filter (\<lambda>r. cr_id r = i) (configs d) in
      if hit \<noteq> [] \<and> (\<exists>r \<in> set (configs d). cr_id r \<noteq> i \<and> cr_key r = k)
      then Inl (ErrS ''UNIQUE constraint failed: config.key'')
      else Inr (d\<lparr>configs := map (\<lambda>r. if cr_id r = i then r\<lparr>cr_key := k, cr_value := v\<rparr> else r)
                                (configs d)\<rparr>, length hit))"

definition config_fetch_err :: "goerr \<Rightarrow> goerr" where
  "config_fetch_err = wrapf (''Failed to fetch from '' @ quoted ''config'' @ '' table: '')"

definition pick_config_stmt :: "env \<Rightarrow> nat \<Rightarrow> config_item_filter \<Rightarrow> unit io" where
  "pick_config_stmt E n f = (case cf_key f of
       None \<Rightarrow> fail (ErrS ''Cannot filter on empty ConfigItemFilter'')
     | Some _ \<Rightarrow>
         if n = 1 then prepare E ''configItemObjectsByKey''
         else on_err (wrapf (''Failed to get '' @ quoted ''configItemObjects'' @ '' prepared statement: ''))
                (step E (Sql ''string configItemObjectsByKey'')))"

definition getConfigItems :: "env \<Rightarrow> config_item_filter list \<Rightarrow> config_item list io" where
  "getConfigItems E fs = on_err config_fetch_err (query_stmt E ''config'' (select_configs fs))"

definition GetConfigItems :: "env \<Rightarrow> config_item_filter list \<Rightarrow> config_item list io" where
  "GetConfigItems E fs =
     andthen (if fs = [] then prepare E ''configItemObjects'' else ret ())
     (andthen (for_each (pick_config_stmt E (length fs)) fs)
     (on_err config_fetch_err (getConfigItems E fs)))"

definition GetConfigItem :: "env \<Rightarrow> string \<Rightarrow> config_item io" where
  "GetConfigItem E k =
     bind (on_err config_fetch_err (GetConfigItems E [\<lparr>cf_key = Some k\<rparr>]))
     (\<lambda>objects. case objects of
        [] \<Rightarrow> fail (StatusErr 404 ''ConfigItem not found'')
      | [x] \<Rightarrow> ret x
      | _ \<Rightarrow> fail (ErrS (''More than one '' @ quoted ''config'' @ '' entry matches'')))"

definition GetConfigItemID :: "env \<Rightarrow> string \<Rightarrow> nat io" where
  "GetConfigItemID E k =
     andthen (prepare E ''configItemID'')
     (bind (on_err (wrapf (''Failed to get '' @ quoted ''config'' @ '' ID: ''))
              (query_stmt E ''configItemID'' (\<lambda>d. [cr_id r. r \<leftarrow> configs d, cr_key r = k])))
     (\<lambda>ids. case ids of
        [] \<Rightarrow> fail (StatusErr 404 ''ConfigItem not found'')
      | i # _ \<Rightarrow> ret i))"

definition ConfigItemExists :: "env \<Rightarrow> string \<Rightarrow> bool io" where
  "ConfigItemExists E k =
     bind (attempt (GetConfigItemID E k))
     (\<lambda>r. case r of
        Inl e \<Rightarrow> if is_not_found e then ret False else fail e
      | Inr _ \<Rightarrow> ret True)"

definition CreateConfigItem :: "env \<Rightarrow> config_item \<Rightarrow> nat io" where
  "CreateConfigItem E object =
     bind (on_err (wrapf ''Failed to check for duplicates: '') (ConfigItemExists E (ci_key object)))
     (\<lambda>exists.
        if exists
        then fail (StatusErr 409 (''This '' @ quoted ''config'' @ '' entry already exists''))
        else
          andthen (prepare E ''configItemCreate'')
          (bind (on_err (wrapf (''Failed to create '' @ quoted ''config'' @ '' entry: ''))
                   (exec_stmt E ''configItemCreate'' (insert_config (ci_key object) (ci_value object))))
          (\<lambda>i.
          andthen (on_err (wrapf (''Failed to fetch '' @ quoted ''config'' @ '' entry ID: ''))
                     (step E (Sql ''lastInsertId'')))
          (ret i))))"

definition DeleteConfigItem :: "env \<Rightarrow> string \<Rightarrow> unit io" where
  "DeleteConfigItem E k =
     andthen (prepare E ''configItemDeleteByKey'')
     (bind (on_err (wrapf (''Delete '' @ quoted ''config'' @ '': ''))
              (exec_stmt E ''configItemDeleteByKey'' (delete_config k)))
     (\<lambda>res. bind (rows_affected E res)
     (\<lambda>n. if n = 0 then fail (StatusErr 404 ''ConfigItem not found'')
          else if n > 1 then fail (ErrS (''Query deleted '' @ show_nat n @ '' ConfigItem rows instead of 1''))
          else ret ())))"

definition UpdateConfigItem :: "env \<Rightarrow> string \<Rightarrow> config_item \<Rightarrow> unit io" where
  "UpdateConfigItem E k object =
     bind (GetConfigItemID E k) (\<lambda>i.
     andthen (prepare E ''configItemUpdate'')
     (bind (on_err (wrapf (''Update '' @ quoted ''config'' @ '' entry failed: ''))
              (exec_stmt E ''configItemUpdate'' (update_config (ci_key object) (ci_value object) i)))
     (\<lambda>res. bind (rows_affected E res)
     (\<lambda>n. if n \<noteq> 1 then fail (ErrS (''Query updated '' @ show_nat n @ '' rows instead of 1''))
          else ret ()))))"

section \<open>Read-only methods change nothing\<close>

context trace_blind
begin

lemma keeps_pick_stmts [keeps_rules]: "keeps P (for_each (pick_stmt E n) fs)"
  unfolding pick_stmt_def by (intro keeps_rules keeps_step)

lemma keeps_GetServices [keeps_rules]: "keeps P (GetServices E fs)"
  unfolding GetServices_def getServices_def by (intro keeps_rules keeps_step)

lemma keeps_GetService [keeps_rules]: "keeps P (GetService E member srv)"
  unfolding GetService_def by (intro keeps_rules)

lemma keeps_GetServiceID [keeps_rules]: "keeps P (GetServiceID E member srv)"
  unfolding GetServiceID_def by (intro keeps_rules keeps_step)

lemma keeps_ServiceExists [keeps_rules]: "keeps P (ServiceExists E member srv)"
  unfolding ServiceExists_def by (intro keeps_rules)

lemma keeps_rows_affected [keeps_rules]: "keeps P (rows_affected E n)"
  unfolding rows_affected_def by (intro keeps_rules)

lemma keeps_GetConfigItem [keeps_rules]: "keeps P (GetConfigItem E k)"
  unfolding GetConfigItem_def GetConfigItems_def getConfigItems_def pick_config_stmt_def
  by (intro keeps_rules keeps_step)

lemma keeps_GetConfigItemID [keeps_rules]: "keeps P (GetConfigItemID E k)"
  unfolding GetConfigItemID_def by (intro keeps_rules keeps_step)

lemma keeps_ConfigItemExists [keeps_rules]: "keeps P (ConfigItemExists E k)"
  unfolding ConfigItemExists_def by (intro keeps_rules)

end

section \<open>Every mapper method keeps the schema, and none touches files\<close>

lemma db_ok_simps [simp]:
  "db_ok (d\<lparr>services := s, next_service := n\<rparr>) \<longleftrightarrow>
     members_keys d \<and> services_schema (d\<lparr>services := s, next_service := n\<rparr>) \<and> config_schema d"
  "db_ok (d\<lparr>services := s\<rparr>) \<longleftrightarrow>
     members_keys d \<and> services_schema (d\<lparr>services := s\<rparr>) \<and> config_schema d"
  "db_ok (d\<lparr>configs := c, next_config := n\<rparr>) \<longleftrightarrow>
     members_keys d \<and> services_schema d \<and> config_schema (d\<lparr>configs := c, next_config := n\<rparr>)"
  "db_ok (d\<lparr>configs := c\<rparr>) \<longleftrightarrow>
     members_keys d \<and> services_schema d \<and> config_schema (d\<lparr>configs := c\<rparr>)"
  by (auto simp: db_ok_def members_keys_def services_schema_def config_schema_def)

lemma member_id_of_mem: "member_id_of d m = Some i \<Longrightarrow> i \<in> set (map m_id (members d))"
  by (auto simp: member_id_of_def find_Some_iff)

lemma insert_service_ok:
  assumes d: "db_ok d" and ins: "insert_service m s d = Inr (d', x)"
  shows "db_ok d'"
proof -
  obtain i where i: "member_id_of d m = Some i"
    and new: "(i, s) \<notin> (\<lambda>r. (sr_member r, sr_service r)) ` set (services d)"
    and d': "d' = d\<lparr>services := services d @ [\<lparr>sr_id = next_service d, sr_member = i, sr_service = s\<rparr>],
                 next_service := next_service d + 1\<rparr>"
    using ins by (auto simp: insert_service_def split: option.splits if_splits)
  have "next_service d \<notin> sr_id ` set (services d)"
    using d by (auto simp: db_ok_def services_schema_def)
  with d i new d' member_id_of_mem [OF i] show ?thesis
    by (simp add: db_ok_def [of d] services_schema_def members_keys_def less_SucI)
qed

lemma distinct_map_filterI: "distinct (map f xs) \<Longrightarrow> distinct (map f (filter p xs))"
  by (induction xs) auto

lemma delete_rows_ok: "db_ok d \<Longrightarrow> delete_rows p d = Inr (d', x) \<Longrightarrow> db_ok d'"
  by (auto simp: delete_rows_def db_ok_def [of d] services_schema_def intro: distinct_map_filterI)

text \<open>Rewriting the rows with one id keeps every other key distinct.\<close>

lemma distinct_map_upd:
  assumes "distinct (map key xs)" and "distinct (map k xs)"
    and "\<And>x. x \<in> set xs \<Longrightarrow> key x \<noteq> i \<Longrightarrow> k x \<noteq> v" and "\<And>x. key x = i \<Longrightarrow> k (g x) = v"
  shows "distinct (map k (map (\<lambda>x. if key x = i then g x else x) xs))"
proof -
  have "distinct xs" and key: "inj_on key (set xs)" and k: "inj_on k (set xs)"
    using assms(1,2) by (auto simp: distinct_map)
  moreover have "inj_on (\<lambda>x. k (if key x = i then g x else x)) (set xs)"
    using assms(3,4) key k by (auto simp: inj_on_def)
  ultimately show ?thesis by (simp add: distinct_map comp_def)
qed

lemma update_service_row_ok:
  assumes d: "db_ok d" and upd: "update_service_row m s i d = Inr (d', x)"
  shows "db_ok d'"
proof (cases "d' = d")
  case False
  let ?g = "\<lambda>k r. r\<lparr>sr_member := k, sr_service := s\<rparr>"
  let ?xs = "\<lambda>k. map (\<lambda>r. if sr_id r = i then ?g k r else r) (services d)"
  obtain k where k: "member_id_of d m = Some k"
    and new: "\<not> (\<exists>r \<in> set (services d). sr_id r \<noteq> i \<and> sr_member r = k \<and> sr_service r = s)"
    and d': "d' = d\<lparr>services := ?xs k\<rparr>"
    using upd False by (auto simp: update_service_row_def Let_def split: option.splits if_splits)
  have "map sr_id (?xs k) = map sr_id (services d)"
    by simp
  then have ids: "distinct (map sr_id (?xs k))"
    using d unfolding db_ok_def services_schema_def by metis
  have "distinct (map (\<lambda>r. (sr_member r, sr_service r)) (?xs k))"
    using d new
    by (intro distinct_map_upd [where v = "(k, s)"]) (auto simp: db_ok_def services_schema_def)
  with d d' ids member_id_of_mem [OF k] show ?thesis
    by (auto simp: db_ok_def [of d] services_schema_def)
qed (use d in simp)

lemma insert_config_ok:
  assumes d: "db_ok d" and ins: "insert_config k v d = Inr (d', x)"
  shows "db_ok d'"
proof -
  have "next_config d \<notin> cr_id ` set (configs d)"
    using d by (auto simp: db_ok_def config_schema_def)
  with d ins show ?thesis
    by (auto simp: insert_config_def db_ok_def [of d] config_schema_def less_SucI split: if_splits)
qed

lemma delete_config_ok: "db_ok d \<Longrightarrow> delete_config k d = Inr (d', x) \<Longrightarrow> db_ok d'"
  by (auto simp: delete_config_def db_ok_def [of d] config_schema_def intro: distinct_map_filterI)

lemma update_config_ok:
  assumes d: "db_ok d" and upd: "update_config k v i d = Inr (d', x)"
  shows "db_ok d'"
proof -
  let ?xs = "map (\<lambda>r. if cr_id r = i then r\<lparr>cr_key := k, cr_value := v\<rparr> else r) (configs d)"
  have d': "d' = d\<lparr>configs := ?xs\<rparr>"
    and new: "filter (\<lambda>r. cr_id r = i) (configs d) = [] \<or>
              \<not> (\<exists>r \<in> set (configs d). cr_id r \<noteq> i \<and> cr_key r = k)"
    using upd by (auto simp: update_config_def Let_def split: if_splits)
  have "map cr_id ?xs = map cr_id (configs d)"
    by simp
  then have ids: "distinct (map cr_id ?xs)"
    using d unfolding db_ok_def config_schema_def by metis
  have "distinct (map cr_key ?xs)"
  proof (cases "filter (\<lambda>r. cr_id r = i) (configs d) = []")
    case True
    then have "?xs = configs d" by (auto simp: filter_empty_conv intro: map_idI)
    with d show ?thesis by (simp add: db_ok_def config_schema_def)
  next
    case False
    with d new show ?thesis
      by (intro distinct_map_upd [where v = k]) (auto simp: db_ok_def config_schema_def)
  qed
  with d d' ids show ?thesis
    by (auto simp: db_ok_def [of d] config_schema_def)
qed

lemma keeps_exec_stmt_ok [keeps_rules]:
  "keeps (\<lambda>w. db_ok (w_db w)) (exec_stmt E n (insert_service m s))"
  "keeps (\<lambda>w. db_ok (w_db w)) (exec_stmt E n (delete_by_member_service m s))"
  "keeps (\<lambda>w. db_ok (w_db w)) (exec_stmt E n (delete_by_member m))"
  "keeps (\<lambda>w. db_ok (w_db w)) (exec_stmt E n (update_service_row m s i))"
  "keeps (\<lambda>w. db_ok (w_db w)) (exec_stmt E n (insert_config k v))"
  "keeps (\<lambda>w. db_ok (w_db w)) (exec_stmt E n (delete_config k))"
  "keeps (\<lambda>w. db_ok (w_db w)) (exec_stmt E n (update_config k v i))"
  by (rule keeps_exec_stmt_inv;
      auto simp: delete_by_member_service_def delete_by_member_def
           dest: insert_service_ok delete_rows_ok update_service_row_ok
                 insert_config_ok delete_config_ok update_config_ok)+

lemmas mapper_defs =
  CreateService_def DeleteService_def DeleteServices_def UpdateService_def
  CreateConfigItem_def DeleteConfigItem_def UpdateConfigItem_def

lemma keeps_mapper_ok [keeps_rules]:
  "keeps (\<lambda>w. db_ok (w_db w)) (CreateService E obj)"
  "keeps (\<lambda>w. db_ok (w_db w)) (DeleteService E m s)"
  "keeps (\<lambda>w. db_ok (w_db w)) (DeleteServices E m)"
  "keeps (\<lambda>w. db_ok (w_db w)) (UpdateService E m s obj)"
  "keeps (\<lambda>w. db_ok (w_db w)) (CreateConfigItem E c)"
  "keeps (\<lambda>w. db_ok (w_db w)) (DeleteConfigItem E k)"
  "keeps (\<lambda>w. db_ok (w_db w)) (UpdateConfigItem E k c)"
  unfolding mapper_defs by (intro keeps_rules invv.keeps_step)+

lemma keeps_exec_members [keeps_rules]:
  "keeps (\<lambda>w. members (w_db w) = ms) (exec_stmt E n (insert_service m s))"
  "keeps (\<lambda>w. members (w_db w) = ms) (exec_stmt E n (delete_by_member_service m s))"
  by (rule keeps_exec_stmt_inv;
      auto simp: insert_service_def delete_by_member_service_def delete_rows_def
           split: option.splits if_splits)+

lemma keeps_mapper_members [keeps_rules]:
  "keeps (\<lambda>w. members (w_db w) = ms) (CreateService E obj)"
  "keeps (\<lambda>w. members (w_db w) = ms) (DeleteService E m s)"
  unfolding CreateService_def DeleteService_def
  by (intro keeps_rules invv.keeps_step invv.keeps_ServiceExists invv.keeps_rows_affected)+

lemma keeps_exec_configs [keeps_rules]:
  "keeps (\<lambda>w. configs (w_db w) = cs) (exec_stmt E n (insert_service m s))"
  "keeps (\<lambda>w. configs (w_db w) = cs) (exec_stmt E n (delete_by_member_service m s))"
  by (rule keeps_exec_stmt_inv;
      auto simp: insert_service_def delete_by_member_service_def delete_rows_def
           split: option.splits if_splits)+

lemma keeps_mapper_configs [keeps_rules]:
  "keeps (\<lambda>w. configs (w_db w) = cs) (CreateService E obj)"
  "keeps (\<lambda>w. configs (w_db w) = cs) (DeleteService E m s)"
  unfolding CreateService_def DeleteService_def
  by (intro keeps_rules invv.keeps_step invv.keeps_ServiceExists invv.keeps_rows_affected)+

lemma keeps_mapper_fs [keeps_rules]:
  "keeps (\<lambda>w. w_fs w = v) (CreateService E obj)"
  "keeps (\<lambda>w. w_fs w = v) (DeleteService E m s)"
  "keeps (\<lambda>w. w_fs w = v) (DeleteServices E m)"
  "keeps (\<lambda>w. w_fs w = v) (UpdateService E m s obj)"
  "keeps (\<lambda>w. w_fs w = v) (CreateConfigItem E c)"
  "keeps (\<lambda>w. w_fs w = v) (DeleteConfigItem E k)"
  "keeps (\<lambda>w. w_fs w = v) (UpdateConfigItem E k c)"
  unfolding mapper_defs by (intro keeps_rules fsv.keeps_step)+

section \<open>The tables as a set of pairs and a map\<close>

text \<open>
  What the rest of the program relies on: \<open>services\<close> is a set of (member, service) pairs and \<open>config\<close>
  a finite map from keys to values.
\<close>

definition abs_services :: "db \<Rightarrow> (string \<times> string) set" where
  "abs_services d = {(m_name m, sr_service r) | m r.
     m \<in> set (members d) \<and> r \<in> set (services d) \<and> sr_member r = m_id m}"

definition abs_config :: "db \<Rightarrow> string \<Rightarrow> string option" where
  "abs_config d = map_of (map (\<lambda>r. (cr_key r, cr_value r)) (configs d))"

lemma select_service_ids_iff:
  "select_service_ids m s d \<noteq> [] \<longleftrightarrow> (m, s) \<in> abs_services d"
proof -
  have "(m, s) \<in> abs_services d \<longleftrightarrow> (\<exists>r \<in> set (services d). \<exists>x \<in> set (members d).
          sr_member r = m_id x \<and> m_name x = m \<and> sr_service r = s)"
    by (auto simp: abs_services_def)
  also have "\<dots> \<longleftrightarrow> set (select_service_ids m s d) \<noteq> {}"
    by (auto simp: select_service_ids_def)
  finally show ?thesis by simp
qed

lemma m_name_inj: "members_keys d \<Longrightarrow> x \<in> set (members d) \<Longrightarrow> y \<in> set (members d) \<Longrightarrow>
  m_name x = m_name y \<Longrightarrow> x = y"
  by (auto simp: members_keys_def distinct_map inj_on_def)

lemma member_id_of_unique:
  assumes "members_keys d" and "x \<in> set (members d)"
  shows "member_id_of d (m_name x) = Some (m_id x)"
proof -
  have "find (\<lambda>m. m_name m = m_name x) (members d) = Some x"
    using assms by (intro find_unique) (auto intro: m_name_inj)
  then show ?thesis by (simp add: member_id_of_def)
qed

lemma member_id_of_SomeE:
  assumes "member_id_of d m = Some i"
  obtains x where "x \<in> set (members d)" "m_name x = m" "m_id x = i"
  using assms by (auto simp: member_id_of_def dest: find_SomeD)

lemma m_id_inj: "members_keys d \<Longrightarrow> x \<in> set (members d) \<Longrightarrow> y \<in> set (members d) \<Longrightarrow>
  m_id x = m_id y \<Longrightarrow> x = y"
  by (auto simp: members_keys_def distinct_map inj_on_def)

lemma in_abs_services: "(a, b) \<in> abs_services d \<longleftrightarrow>
  (\<exists>x \<in> set (members d). \<exists>r \<in> set (services d). m_name x = a \<and> sr_service r = b \<and> sr_member r = m_id x)"
  unfolding abs_services_def by blast

lemma abs_services_add:
  "(a, b) \<in> abs_services (d\<lparr>services := services d @ [r], next_service := n\<rparr>) \<longleftrightarrow>
     (a, b) \<in> abs_services d \<or>
     b = sr_service r \<and> (\<exists>x \<in> set (members d). m_name x = a \<and> m_id x = sr_member r)"
  by (force simp: in_abs_services)

lemma abs_insert_service:
  assumes d: "db_ok d" and ins: "insert_service m s d = Inr (d', i)"
  shows "(m, s) \<notin> abs_services d \<and> abs_services d' = insert (m, s) (abs_services d)"
proof -
  obtain k where k: "member_id_of d m = Some k"
    and new: "(k, s) \<notin> (\<lambda>r. (sr_member r, sr_service r)) ` set (services d)"
    and d': "d' = d\<lparr>services := services d @ [\<lparr>sr_id = next_service d, sr_member = k, sr_service = s\<rparr>],
                 next_service := next_service d + 1\<rparr>"
    using ins by (auto simp: insert_service_def split: option.splits if_splits)
  from k obtain x where x: "x \<in> set (members d)" "m_name x = m" "m_id x = k"
    by (rule member_id_of_SomeE)
  have mk: "members_keys d" using d by (simp add: db_ok_def)
  have at_k: "y = x" if "y \<in> set (members d)" "m_id y = k" for y
    using m_id_inj [OF mk that(1) x(1)] that(2) x(3) by simp
  have at_m: "y = x" if "y \<in> set (members d)" "m_name y = m" for y
    using m_name_inj [OF mk that(1) x(1)] that(2) x(2) by simp
  have "(m, s) \<notin> abs_services d"
  proof
    assume "(m, s) \<in> abs_services d"
    then obtain y r where "y \<in> set (members d)" "m_name y = m" "r \<in> set (services d)"
      "sr_member r = m_id y" "sr_service r = s"
      by (auto simp: abs_services_def)
    with at_m x new show False by force
  qed
  moreover have "(\<exists>y \<in> set (members d). m_name y = a \<and> m_id y = k) \<longleftrightarrow> a = m" for a
    using at_k x by metis
  then have "(a, b) \<in> abs_services d' \<longleftrightarrow> (a, b) \<in> insert (m, s) (abs_services d)" for a b
    unfolding d' abs_services_add by auto
  ultimately show ?thesis by auto
qed

lemma abs_delete_service:
  assumes d: "db_ok d" and del: "delete_by_member_service m s d = Inr (d', n)"
  shows "abs_services d' = abs_services d - {(m, s)} \<and> (n = 0 \<longleftrightarrow> (m, s) \<notin> abs_services d)"
proof -
  have mk: "members_keys d" using d by (simp add: db_ok_def)
  have hit: "Some (sr_member r) = member_id_of d m \<longleftrightarrow> m_name x = m"
    if "x \<in> set (members d)" "sr_member r = m_id x" for x r
    using that member_id_of_unique [OF mk that(1)] m_id_inj [OF mk]
    by (metis member_id_of_SomeE)
  have fk: "\<exists>x \<in> set (members d). sr_member r = m_id x" if "r \<in> set (services d)" for r
    using d that by (auto simp: db_ok_def services_schema_def)
  have d': "d' = d\<lparr>services := filter (\<lambda>r. \<not> (Some (sr_member r) = member_id_of d m \<and> sr_service r = s))
      (services d)\<rparr>"
    and n: "n = length (filter (\<lambda>r. Some (sr_member r) = member_id_of d m \<and> sr_service r = s) (services d))"
    using del by (auto simp: delete_by_member_service_def delete_rows_def)
  have "abs_services d' = abs_services d - {(m, s)}"
    unfolding d' abs_services_def using hit by auto
  moreover have "n = 0 \<longleftrightarrow> (m, s) \<notin> abs_services d"
  proof
    assume "n = 0"
    then have "\<forall>r \<in> set (services d). \<not> (Some (sr_member r) = member_id_of d m \<and> sr_service r = s)"
      by (simp add: n filter_empty_conv)
    then show "(m, s) \<notin> abs_services d"
      using hit by (auto simp: abs_services_def)
  next
    assume abs: "(m, s) \<notin> abs_services d"
    have "\<not> (Some (sr_member r) = member_id_of d m \<and> sr_service r = s)"
      if r: "r \<in> set (services d)" for r
    proof -
      obtain x where "x \<in> set (members d)" "sr_member r = m_id x" using fk [OF r] by blast
      with abs r hit [of x r] show ?thesis by (auto simp: abs_services_def)
    qed
    then show "n = 0" by (simp add: n filter_empty_conv)
  qed
  ultimately show ?thesis by simp
qed

section \<open>What the methods of services return and change\<close>

lemma exec_stmt_OkE [ok_elims]:
  assumes "exec_stmt E name f w = (Ok x, w')"
  obtains d where "f (w_db w) = Inr (d, x)" and "w_db w' = d"
  using assms by (auto simp: exec_stmt_def elim!: ok_elims split: sum.splits)

lemma query_stmt_OkE [ok_elims]:
  assumes "query_stmt E name q w = (Ok x, w')"
  obtains "x = q (w_db w)" and "w_db w' = w_db w"
  using assms by (auto simp: query_stmt_def elim!: ok_elims)

lemma prepare_OkE [ok_elims]:
  assumes "prepare E name w = (Ok x, w')"
  obtains "w_db w' = w_db w"
  using assms by (auto simp: prepare_def elim!: ok_elims)

lemma rows_affected_OkE [ok_elims]:
  assumes "rows_affected E n w = (Ok x, w')"
  obtains "x = n" and "w_db w' = w_db w"
  using assms by (auto simp: rows_affected_def elim!: ok_elims)

lemma step_Er: "step E ev w = (Er e, w') \<Longrightarrow> status_of e = None"
  by (auto simp: step_def split: option.splits)

lemma on_err_step_Er: "on_err (wrapf p) (step E ev) w = (Er e, w') \<Longrightarrow> status_of e = None"
  by (cases "step E ev" w rule: io_cases) (auto simp: run dest: step_Er)

lemma prepare_Er: "prepare E name w = (Er e, w') \<Longrightarrow> status_of e = None"
  unfolding prepare_def by (rule on_err_step_Er)

lemma query_stmt_Er: "query_stmt E name q w = (Er e, w') \<Longrightarrow> status_of e = None"
  by (auto simp: query_stmt_def andthen_def bind_def dest: step_Er split: prod.splits res.splits)

lemma no_panic_stmts [simp]:
  "step E ev w \<noteq> (Panic s, w')" "prepare E name w \<noteq> (Panic s, w')"
  "query_stmt E name q w \<noteq> (Panic s, w')"
  by (auto simp: prepare_def query_stmt_def on_err_def attempt_def step_def andthen_def bind_def
           split: option.splits prod.splits res.splits sum.splits)

lemma np_stmts [np_rules]:
  "no_panic (prepare E name)" "no_panic (query_stmt E name q)" "no_panic (exec_stmt E name f)"
  by (auto simp: no_panic_def prepare_def query_stmt_def exec_stmt_def on_err_def attempt_def step_def
      andthen_def bind_def split: option.splits prod.splits res.splits sum.splits)

lemma np_mapper [np_rules]:
  "no_panic (GetServices E fs)" "no_panic (GetServiceID E m s)" "no_panic (ServiceExists E m s)"
  "no_panic (CreateService E x)" "no_panic (DeleteService E m s)"
  "no_panic (GetConfigItem E k)" "no_panic (GetConfigItems E cs)" "no_panic (GetConfigItemID E k)"
  "no_panic (ConfigItemExists E k)" "no_panic (CreateConfigItem E c)" "no_panic (DeleteConfigItem E k)"
  "no_panic (UpdateConfigItem E k c)"
  unfolding GetServices_def getServices_def pick_stmt_def GetServiceID_def ServiceExists_def
    CreateService_def DeleteService_def rows_affected_def GetConfigItem_def GetConfigItems_def
    getConfigItems_def pick_config_stmt_def GetConfigItemID_def ConfigItemExists_def
    CreateConfigItem_def DeleteConfigItem_def UpdateConfigItem_def
  by (intro np_rules)+

text \<open>The two lookups by key have one shape: prepare, query, first row or status 404.\<close>

definition lookup_id :: "env \<Rightarrow> string \<Rightarrow> (goerr \<Rightarrow> goerr) \<Rightarrow> (db \<Rightarrow> nat list) \<Rightarrow> string \<Rightarrow> nat io" where
  "lookup_id E name f q msg =
     andthen (prepare E name)
     (bind (on_err f (query_stmt E name q))
     (\<lambda>ids. case ids of [] \<Rightarrow> fail (StatusErr 404 msg) | i # _ \<Rightarrow> ret i))"

lemma GetServiceID_lookup: "GetServiceID E m s =
    lookup_id E ''serviceID'' (wrapf (''Failed to get '' @ quoted ''services'' @ '' ID: ''))
      (select_service_ids m s) ''Service not found''"
  by (simp add: GetServiceID_def lookup_id_def)

lemma GetConfigItemID_lookup: "GetConfigItemID E k =
    lookup_id E ''configItemID'' (wrapf (''Failed to get '' @ quoted ''config'' @ '' ID: ''))
      (\<lambda>d. [cr_id r. r \<leftarrow> configs d, cr_key r = k]) ''ConfigItem not found''"
  by (simp add: GetConfigItemID_def lookup_id_def)

lemma lookup_id_Ok:
  assumes "lookup_id E name f q msg w = (Ok i, w')"
  shows "i \<in> set (q (w_db w)) \<and> w_db w' = w_db w"
  using assms by (auto simp: lookup_id_def elim!: ok_elims split: list.splits)

lemma lookup_id_not_found:
  assumes "lookup_id E name (wrapf p) q msg w = (Er e, w')" and "is_not_found e"
  shows "q (w_db w) = [] \<and> w_db w' = w_db w"
proof -
  obtain w1 where p: "prepare E name w = (Ok (), w1)"
    using assms by (cases "prepare E name" w rule: io_cases)
      (auto simp: lookup_id_def run is_not_found_def dest: prepare_Er)
  then have db1: "w_db w1 = w_db w" by (auto elim: ok_elims)
  show ?thesis
  proof (cases "query_stmt E name q" w1 rule: io_cases)
    case (Ok ids w2)
    then have "ids = q (w_db w1)" "w_db w2 = w_db w1" by (auto elim: ok_elims)
    with assms(1) p Ok db1 show ?thesis
      by (auto simp: lookup_id_def run bind_def split: list.splits)
  next
    case (Er e' w2)
    then have "status_of e' = None" by (rule query_stmt_Er)
    with assms p Er show ?thesis
      by (auto simp: lookup_id_def run bind_def is_not_found_def)
  qed simp
qed

lemma ServiceExists_Ok:
  assumes "ServiceExists E m s w = (Ok b, w')"
  shows "(b \<longleftrightarrow> (m, s) \<in> abs_services (w_db w)) \<and> w_db w' = w_db w"
proof -
  obtain r w1 where a: "attempt (GetServiceID E m s) w = (Ok r, w1)"
    and k: "(case r of Inl e \<Rightarrow> if is_not_found e then ret False else fail e | Inr _ \<Rightarrow> ret True) w1 = (Ok b, w')"
    using assms unfolding ServiceExists_def by (rule bind_OkE)
  from a show ?thesis
  proof (rule attempt_OkE)
    fix x assume "r = Inr x" and "GetServiceID E m s w = (Ok x, w1)"
    then have "x \<in> set (select_service_ids m s (w_db w)) \<and> w_db w1 = w_db w"
      unfolding GetServiceID_lookup by (blast dest: lookup_id_Ok)
    then show ?thesis using k \<open>r = Inr x\<close> select_service_ids_iff [of m s "w_db w"] by auto
  next
    fix e assume r: "r = Inl e" and "GetServiceID E m s w = (Er e, w1)"
    moreover have nf: "is_not_found e" using k r by (auto split: if_splits)
    ultimately have "select_service_ids m s (w_db w) = [] \<and> w_db w1 = w_db w"
      unfolding GetServiceID_lookup by (blast dest: lookup_id_not_found)
    then show ?thesis using k r nf select_service_ids_iff [of m s "w_db w"] by auto
  qed
qed

lemma CreateService_Ok:
  assumes ok: "db_ok (w_db w)" and run: "CreateService E obj w = (Ok i, w')"
  shows "(sv_member obj, sv_service obj) \<notin> abs_services (w_db w) \<and>
         abs_services (w_db w') = insert (sv_member obj, sv_service obj) (abs_services (w_db w))"
proof -
  obtain w1 where ex: "ServiceExists E (sv_member obj) (sv_service obj) w = (Ok False, w1)"
    and ins: "\<exists>i. insert_service (sv_member obj) (sv_service obj) (w_db w1) = Inr (w_db w', i)"
    using run unfolding CreateService_def by (fastforce elim!: ok_elims split: if_splits)
  from ServiceExists_Ok [OF ex] have "w_db w1 = w_db w" by simp
  with ins ok show ?thesis by (auto dest: abs_insert_service)
qed

lemma DeleteService_Ok:
  assumes ok: "db_ok (w_db w)" and run: "DeleteService E m s w = (Ok (), w')"
  shows "(m, s) \<in> abs_services (w_db w) \<and> abs_services (w_db w') = abs_services (w_db w) - {(m, s)}"
proof -
  obtain n where "delete_by_member_service m s (w_db w) = Inr (w_db w', n)" and "n \<noteq> 0"
    using run unfolding DeleteService_def by (auto elim!: ok_elims split: if_splits)
  with ok show ?thesis by (auto dest: abs_delete_service)
qed

text \<open>The rows \<open>GetServices\<close> returns.\<close>

lemma set_service_objects:
  "(sv_member ` set (service_objects d)) \<subseteq> m_name ` set (members d)"
  "(m, s) \<in> abs_services d \<longleftrightarrow> (\<exists>x \<in> set (service_objects d). sv_member x = m \<and> sv_service x = s)"
  by (auto simp: service_objects_def in_abs_services)

lemma GetServices_Ok:
  assumes "GetServices E fs w = (Ok xs, w')"
  shows "xs = select_services fs (w_db w) \<and> w_db w' = w_db w"
proof -
  have loop: "for_each (pick_stmt E n) fs w1 = (Ok (), w2) \<Longrightarrow> w_db w2 = w_db w1" for n w1 w2
    using keepsD [OF dbv.keeps_pick_stmts refl] .
  show ?thesis
    using assms unfolding GetServices_def getServices_def
    by (auto elim!: ok_elims dest!: loop split: if_splits)
qed

text \<open>
  The contract of the table: a registry of (member, service) pairs in which creating an entry that
  is there fails and deleting one that is not there fails.
\<close>

locale registry =
  fixes view :: "'s \<Rightarrow> ('m \<times> 'v) set" and inv :: "'s \<Rightarrow> bool"
    and add :: "'m \<Rightarrow> 'v \<Rightarrow> 's \<Rightarrow> nat res \<times> 's" and del :: "'m \<Rightarrow> 'v \<Rightarrow> 's \<Rightarrow> unit res \<times> 's"
  assumes add_ok: "inv w \<Longrightarrow> add m v w = (Ok i, w') \<Longrightarrow>
      (m, v) \<notin> view w \<and> view w' = insert (m, v) (view w)"
    and del_ok: "inv w \<Longrightarrow> del m v w = (Ok (), w') \<Longrightarrow>
      (m, v) \<in> view w \<and> view w' = view w - {(m, v)}"
    and add_inv: "inv w \<Longrightarrow> add m v w = (r, w') \<Longrightarrow> inv w'"
    and del_inv: "inv w \<Longrightarrow> del m v w = (u, w') \<Longrightarrow> inv w'"
begin

text \<open>Undoing a creation restores the registry, whatever other work lies between.\<close>

lemma add_then_del:
  assumes "inv w" and "add m v w = (Ok i, w1)" and "view w2 = view w1" and "inv w2"
    and "del m v w2 = (Ok (), w3)"
  shows "view w3 = view w"
  using add_ok [OF assms(1,2)] del_ok [OF assms(4,5)] assms(3) by auto

lemma del_then_add:
  assumes "inv w" and "del m v w = (Ok (), w1)" and "view w2 = view w1" and "inv w2"
    and "add m v w2 = (Ok i, w3)"
  shows "view w3 = view w"
  using del_ok [OF assms(1,2)] add_ok [OF assms(4,5)] assms(3) by auto

lemma add_twice_fails:
  assumes "inv w" and "add m v w = (Ok i, w1)" and "view w2 = view w1" and "inv w2"
  shows "\<not> (\<exists>j w3. add m v w2 = (Ok j, w3))"
  using add_ok [OF assms(1,2)] assms(3) add_ok [OF assms(4)] by blast

end

definition row_of :: "string \<Rightarrow> string \<Rightarrow> service" where
  "row_of m s = \<lparr>sv_id = 0, sv_member = m, sv_service = s\<rparr>"

interpretation svc: registry "\<lambda>w. abs_services (w_db w)" "\<lambda>w. db_ok (w_db w)"
  "\<lambda>m s. CreateService E (row_of m s)" "\<lambda>m s. DeleteService E m s" for E
proof
  show "db_ok (w_db w) \<Longrightarrow> CreateService E (row_of m v) w = (Ok i, w') \<Longrightarrow>
    (m, v) \<notin> abs_services (w_db w) \<and> abs_services (w_db w') = insert (m, v) (abs_services (w_db w))"
    for w m v i w'
    using CreateService_Ok [of w E "row_of m v" i w'] by (simp add: row_of_def)
qed (auto dest: DeleteService_Ok keepsD [OF keeps_mapper_ok(1)] keepsD [OF keeps_mapper_ok(2)])

lemmas database_evals [evals] = prepare_def query_stmt_def exec_stmt_def rows_affected_def quoted_def
  GetServices_def getServices_def pick_stmt_def filter_stmt_def select_services_def service_objects_def
  filter_matches_def member_id_of_def GetServiceID_def select_service_ids_def ServiceExists_def is_not_found_def
  CreateService_def row_of_def insert_service_def DeleteService_def delete_by_member_service_def delete_rows_def
  GetConfigItem_def GetConfigItems_def getConfigItems_def pick_config_stmt_def select_configs_def
  config_objects_def GetConfigItemID_def ConfigItemExists_def CreateConfigItem_def insert_config_def
  DeleteConfigItem_def delete_config_def UpdateConfigItem_def update_config_def

end
