(* ===== verification/ConfigStore.thy ===== *)
theory ConfigStore
  imports Database
begin

text \<open>
  Package \<open>config\<close> (config/config.go): the cluster-wide configuration as upsert, lookup and removal in
  one transaction each, over the mapper of the \<open>config\<close> table; and its contract, a key-value store.
\<close>

definition config_exists_err :: "string \<Rightarrow> goerr \<Rightarrow> goerr" where
  "config_exists_err k = errf (''failed to check if config '' @ squoted k @ '' exists: '')"

definition config_item :: "string \<Rightarrow> string \<Rightarrow> config_item" where
  "config_item k v = \<lparr>ci_id = 0, ci_key = k, ci_value = v\<rparr>"

definition SetConfig :: "env \<Rightarrow> string \<Rightarrow> string \<Rightarrow> unit io" where
  "SetConfig E k v =
     on_err (errf (''failed to set config '' @ squoted k @ '' into database: ''))
       (transaction E
         (bind (on_err (config_exists_err k) (ConfigItemExists E k))
         (\<lambda>exists. if exists then UpdateConfigItem E k (config_item k v)
                   else bind (CreateConfigItem E (config_item k v)) (\<lambda>_. ret ()))))"

definition GetConfig :: "env \<Rightarrow> string \<Rightarrow> config_item option io" where
  "GetConfig E k =
     on_err (errf (''failed to get config '' @ squoted k @ '' from database: ''))
       (transaction E
         (bind (on_err (config_exists_err k) (ConfigItemExists E k))
         (\<lambda>exists. if \<not> exists then ret None
                   else bind (GetConfigItem E k) (\<lambda>item. ret (Some item)))))"

definition DeleteConfig :: "env \<Rightarrow> string \<Rightarrow> unit io" where
  "DeleteConfig E k =
     on_err (errf (''failed to delete config '' @ squoted k @ '' from database: ''))
       (transaction E
         (bind (on_err (config_exists_err k) (ConfigItemExists E k))
         (\<lambda>exists. if \<not> exists then ret () else DeleteConfigItem E k)))"

lemma np_config [np_rules]:
  "no_panic (SetConfig E k v)" "no_panic (GetConfig E k)" "no_panic (DeleteConfig E k)"
  unfolding SetConfig_def GetConfig_def DeleteConfig_def by (intro np_rules)+

section \<open>The table as a map\<close>

lemma abs_config_iff:
  assumes "config_schema d"
  shows "abs_config d k = Some v \<longleftrightarrow> (\<exists>r \<in> set (configs d). cr_key r = k \<and> cr_value r = v)"
proof -
  have "distinct (map fst (map (\<lambda>r. (cr_key r, cr_value r)) (configs d)))"
    using assms by (simp add: config_schema_def comp_def)
  then show ?thesis
    by (auto simp: abs_config_def map_of_eq_Some_iff)
qed

lemma abs_config_None_iff: "abs_config d k = None \<longleftrightarrow> k \<notin> cr_key ` set (configs d)"
  by (auto simp: abs_config_def map_of_eq_None_iff image_iff)

lemma abs_config_eqI:
  assumes "config_schema d" and "\<And>k v. m k = Some v \<longleftrightarrow> (\<exists>r \<in> set (configs d). cr_key r = k \<and> cr_value r = v)"
  shows "abs_config d = m"
proof
  fix k
  show "abs_config d k = m k"
    using assms(2) abs_config_iff [OF assms(1)] by (metis not_None_eq)
qed

lemma abs_insert_config:
  assumes d: "db_ok d" and ins: "insert_config k v d = Inr (d', i)"
  shows "abs_config d k = None \<and> abs_config d' = (abs_config d)(k \<mapsto> v)"
proof -
  have new: "k \<notin> cr_key ` set (configs d)"
    and d': "configs d' = configs d @ [\<lparr>cr_id = next_config d, cr_key = k, cr_value = v\<rparr>]"
    using ins by (auto simp: insert_config_def split: if_splits)
  have "abs_config d' = (abs_config d)(k \<mapsto> v)"
    using d insert_config_ok [OF d ins] new
    by (intro abs_config_eqI) (auto simp: d' abs_config_iff db_ok_def)
  with new show ?thesis by (simp add: abs_config_None_iff)
qed

lemma abs_delete_config:
  assumes d: "db_ok d" and del: "delete_config k d = Inr (d', n)"
  shows "abs_config d' = (abs_config d)(k := None)"
proof (rule abs_config_eqI)
  show "config_schema d'" using delete_config_ok [OF d del] by (simp add: db_ok_def)
qed (use d del in \<open>auto simp: delete_config_def abs_config_iff db_ok_def\<close>)

lemma config_row_unique:
  "config_schema d \<Longrightarrow> r \<in> set (configs d) \<Longrightarrow> q \<in> set (configs d) \<Longrightarrow>
    cr_key r = cr_key q \<or> cr_id r = cr_id q \<Longrightarrow> r = q"
  by (auto simp: config_schema_def distinct_map inj_on_def)

lemma abs_update_config:
  assumes d: "db_ok d" and i: "i \<in> set [cr_id r. r \<leftarrow> configs d, cr_key r = k]"
    and upd: "update_config k v i d = Inr (d', n)"
  shows "abs_config d' = (abs_config d)(k \<mapsto> v)"
proof (rule abs_config_eqI)
  have sch: "config_schema d" using d by (simp add: db_ok_def)
  show "config_schema d'" using update_config_ok [OF d upd] by (simp add: db_ok_def)
  obtain q where q: "q \<in> set (configs d)" "cr_key q = k" "cr_id q = i" using i by auto
  have hit: "cr_id r = i \<longleftrightarrow> cr_key r = k" if "r \<in> set (configs d)" for r
    using config_row_unique [OF sch that q(1)] q(2,3) by metis
  have d': "configs d' = map (\<lambda>r. if cr_id r = i then r\<lparr>cr_key := k, cr_value := v\<rparr> else r) (configs d)"
    using upd by (auto simp: update_config_def Let_def split: if_splits)
  fix a b
  show "((abs_config d)(k \<mapsto> v)) a = Some b \<longleftrightarrow> (\<exists>r \<in> set (configs d'). cr_key r = a \<and> cr_value r = b)"
  proof (cases "a = k")
    case True
    have "q\<lparr>cr_key := k, cr_value := v\<rparr> \<in> set (configs d')"
      unfolding d' set_map using q(1,3) by (rule_tac image_eqI [where x = q]) simp_all
    then have there: "\<exists>r \<in> set (configs d'). cr_key r = k \<and> cr_value r = v"
      by (rule rev_bexI) simp
    have only: "cr_value r = v" if rin: "r \<in> set (configs d')" and rk: "cr_key r = k" for r
    proof -
      obtain x where x: "x \<in> set (configs d)"
        and r: "r = (if cr_id x = i then x\<lparr>cr_key := k, cr_value := v\<rparr> else x)"
        using rin by (auto simp: d')
      show ?thesis
      proof (cases "cr_id x = i")
        case True
        with r show ?thesis by simp
      next
        case False
        with r have "r = x" by simp
        with rk hit [OF x] False show ?thesis by simp
      qed
    qed
    have "v = b \<longleftrightarrow> (\<exists>r \<in> set (configs d'). cr_key r = k \<and> cr_value r = b)"
    proof
      assume "v = b"
      with there show "\<exists>r \<in> set (configs d'). cr_key r = k \<and> cr_value r = b" by simp
    next
      assume "\<exists>r \<in> set (configs d'). cr_key r = k \<and> cr_value r = b"
      then obtain r where "r \<in> set (configs d')" "cr_key r = k" "cr_value r = b" by (elim bexE conjE)
      from only [OF this(1,2)] this(3) show "v = b" by (rule trans [OF sym])
    qed
    with True show ?thesis by simp
  next
    case False
    then have "(\<exists>r \<in> set (configs d'). cr_key r = a \<and> cr_value r = b) \<longleftrightarrow>
               (\<exists>r \<in> set (configs d). cr_key r = a \<and> cr_value r = b)"
      using hit by (auto simp: d' split: if_splits)
    with False show ?thesis by (simp add: abs_config_iff [OF sch])
  qed
qed

text \<open>Configuration writes do not touch the registry of services.\<close>

lemma abs_services_configs [simp]:
  "abs_services (d\<lparr>configs := c, next_config := n\<rparr>) = abs_services d"
  "abs_services (d\<lparr>configs := c\<rparr>) = abs_services d"
  by (simp_all add: abs_services_def)

lemma config_writes_services:
  "insert_config k v d = Inr (d', i) \<Longrightarrow> abs_services d' = abs_services d"
  "delete_config k d = Inr (d', n) \<Longrightarrow> abs_services d' = abs_services d"
  "update_config k v i d = Inr (d', n) \<Longrightarrow> abs_services d' = abs_services d"
  by (auto simp: insert_config_def delete_config_def update_config_def Let_def split: if_splits)

section \<open>The mapper methods of config on the map\<close>

lemma ConfigItemExists_Ok:
  assumes "ConfigItemExists E k w = (Ok b, w')"
  shows "(b \<longleftrightarrow> abs_config (w_db w) k \<noteq> None) \<and> w_db w' = w_db w"
proof -
  let ?q = "\<lambda>d. [cr_id r. r \<leftarrow> configs d, cr_key r = k]"
  have nonempty: "?q d \<noteq> [] \<longleftrightarrow> abs_config d k \<noteq> None" for d
    by (auto simp: abs_config_None_iff concat_eq_Nil_conv image_iff)
  obtain r w1 where a: "attempt (GetConfigItemID E k) w = (Ok r, w1)"
    and c: "(case r of Inl e \<Rightarrow> if is_not_found e then ret False else fail e | Inr _ \<Rightarrow> ret True) w1 = (Ok b, w')"
    using assms unfolding ConfigItemExists_def by (rule bind_OkE)
  from a show ?thesis
  proof (rule attempt_OkE)
    fix x assume r: "r = Inr x" and "GetConfigItemID E k w = (Ok x, w1)"
    then have "x \<in> set (?q (w_db w)) \<and> w_db w1 = w_db w"
      unfolding GetConfigItemID_lookup by (blast dest: lookup_id_Ok)
    then show ?thesis using c r nonempty [of "w_db w"] by auto
  next
    fix e assume r: "r = Inl e" and "GetConfigItemID E k w = (Er e, w1)"
    moreover have nf: "is_not_found e" using c r by (auto split: if_splits)
    ultimately have "?q (w_db w) = [] \<and> w_db w1 = w_db w"
      unfolding GetConfigItemID_lookup by (blast dest: lookup_id_not_found)
    then show ?thesis using c r nf nonempty [of "w_db w"] by auto
  qed
qed

lemma CreateConfigItem_Ok:
  assumes ok: "db_ok (w_db w)" and run: "CreateConfigItem E c w = (Ok i, w')"
  shows "abs_config (w_db w) (ci_key c) = None \<and>
         abs_config (w_db w') = (abs_config (w_db w))(ci_key c \<mapsto> ci_value c) \<and>
         abs_services (w_db w') = abs_services (w_db w)"
proof -
  obtain w1 where ex: "ConfigItemExists E (ci_key c) w = (Ok False, w1)"
    and ins: "\<exists>i. insert_config (ci_key c) (ci_value c) (w_db w1) = Inr (w_db w', i)"
    using run unfolding CreateConfigItem_def by (fastforce elim!: ok_elims split: if_splits)
  from ConfigItemExists_Ok [OF ex] have "w_db w1 = w_db w" by simp
  with ins ok show ?thesis by (auto dest: abs_insert_config config_writes_services)
qed

lemma UpdateConfigItem_Ok:
  assumes ok: "db_ok (w_db w)" and run: "UpdateConfigItem E k (config_item k v) w = (Ok (), w')"
  shows "abs_config (w_db w') = (abs_config (w_db w))(k \<mapsto> v) \<and>
         abs_services (w_db w') = abs_services (w_db w)"
proof -
  obtain i w1 n where g: "GetConfigItemID E k w = (Ok i, w1)"
    and u: "update_config k v i (w_db w1) = Inr (w_db w', n)"
    using run unfolding UpdateConfigItem_def config_item_def
    by (auto elim!: ok_elims split: if_splits)
  from g have i: "i \<in> set [cr_id r. r \<leftarrow> configs (w_db w), cr_key r = k]" and "w_db w1 = w_db w"
    unfolding GetConfigItemID_lookup by (auto dest: lookup_id_Ok)
  with u have u: "update_config k v i (w_db w) = Inr (w_db w', n)" by simp
  show ?thesis using abs_update_config [OF ok i u] config_writes_services(3) [OF u] by simp
qed

lemma DeleteConfigItem_Ok:
  assumes ok: "db_ok (w_db w)" and run: "DeleteConfigItem E k w = (Ok (), w')"
  shows "abs_config (w_db w') = (abs_config (w_db w))(k := None) \<and>
         abs_services (w_db w') = abs_services (w_db w)"
proof -
  obtain n where "delete_config k (w_db w) = Inr (w_db w', n)"
    using run unfolding DeleteConfigItem_def by (auto elim!: ok_elims split: if_splits)
  with ok show ?thesis by (auto dest: abs_delete_config config_writes_services)
qed

lemma GetConfigItem_Ok:
  assumes ok: "db_ok (w_db w)" and run: "GetConfigItem E k w = (Ok c, w')"
  shows "ci_key c = k \<and> abs_config (w_db w) k = Some (ci_value c) \<and> w_db w' = w_db w"
proof -
  have same: "w_db w' = w_db w" using keepsD [OF dbv.keeps_GetConfigItem refl run] .
  have "select_configs [\<lparr>cf_key = Some k\<rparr>] (w_db w) = [c]"
    using run unfolding GetConfigItem_def GetConfigItems_def getConfigItems_def pick_config_stmt_def
    by (auto elim!: ok_elims split: list.splits)
  then have "c \<in> set (select_configs [\<lparr>cf_key = Some k\<rparr>] (w_db w))"
    by (metis list.set_intros(1))
  with ok same show ?thesis
    by (auto simp: select_configs_def config_objects_def abs_config_iff db_ok_def)
qed

section \<open>The contract: a key-value store\<close>

lemma on_err_Er: "on_err f m w = (Er e, w') \<Longrightarrow> \<exists>e0. m w = (Er e0, w') \<and> e = f e0"
  by (cases m w rule: io_cases) (auto simp: run)

lemma SetConfig_Ok:
  assumes ok: "db_ok (w_db w)" and run: "SetConfig E k v w = (Ok (), w')"
  shows "abs_config (w_db w') = (abs_config (w_db w))(k \<mapsto> v) \<and>
         abs_services (w_db w') = abs_services (w_db w)"
proof -
  obtain b w1 w2 w3 where ex: "ConfigItemExists E k w1 = (Ok b, w2)" and w1: "w_db w1 = w_db w"
    and act: "(if b then UpdateConfigItem E k (config_item k v)
               else bind (CreateConfigItem E (config_item k v)) (\<lambda>_. ret ())) w2 = (Ok (), w3)"
    and w3: "w_db w' = w_db w3"
    using run unfolding SetConfig_def by (elim on_err_OkE transaction_OkE bind_OkE)
  from ConfigItemExists_Ok [OF ex] w1 have w2: "w_db w2 = w_db w" by simp
  with ok have ok2: "db_ok (w_db w2)" by simp
  show ?thesis
  proof (cases b)
    case True
    with act have "UpdateConfigItem E k (config_item k v) w2 = (Ok (), w3)" by simp
    from UpdateConfigItem_Ok [OF ok2 this] w2 w3 show ?thesis by simp
  next
    case False
    with act obtain i where "CreateConfigItem E (config_item k v) w2 = (Ok i, w3)"
      by (auto elim!: bind_OkE)
    from CreateConfigItem_Ok [OF ok2 this] w2 w3 show ?thesis by (simp add: config_item_def)
  qed
qed

lemma GetConfig_Ok:
  assumes ok: "db_ok (w_db w)" and run: "GetConfig E k w = (Ok r, w')"
  shows "map_option ci_value r = abs_config (w_db w) k \<and> (\<forall>c. r = Some c \<longrightarrow> ci_key c = k) \<and>
         w_db w' = w_db w"
proof -
  obtain b w1 w2 w3 where ex: "ConfigItemExists E k w1 = (Ok b, w2)" and w1: "w_db w1 = w_db w"
    and act: "(if \<not> b then ret None else bind (GetConfigItem E k) (\<lambda>c. ret (Some c))) w2 = (Ok r, w3)"
    and w3: "w_db w' = w_db w3"
    using run unfolding GetConfig_def by (elim on_err_OkE transaction_OkE bind_OkE)
  from ConfigItemExists_Ok [OF ex] w1
  have b: "b \<longleftrightarrow> abs_config (w_db w) k \<noteq> None" and w2: "w_db w2 = w_db w" by simp_all
  with ok have ok2: "db_ok (w_db w2)" by simp
  show ?thesis
  proof (cases b)
    case True
    with act obtain c where "r = Some c" and "GetConfigItem E k w2 = (Ok c, w3)"
      by (auto elim!: bind_OkE)
    with GetConfigItem_Ok [OF ok2 this(2)] w2 w3 show ?thesis by simp
  next
    case False
    with act b w2 w3 show ?thesis by simp
  qed
qed

lemma DeleteConfig_Ok:
  assumes ok: "db_ok (w_db w)" and run: "DeleteConfig E k w = (Ok (), w')"
  shows "abs_config (w_db w') = (abs_config (w_db w))(k := None) \<and>
         abs_services (w_db w') = abs_services (w_db w)"
proof -
  obtain b w1 w2 w3 where ex: "ConfigItemExists E k w1 = (Ok b, w2)" and w1: "w_db w1 = w_db w"
    and act: "(if \<not> b then ret () else DeleteConfigItem E k) w2 = (Ok (), w3)"
    and w3: "w_db w' = w_db w3"
    using run unfolding DeleteConfig_def by (elim on_err_OkE transaction_OkE bind_OkE)
  from ConfigItemExists_Ok [OF ex] w1
  have b: "b \<longleftrightarrow> abs_config (w_db w) k \<noteq> None" and w2: "w_db w2 = w_db w" by simp_all
  with ok have ok2: "db_ok (w_db w2)" by simp
  show ?thesis
  proof (cases b)
    case True
    with act have "DeleteConfigItem E k w2 = (Ok (), w3)" by simp
    from DeleteConfigItem_Ok [OF ok2 this] w2 w3 show ?thesis by simp
  next
    case False
    with act b w2 w3 show ?thesis by (simp add: fun_upd_idem)
  qed
qed

lemma config_fails_db:
  "SetConfig E k v w = (Er e, w') \<Longrightarrow> w_db w' = w_db w"
  "DeleteConfig E k w = (Er e, w') \<Longrightarrow> w_db w' = w_db w"
  unfolding SetConfig_def DeleteConfig_def by (auto dest!: on_err_Er transaction_fails_db)

lemma keeps_config_ok [keeps_rules]:
  "keeps (\<lambda>w. db_ok (w_db w)) (SetConfig E k v)"
  "keeps (\<lambda>w. db_ok (w_db w)) (DeleteConfig E k)"
  unfolding SetConfig_def DeleteConfig_def
  by (intro keeps_on_err keeps_transaction_inv keeps_rules invv.keeps_ConfigItemExists)+

lemma keeps_exec_config_services [keeps_rules]:
  "keeps (\<lambda>w. abs_services (w_db w) = ss) (exec_stmt E n (insert_config k v))"
  "keeps (\<lambda>w. abs_services (w_db w) = ss) (exec_stmt E n (delete_config k))"
  "keeps (\<lambda>w. abs_services (w_db w) = ss) (exec_stmt E n (update_config k v i))"
  by (rule keeps_exec_stmt_inv; simp add: config_writes_services)+

lemma keeps_mapper_config_services [keeps_rules]:
  "keeps (\<lambda>w. abs_services (w_db w) = ss) (CreateConfigItem E c)"
  "keeps (\<lambda>w. abs_services (w_db w) = ss) (DeleteConfigItem E k)"
  "keeps (\<lambda>w. abs_services (w_db w) = ss) (UpdateConfigItem E k c)"
  unfolding CreateConfigItem_def DeleteConfigItem_def UpdateConfigItem_def
  by (intro keeps_rules invv.keeps_step invv.keeps_ConfigItemExists invv.keeps_GetConfigItemID invv.keeps_rows_affected)+

lemma keeps_config_services [keeps_rules]:
  "keeps (\<lambda>w. abs_services (w_db w) = ss) (SetConfig E k v)"
  "keeps (\<lambda>w. abs_services (w_db w) = ss) (DeleteConfig E k)"
  unfolding SetConfig_def DeleteConfig_def
  by (intro keeps_on_err keeps_transaction_inv keeps_rules invv.keeps_ConfigItemExists)+

lemma keeps_config_fs [keeps_rules]:
  "keeps (\<lambda>w. w_fs w = v) (SetConfig E k x)"
  "keeps (\<lambda>w. w_fs w = v) (DeleteConfig E k)"
  unfolding SetConfig_def DeleteConfig_def
  by (intro keeps_on_err keeps_transaction_fs keeps_rules fsv.keeps_ConfigItemExists)+

context trace_blind
begin

lemma keeps_GetConfig [keeps_rules]: "keeps P (GetConfig E k)"
  unfolding GetConfig_def config_exists_err_def
  by (intro keeps_on_err keeps_transaction_read keeps_rules dbv.keeps_ConfigItemExists
        dbv.keeps_GetConfigItem)

end

text \<open>
  What the components above need of the configuration: a map in which a successful \<open>set\<close> or \<open>del\<close>
  is a map update, \<open>get\<close> reads it, and a failed write changes nothing.
\<close>

locale kv_store =
  fixes view :: "'s \<Rightarrow> 'k \<Rightarrow> 'v option" and inv :: "'s \<Rightarrow> bool"
    and set :: "'k \<Rightarrow> 'v \<Rightarrow> 's \<Rightarrow> unit res \<times> 's"
    and get :: "'k \<Rightarrow> 's \<Rightarrow> 'i option res \<times> 's" and val :: "'i \<Rightarrow> 'v"
    and del :: "'k \<Rightarrow> 's \<Rightarrow> unit res \<times> 's"
  assumes set_ok: "inv w \<Longrightarrow> set k v w = (Ok (), w') \<Longrightarrow> view w' = (view w)(k \<mapsto> v)"
    and get_ok: "inv w \<Longrightarrow> get k w = (Ok r, w') \<Longrightarrow> map_option val r = view w k \<and> view w' = view w"
    and del_ok: "inv w \<Longrightarrow> del k w = (Ok (), w') \<Longrightarrow> view w' = (view w)(k := None)"
    and set_er: "set k v w = (Er e, w') \<Longrightarrow> view w' = view w"
    and del_er: "del k w = (Er e, w') \<Longrightarrow> view w' = view w"
    and set_inv: "inv w \<Longrightarrow> set k v w = (u, w') \<Longrightarrow> inv w'"
    and get_inv: "inv w \<Longrightarrow> get k w = (r', w') \<Longrightarrow> inv w'"
    and del_inv: "inv w \<Longrightarrow> del k w = (u, w') \<Longrightarrow> inv w'"
begin

lemma get_after_set:
  assumes "inv w" and "set k v w = (Ok (), w1)" and "get k' w1 = (Ok r, w2)"
  shows "map_option val r = (if k' = k then Some v else view w k')"
  using get_ok [OF set_inv [OF assms(1,2)] assms(3)] set_ok [OF assms(1,2)] by auto

lemma get_after_del:
  assumes "inv w" and "del k w = (Ok (), w1)" and "get k' w1 = (Ok r, w2)"
  shows "map_option val r = (if k' = k then None else view w k')"
  using get_ok [OF del_inv [OF assms(1,2)] assms(3)] del_ok [OF assms(1,2)] by auto

lemma last_set_wins:
  assumes "inv w" and "set k v w = (Ok (), w1)" and "set k v' w1 = (Ok (), w2)"
  shows "view w2 = (view w)(k \<mapsto> v')"
  using set_ok [OF set_inv [OF assms(1,2)] assms(3)] set_ok [OF assms(1,2)] by auto

end

interpretation cfg: kv_store "\<lambda>w. abs_config (w_db w)" "\<lambda>w. db_ok (w_db w)"
  "SetConfig E" "GetConfig E" ci_value "DeleteConfig E" for E
  by unfold_locales
     (auto dest: SetConfig_Ok GetConfig_Ok DeleteConfig_Ok config_fails_db
        keepsD [OF keeps_config_ok(1)] keepsD [OF keeps_config_ok(2)] keepsD [OF invv.keeps_GetConfig])

lemmas config_evals [evals] = SetConfig_def GetConfig_def DeleteConfig_def config_exists_err_def config_item_def

end
