(* ===== verification/SecurityLog.thy ===== *)
theory SecurityLog
  imports World "HOL-Library.AList"
begin

text \<open>
  The security log (securitylog/securitylog.go). An entry is an event of the trace, so that the other
  components keep it, and the log of a world is \<open>audits\<close>. The switch \<open>enabled\<close> is \<open>e_security_log\<close> of the
  environment.
\<close>

section \<open>Entries\<close>

datatype Category = CatAuthn | CatAuthz | CatSys

fun Category_text :: "Category \<Rightarrow> string" where
  "Category_text CatAuthn = ''AUTHN''"
| "Category_text CatAuthz = ''AUTHZ''"
| "Category_text CatSys = ''SYS''"

datatype Event = EventPasswordChanged | EventAdminActivity | EventSysStartup | EventSysShutdown

fun Event_text :: "Event \<Rightarrow> string" where
  "Event_text EventPasswordChanged = ''authn_password_changed''"
| "Event_text EventAdminActivity = ''authz_admin''"
| "Event_text EventSysStartup = ''sys_startup''"
| "Event_text EventSysShutdown = ''sys_shutdown''"

text \<open>\<open>fmt.Sprintf\<close> of strings with the verb \<open>%s\<close>, the only one of the messages.\<close>

definition extra_args :: "string list \<Rightarrow> string" where
  "extra_args args = (if args = [] then [] else ''%!(EXTRA '' @ join '', '' (map (\<lambda>a. ''string='' @ a) args) @ '')'')"

fun sprintf :: "string \<Rightarrow> string list \<Rightarrow> string" where
  "sprintf [] args = extra_args args"
| "sprintf [c] args = c # extra_args args"
| "sprintf (c # d # rest) args = (if c = CHR ''%'' \<and> d = CHR ''s''
     then (case args of [] \<Rightarrow> ''%!s(MISSING)'' @ sprintf rest [] | a # as \<Rightarrow> a @ sprintf rest as)
     else c # sprintf (d # rest) args)"

definition log_fields :: "Category \<Rightarrow> Event \<Rightarrow> (string \<times> json) list \<Rightarrow> (string \<times> json) list" where
  "log_fields cat evt extra = fold (\<lambda>(k, v). AList.update k v) extra
     [(''security'', JBool True), (''category'', JStr (Category_text cat)), (''event'', JStr (Event_text evt))]"

definition Log :: "env \<Rightarrow> Category \<Rightarrow> Event \<Rightarrow> (string \<times> json) list \<Rightarrow> string \<Rightarrow> string list \<Rightarrow> unit io" where
  "Log E cat evt extra format args =
     (if \<not> e_security_log E then ret ()
      else let ctx = log_fields cat evt extra; msg = (if args = [] then format else sprintf format args)
        in (\<lambda>w. (Ok (), w\<lparr>w_trace := Audit msg ctx # w_trace w\<rparr>)))"

definition SetEnabled :: "bool \<Rightarrow> env \<Rightarrow> env" where
  "SetEnabled on E = E\<lparr>e_security_log := on\<rparr>"

section \<open>How an entry is written\<close>

definition log_entry :: "env \<Rightarrow> Category \<Rightarrow> Event \<Rightarrow> (string \<times> json) list \<Rightarrow> string \<Rightarrow> string list \<Rightarrow> event list" where
  "log_entry E cat evt extra format args = (if e_security_log E
     then [Audit (if args = [] then format else sprintf format args) (log_fields cat evt extra)] else [])"

definition with_log :: "event list \<Rightarrow> world \<Rightarrow> world" where
  "with_log es w = w\<lparr>w_trace := es @ w_trace w\<rparr>"

lemma with_log_simps [simp]: "w_db (with_log es w) = w_db w" "w_fs (with_log es w) = w_fs w"
  "w_trace (with_log es w) = es @ w_trace w" "with_log [] w = w"
  by (simp_all add: with_log_def)

lemma run_Log [run]: "Log E cat evt extra format args w = (Ok (), with_log (log_entry E cat evt extra format args) w)"
  by (simp add: Log_def log_entry_def with_log_def Let_def)

lemma andthen_Log [simp]:
  "andthen (Log E cat evt extra format args) m w = m (with_log (log_entry E cat evt extra format args) w)"
  by (simp add: run)

lemma audits_with_log [simp]: "audits (with_log (log_entry E cat evt extra format args) w) =
    log_entry E cat evt extra format args @ audits w"
  by (simp add: audits_def log_entry_def)

lemma no_entry [simp]: "\<not> e_security_log E \<Longrightarrow> log_entry E cat evt extra format args = []"
  by (simp add: log_entry_def)

context log_blind
begin

lemma keeps_Log [keeps_rules]: "keeps P (Log E cat evt extra format args)"
  by (simp add: keeps_def Log_def Let_def log_blind run)

end

lemma keeps_Log_off: "\<not> e_security_log E \<Longrightarrow> keeps P (Log E cat evt extra format args)"
  by (simp add: keeps_def run)

lemma np_Log [np_rules]: "no_panic (Log E cat evt extra format args)"
  by (simp add: no_panic_def run)

lemma tot_Log [tot_rules]: "total_io (Log E cat evt extra format args)"
  by (simp add: total_io_def run)

lemmas log_evals [evals] = Log_def log_fields_def

text \<open>The fields that mark an entry are there, unless the caller overrides them, which no caller does.\<close>

lemma log_fields_lookup:
  "k \<notin> fst ` set extra \<Longrightarrow> map_of (log_fields cat evt extra) k =
    [''security'' \<mapsto> JBool True, ''category'' \<mapsto> JStr (Category_text cat), ''event'' \<mapsto> JStr (Event_text evt)] k"
proof -
  have "k \<notin> fst ` set extra \<Longrightarrow> map_of (fold (\<lambda>(k, v). AList.update k v) extra m) k = map_of m k" for m :: "(string \<times> json) list"
    by (induction extra arbitrary: m) (auto simp: update_conv')
  then show "k \<notin> fst ` set extra \<Longrightarrow> ?thesis" by (simp add: log_fields_def)
qed

end
