(* ===== verification/Certificates.thy ===== *)
theory Certificates
  imports ConfigStore FileSystem SecurityLog
begin

text \<open>
  Package \<open>certificates\<close> (ovn/certificates/certificates.go): the certificate authority in the shared
  configuration and the certificates of the services on disk. Key generation, random numbers,
  signing, PEM and X.509 parsing are parameters of the environment.
\<close>

section \<open>Issuing\<close>

text \<open>The integer type \<open>CertificateType\<close> with its three constants.\<close>

datatype CertificateType = CertificateTypeCA | CertificateTypeServer | CertificateTypeClient
  | CertificateTypeOther int

definition CACertRecordName :: string where "CACertRecordName = ''ca_cert''"
definition CAKeyRecordName :: string where "CAKeyRecordName = ''ca_key''"
definition CAAutoRenew :: string where "CAAutoRenew = ''ca_auto_renew''"
definition CaIsRenewable :: string where "CaIsRenewable = ''yes''"
definition CaIsNotRenewable :: string where "CaIsNotRenewable = ''no''"

text \<open>Durations in seconds.\<close>

definition CACertValidity :: nat where "CACertValidity = 10 * 365 * 24 * 3600"
definition ServiceCertValidity :: nat where "ServiceCertValidity = 2 * 365 * 24 * 3600"
definition certFileMode :: nat where "certFileMode = 384"  \<comment> \<open>0600\<close>

text \<open>The bits of \<open>x509.KeyUsage\<close>.\<close>

definition KeyUsageDigitalSignature :: "32 word" where "KeyUsageDigitalSignature = 1"
definition KeyUsageContentCommitment :: "32 word" where "KeyUsageContentCommitment = 2"
definition KeyUsageKeyEncipherment :: "32 word" where "KeyUsageKeyEncipherment = 4"
definition KeyUsageDataEncipherment :: "32 word" where "KeyUsageDataEncipherment = 8"
definition KeyUsageKeyAgreement :: "32 word" where "KeyUsageKeyAgreement = 16"
definition KeyUsageCertSign :: "32 word" where "KeyUsageCertSign = 32"
definition KeyUsageCRLSign :: "32 word" where "KeyUsageCRLSign = 64"

definition issueCertificate ::
    "env \<Rightarrow> string \<Rightarrow> string \<Rightarrow> CertificateType \<Rightarrow> (cert \<times> string) option \<Rightarrow> (string \<times> string) io" where
  "issueCertificate E cn serviceName certType parent =
     bind (on_err (wrapf (''failed to generate key pair for '' @ squoted serviceName @ '' certificate: ''))
       (bind (reads (\<lambda>w. e_gen_key E (w_trace w))) of_sum)) (\<lambda>keyPair.
     bind (reads (\<lambda>w. e_now E (w_trace w))) (\<lambda>validFrom.
     bind (on_err (wrapf ''failed to generate serial number: '')
       (bind (reads (\<lambda>w. e_rand_serial E (w_trace w))) of_sum)) (\<lambda>serialNumber.
     bind (case certType of
         CertificateTypeCA \<Rightarrow>
           ret (True, or KeyUsageCertSign KeyUsageCRLSign, validFrom + CACertValidity)
       | CertificateTypeServer \<Rightarrow>
           ret (False, or (or (or KeyUsageDigitalSignature KeyUsageKeyEncipherment) KeyUsageKeyAgreement)
                          KeyUsageContentCommitment, validFrom + ServiceCertValidity)
       | CertificateTypeClient \<Rightarrow>
           ret (False, or (or (or KeyUsageDigitalSignature KeyUsageKeyEncipherment) KeyUsageDataEncipherment)
                          KeyUsageKeyAgreement, validFrom + ServiceCertValidity)
       | CertificateTypeOther _ \<Rightarrow>
           fail (ErrS ''failed to issue certificate: unknown certificate type''))
     (\<lambda>(isCa, keyUsage, validTo).
     let template = \<lparr>c_serial = serialNumber, c_cn = cn, c_org = [''MicroOVN''], c_ou = [serviceName],
                     c_not_before = validFrom, c_not_after = validTo,
                     c_key_usage = keyUsage, c_is_ca = isCa\<rparr>;
         (parentCert, signKey) = (case parent of None \<Rightarrow> (template, keyPair) | Some p \<Rightarrow> p)
     in bind (on_err (wrapf (''failed to create certificate for '' @ serviceName @ '': ''))
          (of_sum (e_create_cert E template parentCert keyPair signKey))) (\<lambda>der.
        bind (of_sum (e_marshal_key E keyPair)) (\<lambda>key.
        ret (e_pem_encode E ''CERTIFICATE'' der, e_pem_encode E ''EC PRIVATE KEY'' key)))))))"

section \<open>The certificate authority in the configuration\<close>

text \<open>One of the three upserts of \<open>storeCA\<close>: an error of the lookup counts as absence.\<close>

definition store_item :: "env \<Rightarrow> string \<Rightarrow> string \<Rightarrow> string \<Rightarrow> bool \<Rightarrow> bool io" where
  "store_item E k v what updated =
     on_err (errf (''failed to store '' @ what @ '' in the database: ''))
       (bind (attempt (GetConfigItem E k)) (\<lambda>r. case r of
          Inl _ \<Rightarrow> bind (CreateConfigItem E (config_item k v)) (\<lambda>_. ret True)
        | Inr c \<Rightarrow> if ci_value c \<noteq> v then andthen (UpdateConfigItem E k (config_item k v)) (ret True)
                   else ret updated))"

definition storeCA :: "env \<Rightarrow> string \<Rightarrow> string \<Rightarrow> bool \<Rightarrow> bool io" where
  "storeCA E certPEM keyPEM autoRenew =
     (let autoRenewValue = (if autoRenew then CaIsRenewable else CaIsNotRenewable) in
      transaction E
       (bind (store_item E CACertRecordName certPEM ''CA certificate'' False) (\<lambda>u1.
        bind (store_item E CAKeyRecordName keyPEM ''CA private key'' u1) (\<lambda>u2.
        store_item E CAAutoRenew autoRenewValue ''CA auto-renew flag'' u2))))"

text \<open>A new CA is noted in the security log.\<close>

definition log_stored :: "env \<Rightarrow> bool \<Rightarrow> string \<Rightarrow> bool \<Rightarrow> bool io" where
  "log_stored E autoRenew msg updated =
     andthen (if updated
        then Log E CatAuthn EventPasswordChanged [(''subject'', JStr ''CA''), (''auto_renew'', JBool autoRenew)] msg []
        else ret ())
     (ret updated)"

definition GenerateNewCACertificate :: "env \<Rightarrow> bool io" where
  "GenerateNewCACertificate E =
     bind (issueCertificate E ''MicroOVN CA'' ''MicroOVN CA'' CertificateTypeCA None)
     (\<lambda>(cert, key). bind (storeCA E cert key True) (log_stored E True ''CA certificate generated and stored''))"

definition check_ca_cert :: "env \<Rightarrow> string \<Rightarrow> unit io" where
  "check_ca_cert E der =
     bind (on_err (wrapf ''error parsing X509 certificate: '') (of_sum (e_parse_cert E der))) (\<lambda>x.
     if \<not> c_is_ca x then fail (ErrS ''provided certificate is not a CA certificate'')
     else if and (c_key_usage x) KeyUsageCertSign \<noteq> KeyUsageCertSign
     then fail (ErrS ''provided certificate does not have the required keyCertSign KeyUsage'')
     else ret ())"

definition SetNewCACertificate :: "env \<Rightarrow> string \<Rightarrow> string \<Rightarrow> bool io" where
  "SetNewCACertificate E certPEM keyPEM =
     bind (on_err (wrapf ''error parsing CA certificate: '') (of_sum (e_key_pair E certPEM keyPEM)))
     (\<lambda>chain. andthen (for_each (check_ca_cert E) chain)
       (bind (storeCA E certPEM keyPEM False) (log_stored E False ''User-provided CA certificate stored'')))"

text \<open>Writing a certificate or key file: create, restrict, write.\<close>

definition create_private :: "env \<Rightarrow> string \<Rightarrow> string \<Rightarrow> unit io" where
  "create_private E path what =
     andthen (on_err (wrapf (''failed to create file for '' @ what @ '': '')) (os_Create E path))
     (on_err (wrapf (''unable to set permissions for '' @ what @ '': '')) (os_Chmod E path certFileMode))"

definition DumpCA :: "env \<Rightarrow> unit io" where
  "DumpCA E =
     bind (transaction E (on_err (errf ''failed to get CA certificate from the database: '')
             (GetConfigItem E CACertRecordName))) (\<lambda>record.
     andthen (create_private E (PkiCaCertFile E) ''CA certificate'')
     (on_err (wrapf (''failed to write CA certificate into file '' @ PkiCaCertFile E @ '': ''))
        (os_Write E (PkiCaCertFile E) (ci_value record))))"

definition IsCaRenewable :: "env \<Rightarrow> bool io" where
  "IsCaRenewable E = transaction E
     (bind (attempt (GetConfigItem E CAAutoRenew)) (\<lambda>r. case r of
        Inl e \<Rightarrow> (case e of StatusErr _ _ \<Rightarrow> ret True | _ \<Rightarrow> fail e)
      | Inr c \<Rightarrow> ret (ci_value c \<noteq> CaIsNotRenewable)))"

definition parsePrivateKey :: "env \<Rightarrow> string \<Rightarrow> goerr + string" where
  "parsePrivateKey E raw = (case e_parse_pkcs8 E raw of
       Inr k \<Rightarrow> Inr k
     | Inl _ \<Rightarrow> (case e_parse_ec E raw of
           Inr k \<Rightarrow> Inr k
         | Inl _ \<Rightarrow> e_parse_pkcs1 E raw))"

definition GetCA :: "env \<Rightarrow> (cert \<times> string) io" where
  "GetCA E =
     bind (transaction E
       (bind (on_err (errf ''failed to fetch CA certificate from database: '')
                (GetConfigItem E CACertRecordName)) (\<lambda>c.
        bind (on_err (errf ''failed to fetch CA private key from database: '')
                (GetConfigItem E CAKeyRecordName)) (\<lambda>k.
        ret (ci_value c, ci_value k))))) (\<lambda>(certPEM, keyPEM).
     case e_pem_decode E certPEM of
       None \<Rightarrow> fail (ErrS ''failed to decode CA certificate's PEM data'')
     | Some ((_, certBytes), _) \<Rightarrow>
     (case e_pem_decode E keyPEM of
       None \<Rightarrow> fail (ErrS ''failed to decode CA Private Key's PEM data'')
     | Some ((_, keyBytes), _) \<Rightarrow>
       bind (on_err (errf ''failed to parse CA certificate: '') (of_sum (e_parse_cert E certBytes))) (\<lambda>caCert.
       bind (on_err (errf ''failed to parse CA private key: '') (of_sum (parsePrivateKey E keyBytes))) (\<lambda>caKey.
       ret (caCert, caKey)))))"

section \<open>Certificates of the services\<close>

definition getServiceCertificatePaths :: "env \<Rightarrow> string \<Rightarrow> goerr + string \<times> string" where
  "getServiceCertificatePaths E srv =
     (if srv \<in> {''client'', ''ovnnb'', ''ovnsb'', ''ovn-northd'', ''ovn-controller''}
      then Inr (getServiceCertFiles E srv)
      else Inl (ErrS (''unknown service '' @ squoted srv @ ''. can't generate certificate paths'')))"

definition GenerateNewServiceCertificate :: "env \<Rightarrow> string \<Rightarrow> CertificateType \<Rightarrow> unit io" where
  "GenerateNewServiceCertificate E srv certType =
     bind (on_err (errf ''failed to generate certificate: '') (of_sum (getServiceCertificatePaths E srv)))
     (\<lambda>(certPath, keyPath).
     andthen (create_private E certPath (srv @ '' certificate''))
     (andthen (create_private E keyPath (srv @ '' private key''))
     (bind (GetCA E) (\<lambda>ca.
      bind (on_err (wrapf (''failed to issue certificate for '' @ srv @ '': ''))
              (issueCertificate E (e_name E) srv certType (Some ca))) (\<lambda>(cert, key).
      andthen (on_err (wrapf (''failed to write '' @ srv @ '' certificate into file '' @ certPath @ '': ''))
                 (os_Write E certPath cert))
      (on_err (wrapf (''failed to write '' @ srv @ '' private key into file '' @ keyPath @ '': ''))
         (os_Write E keyPath key)))))))"

section \<open>Frame lemmas\<close>

lemma keeps_issueCertificate [keeps_rules]: "keeps P (issueCertificate E cn srv ty parent)"
  unfolding issueCertificate_def Let_def
  by (intro keeps_rules) (auto split: CertificateType.splits option.splits intro!: keeps_rules)

definition stored_entry :: "env \<Rightarrow> bool \<Rightarrow> string \<Rightarrow> bool \<Rightarrow> event list" where
  "stored_entry E autoRenew msg updated = (if updated
     then log_entry E CatAuthn EventPasswordChanged [(''subject'', JStr ''CA''), (''auto_renew'', JBool autoRenew)] msg [] else [])"

lemma run_log_stored [run]:
  "log_stored E autoRenew msg updated w = (Ok updated, with_log (stored_entry E autoRenew msg updated) w)"
  by (simp add: log_stored_def stored_entry_def run)

lemma log_stored_result [simp]: "log_stored E a msg updated w = (r, w') \<longleftrightarrow>
    r = Ok updated \<and> w' = with_log (stored_entry E a msg updated) w"
  by (auto simp: run)

lemma np_log_stored [np_rules]: "no_panic (log_stored E a msg u)"
  by (simp add: no_panic_def)

context log_blind
begin

lemma keeps_log_stored [keeps_rules]: "keeps P (log_stored E a msg u)"
  unfolding log_stored_def by (intro keeps_rules keeps_Log)

end

lemma keeps_check_ca_cert [keeps_rules]: "keeps P (check_ca_cert E der)"
  unfolding check_ca_cert_def by (intro keeps_rules)

context trace_blind
begin

lemma keeps_GetCA [keeps_rules]: "keeps P (GetCA E)"
  unfolding GetCA_def
  by (intro keeps_rules keeps_transaction_read dbv.keeps_GetConfigItem keeps_GetConfigItem)

lemma keeps_IsCaRenewable [keeps_rules]: "keeps P (IsCaRenewable E)"
proof -
  have "keeps Q (case e of StatusErr c m \<Rightarrow> ret True | _ \<Rightarrow> fail e)" for Q e
    by (cases e) (simp_all add: keeps_pure)
  then show ?thesis
    unfolding IsCaRenewable_def
    by (intro keeps_transaction_read keeps_rules dbv.keeps_GetConfigItem keeps_GetConfigItem)
qed

end

context fs_blind
begin

lemma keeps_create_private [keeps_rules]: "keeps P (create_private E p what)"
  unfolding create_private_def by (intro keeps_rules keeps_os)

lemma keeps_DumpCA [keeps_rules]: "keeps P (DumpCA E)"
  unfolding DumpCA_def
  by (intro keeps_rules keeps_os keeps_create_private keeps_transaction_read
      dbv.keeps_GetConfigItem keeps_GetConfigItem)

lemma keeps_GenerateNewServiceCertificate [keeps_rules]:
  "keeps P (GenerateNewServiceCertificate E srv ty)"
  unfolding GenerateNewServiceCertificate_def
  by (intro keeps_rules keeps_os keeps_create_private keeps_GetCA)

end

lemma keeps_storeCA_ok [keeps_rules]: "keeps (\<lambda>w. db_ok (w_db w)) (storeCA E c k r)"
  unfolding storeCA_def store_item_def Let_def
  by (intro keeps_transaction_inv keeps_rules invv.keeps_GetConfigItem keeps_mapper_ok)

lemma keeps_CA_ok [keeps_rules]:
  "keeps (\<lambda>w. db_ok (w_db w)) (GenerateNewCACertificate E)"
  "keeps (\<lambda>w. db_ok (w_db w)) (SetNewCACertificate E c k)"
  unfolding GenerateNewCACertificate_def SetNewCACertificate_def by (intro keeps_rules invv.keeps_log_stored)+

lemma keeps_CA_services [keeps_rules]:
  "keeps (\<lambda>w. abs_services (w_db w) = ss) (storeCA E c k r)"
  "keeps (\<lambda>w. abs_services (w_db w) = ss) (GenerateNewCACertificate E)"
  "keeps (\<lambda>w. abs_services (w_db w) = ss) (SetNewCACertificate E c k)"
proof -
  show st: "keeps (\<lambda>w. abs_services (w_db w) = ss) (storeCA E c k r)" for c k r
    unfolding storeCA_def store_item_def Let_def
    by (intro keeps_transaction_inv keeps_rules invv.keeps_GetConfigItem)
  show "keeps (\<lambda>w. abs_services (w_db w) = ss) (GenerateNewCACertificate E)"
    "keeps (\<lambda>w. abs_services (w_db w) = ss) (SetNewCACertificate E c k)"
    unfolding GenerateNewCACertificate_def SetNewCACertificate_def by (intro keeps_rules st invv.keeps_log_stored)+
qed

lemma np_issueCertificate [np_rules]: "no_panic (issueCertificate E cn srv ty parent)"
  unfolding issueCertificate_def Let_def
  by (intro np_rules) (auto split: CertificateType.splits option.splits intro!: np_rules)

lemma np_certificates [np_rules]:
  "no_panic (storeCA E c k r)" "no_panic (DumpCA E)" "no_panic (GetCA E)"
  "no_panic (GenerateNewCACertificate E)" "no_panic (SetNewCACertificate E c k)"
  "no_panic (GenerateNewServiceCertificate E srv ty)" "no_panic (IsCaRenewable E)"
proof -
  show st: "no_panic (storeCA E c k r)" for c k r
    unfolding storeCA_def store_item_def Let_def by (intro np_rules)
  show ca: "no_panic (GetCA E)" unfolding GetCA_def by (intro np_rules)
  show "no_panic (DumpCA E)" "no_panic (GenerateNewServiceCertificate E srv ty)"
    unfolding DumpCA_def GenerateNewServiceCertificate_def create_private_def by (intro np_rules ca)+
  show "no_panic (GenerateNewCACertificate E)" "no_panic (SetNewCACertificate E c k)"
    unfolding GenerateNewCACertificate_def SetNewCACertificate_def check_ca_cert_def
    by (intro np_rules st)+
  have "no_panic (case e of StatusErr c m \<Rightarrow> ret True | _ \<Rightarrow> fail e)" for e
    by (cases e) (simp_all add: np_basic)
  then show "no_panic (IsCaRenewable E)" unfolding IsCaRenewable_def by (intro np_rules)
qed

section \<open>What is issued\<close>

text \<open>The certificate each type is meant to give: usage bits, validity and authority.\<close>

fun profile :: "CertificateType \<Rightarrow> (bool \<times> 32 word \<times> nat) option" where
  "profile CertificateTypeCA = Some (True, 96, 315360000)"
| "profile CertificateTypeServer = Some (False, 23, 63072000)"
| "profile CertificateTypeClient = Some (False, 29, 63072000)"
| "profile (CertificateTypeOther i) = None"

definition expected_cert :: "(bool \<times> 32 word \<times> nat) \<Rightarrow> nat \<Rightarrow> string \<Rightarrow> string \<Rightarrow> nat \<Rightarrow> cert" where
  "expected_cert p n cn srv now = (case p of (ca, usage, valid) \<Rightarrow>
     \<lparr>c_serial = n, c_cn = cn, c_org = [''MicroOVN''], c_ou = [srv], c_not_before = now,
      c_not_after = now + valid, c_key_usage = usage, c_is_ca = ca\<rparr>)"

lemmas usage_defs = KeyUsageDigitalSignature_def KeyUsageContentCommitment_def
  KeyUsageKeyEncipherment_def KeyUsageDataEncipherment_def KeyUsageKeyAgreement_def
  KeyUsageCertSign_def KeyUsageCRLSign_def CACertValidity_def ServiceCertValidity_def

lemma of_sum_Ok [simp]: "of_sum r w = (Ok x, w') \<longleftrightarrow> r = Inr x \<and> w' = w"
  by (cases r) (auto simp: of_sum_def)

lemma issueCertificate_Ok:
  assumes "issueCertificate E cn srv ty parent w = (Ok (c, k), w')"
  shows "\<exists>p n key der kd t signer.
      profile ty = Some p \<and> t = expected_cert p n cn srv (e_now E (w_trace w)) \<and>
      signer = (case parent of None \<Rightarrow> (t, key) | Some q \<Rightarrow> q) \<and>
      e_gen_key E (w_trace w) = Inr key \<and> e_rand_serial E (w_trace w) = Inr n \<and>
      e_create_cert E t (fst signer) key (snd signer) = Inr der \<and> e_marshal_key E key = Inr kd \<and>
      c = e_pem_encode E ''CERTIFICATE'' der \<and> k = e_pem_encode E ''EC PRIVATE KEY'' kd \<and> w' = w"
proof (cases parent)
  case None
  with assms show ?thesis unfolding issueCertificate_def
    by (cases ty) (auto elim!: ok_elims simp: usage_defs Let_def expected_cert_def)
next
  case (Some q)
  with assms show ?thesis unfolding issueCertificate_def
    by (cases ty; cases q) (auto elim!: ok_elims simp: usage_defs Let_def expected_cert_def)
qed

lemma issueCertificate_unknown_type:
  "\<exists>e. issueCertificate E cn srv (CertificateTypeOther i) parent w = (Er e, w)"
  by (cases "e_gen_key E (w_trace w)"; cases "e_rand_serial E (w_trace w)")
     (simp_all add: issueCertificate_def bind_def run of_sum_def)

section \<open>The stored authority\<close>

lemma attempt_db:
  assumes "attempt m w = (Ok r, w')" and "\<And>d. keeps (\<lambda>w. w_db w = d) m"
  shows "w_db w' = w_db w"
  using keepsD [OF keeps_attempt [OF assms(2)] refl assms(1)] .

lemma GetConfigItem_Er:
  assumes "GetConfigItem E k w = (Er e, w')"
  shows "w_db w' = w_db w"
  using keepsD [OF dbv.keeps_GetConfigItem refl assms] .

text \<open>Each upsert ends with the value in place and reports whether the map changed.\<close>

lemma store_item_Ok:
  assumes ok: "db_ok (w_db w)" and run: "store_item E k v what u w = (Ok b, w')"
  shows "abs_config (w_db w') = (abs_config (w_db w))(k \<mapsto> v) \<and> db_ok (w_db w') \<and>
         (b \<longleftrightarrow> u \<or> abs_config (w_db w) k \<noteq> Some v)"
proof -
  have inv: "db_ok (w_db w')"
    using run ok unfolding store_item_def
    by (elim on_err_OkE)
       (rule keepsD [where P = "\<lambda>w. db_ok (w_db w)", rotated 2], assumption,
        intro keeps_rules invv.keeps_GetConfigItem keeps_mapper_ok)
  obtain r w1 where a: "attempt (GetConfigItem E k) w = (Ok r, w1)"
    and c: "(case r of
          Inl _ \<Rightarrow> bind (CreateConfigItem E (config_item k v)) (\<lambda>_. ret True)
        | Inr c \<Rightarrow> if ci_value c \<noteq> v then andthen (UpdateConfigItem E k (config_item k v)) (ret True)
                   else ret u) w1 = (Ok b, w')"
    using run unfolding store_item_def by (elim on_err_OkE bind_OkE)
  have same: "w_db w1 = w_db w" using a by (rule attempt_db) (rule dbv.keeps_GetConfigItem)
  show ?thesis
  proof (cases r)
    case (Inl e)
    with c obtain i w2 where "CreateConfigItem E (config_item k v) w1 = (Ok i, w2)"
      and b: "b" and "w' = w2"
      by (auto elim!: bind_OkE)
    with CreateConfigItem_Ok [of w1 E "config_item k v" i w2] ok same inv show ?thesis
      by (simp add: config_item_def)
  next
    case (Inr ci)
    with a have "GetConfigItem E k w = (Ok ci, w1)" by (auto elim: attempt_OkE)
    from GetConfigItem_Ok [OF ok this] have cur: "abs_config (w_db w) k = Some (ci_value ci)" by simp
    show ?thesis
    proof (cases "ci_value ci = v")
      case True
      with c Inr same cur inv show ?thesis by (auto simp: fun_upd_idem)
    next
      case False
      with c Inr obtain w2 where u: "UpdateConfigItem E k (config_item k v) w1 = (Ok (), w2)"
        and b: "b" and "w' = w2"
        by (auto elim!: andthen_OkE)
      have ok1: "db_ok (w_db w1)" using ok same by simp
      from UpdateConfigItem_Ok [OF ok1 u] \<open>w' = w2\<close> b same cur False inv show ?thesis by simp
    qed
  qed
qed

definition renew_flag :: "bool \<Rightarrow> string" where
  "renew_flag r = (if r then CaIsRenewable else CaIsNotRenewable)"

lemma storeCA_Ok:
  assumes ok: "db_ok (w_db w)" and run: "storeCA E c k r w = (Ok b, w')"
  shows "abs_config (w_db w') = (abs_config (w_db w))
           (CACertRecordName \<mapsto> c, CAKeyRecordName \<mapsto> k, CAAutoRenew \<mapsto> renew_flag r) \<and>
         (b \<longleftrightarrow> abs_config (w_db w') \<noteq> abs_config (w_db w))"
proof -
  let ?f = "renew_flag r"
  obtain w0 u1 w1 u2 w2 w3 where w0: "w_db w0 = w_db w"
    and s1: "store_item E CACertRecordName c ''CA certificate'' False w0 = (Ok u1, w1)"
    and s2: "store_item E CAKeyRecordName k ''CA private key'' u1 w1 = (Ok u2, w2)"
    and s3: "store_item E CAAutoRenew ?f ''CA auto-renew flag'' u2 w2 = (Ok b, w3)"
    and w3: "w_db w' = w_db w3"
    using run unfolding storeCA_def Let_def renew_flag_def by (elim transaction_OkE bind_OkE)
  have ok0: "db_ok (w_db w0)" using ok w0 by simp
  from store_item_Ok [OF ok0 s1] have a1: "abs_config (w_db w1) = (abs_config (w_db w))(CACertRecordName \<mapsto> c)"
    and ok1: "db_ok (w_db w1)" and b1: "u1 \<longleftrightarrow> abs_config (w_db w) CACertRecordName \<noteq> Some c"
    using w0 by simp_all
  from store_item_Ok [OF ok1 s2] have a2: "abs_config (w_db w2) =
      (abs_config (w_db w))(CACertRecordName \<mapsto> c, CAKeyRecordName \<mapsto> k)"
    and ok2: "db_ok (w_db w2)" and b2: "u2 \<longleftrightarrow> u1 \<or> abs_config (w_db w) CAKeyRecordName \<noteq> Some k"
    by (simp_all add: a1 CACertRecordName_def CAKeyRecordName_def)
  from store_item_Ok [OF ok2 s3] w3 have a3: "abs_config (w_db w') =
      (abs_config (w_db w))(CACertRecordName \<mapsto> c, CAKeyRecordName \<mapsto> k, CAAutoRenew \<mapsto> ?f)"
    and b3: "b \<longleftrightarrow> u2 \<or> abs_config (w_db w) CAAutoRenew \<noteq> Some ?f"
    by (simp_all add: a2 CACertRecordName_def CAKeyRecordName_def CAAutoRenew_def)
  have distinct: "CACertRecordName \<noteq> CAKeyRecordName" "CACertRecordName \<noteq> CAAutoRenew"
    "CAKeyRecordName \<noteq> CAAutoRenew"
    by (simp_all add: CACertRecordName_def CAKeyRecordName_def CAAutoRenew_def)
  have upd3: "f(x \<mapsto> a, y \<mapsto> b, z \<mapsto> c) = f \<longleftrightarrow> f x = Some a \<and> f y = Some b \<and> f z = Some c"
    if "x \<noteq> y" "x \<noteq> z" "y \<noteq> z" for f :: "string \<Rightarrow> string option" and x y z a b c
    using that by (metis fun_upd_other fun_upd_same fun_upd_triv)
  show ?thesis using a3 b1 b2 b3 by (simp add: upd3 [OF distinct]) blast
qed

lemma storeCA_fails:
  "storeCA E c k r w = (Er e, w') \<Longrightarrow> w_db w' = w_db w"
  "storeCA E c k r w = (Panic s, w') \<Longrightarrow> w_db w' = w_db w"
  unfolding storeCA_def Let_def by (rule transaction_fails_db(1), assumption) (rule transaction_fails_db(2))

lemma for_each_check_ca:
  "for_each (check_ca_cert E) ds w = (Ok u, w') \<Longrightarrow> w' = w \<and> (\<forall>d \<in> set ds. \<exists>x.
     e_parse_cert E d = Inr x \<and> c_is_ca x \<and> and (c_key_usage x) KeyUsageCertSign = KeyUsageCertSign)"
  by (induction ds arbitrary: w) (auto simp: check_ca_cert_def elim!: ok_elims split: if_splits)

lemma GetConfigItem_status:
  assumes "GetConfigItem E k w = (Er (StatusErr c m), w')" and "db_ok (w_db w)"
  shows "abs_config (w_db w) k = None"
proof -
  obtain w1 where r: "GetConfigItems E [\<lparr>cf_key = Some k\<rparr>] w = (Ok [], w1)"
    using assms unfolding GetConfigItem_def
    by (cases "GetConfigItems E [\<lparr>cf_key = Some k\<rparr>]" w rule: io_cases)
       (auto simp: bind_def run config_fetch_err_def wrapf_def split: list.splits)
  then have "select_configs [\<lparr>cf_key = Some k\<rparr>] (w_db w) = []"
    unfolding GetConfigItems_def getConfigItems_def pick_config_stmt_def by (auto elim!: ok_elims)
  then show ?thesis
    by (auto simp: select_configs_def config_objects_def abs_config_None_iff filter_empty_conv)
qed

lemma IsCaRenewable_Ok:
  assumes ok: "db_ok (w_db w)" and run: "IsCaRenewable E w = (Ok b, w')"
  shows "(b \<longleftrightarrow> abs_config (w_db w) CAAutoRenew \<noteq> Some CaIsNotRenewable) \<and> w_db w' = w_db w"
proof -
  have same: "w_db w' = w_db w" using keepsD [OF dbv.keeps_IsCaRenewable refl run] .
  obtain w1 r w2 where w1: "w_db w1 = w_db w" and a: "attempt (GetConfigItem E CAAutoRenew) w1 = (Ok r, w2)"
    and k: "\<exists>w3. (case r of Inl e \<Rightarrow> (case e of StatusErr _ _ \<Rightarrow> ret True | _ \<Rightarrow> fail e)
                  | Inr c \<Rightarrow> ret (ci_value c \<noteq> CaIsNotRenewable)) w2 = (Ok b, w3)"
    using run unfolding IsCaRenewable_def by (elim transaction_OkE bind_OkE) blast
  have ok1: "db_ok (w_db w1)" using ok w1 by simp
  show ?thesis
  proof (cases r)
    case (Inl e)
    with k obtain c m where e: "e = StatusErr c m" and b by (cases e) auto
    moreover have "GetConfigItem E CAAutoRenew w1 = (Er e, w2)" using a Inl by (auto elim: attempt_OkE)
    ultimately show ?thesis using GetConfigItem_status [of E CAAutoRenew w1 c m w2] ok1 w1 same by simp
  next
    case (Inr c)
    then have "GetConfigItem E CAAutoRenew w1 = (Ok c, w2)" using a by (auto elim: attempt_OkE)
    from GetConfigItem_Ok [OF ok1 this] k Inr w1 same show ?thesis by auto
  qed
qed

text \<open>What \<open>GetCA\<close> returns is parsed from the stored pair.\<close>

lemma GetCA_Ok:
  assumes ok: "db_ok (w_db w)" and run: "GetCA E w = (Ok (c, k), w')"
  shows "\<exists>certPEM keyPEM ct cb cr kt kb kr.
     abs_config (w_db w) CACertRecordName = Some certPEM \<and>
     abs_config (w_db w) CAKeyRecordName = Some keyPEM \<and>
     e_pem_decode E certPEM = Some ((ct, cb), cr) \<and> e_parse_cert E cb = Inr c \<and>
     e_pem_decode E keyPEM = Some ((kt, kb), kr) \<and> parsePrivateKey E kb = Inr k"
proof -
  obtain certPEM keyPEM w1 ci ki w2 w3 w4 where w1: "w_db w1 = w_db w"
    and g1: "GetConfigItem E CACertRecordName w1 = (Ok ci, w2)"
    and g2: "GetConfigItem E CAKeyRecordName w2 = (Ok ki, w3)"
    and v: "certPEM = ci_value ci" "keyPEM = ci_value ki"
    and rest: "(case e_pem_decode E certPEM of
       None \<Rightarrow> fail (ErrS ''failed to decode CA certificate's PEM data'')
     | Some ((_, certBytes), _) \<Rightarrow>
     (case e_pem_decode E keyPEM of
       None \<Rightarrow> fail (ErrS ''failed to decode CA Private Key's PEM data'')
     | Some ((_, keyBytes), _) \<Rightarrow>
       bind (on_err (errf ''failed to parse CA certificate: '') (of_sum (e_parse_cert E certBytes))) (\<lambda>caCert.
       bind (on_err (errf ''failed to parse CA private key: '') (of_sum (parsePrivateKey E keyBytes))) (\<lambda>caKey.
       ret (caCert, caKey))))) w4 = (Ok (c, k), w')"
    using run unfolding GetCA_def
    by (elim bind_OkE [of "transaction E m" for m] transaction_OkE bind_OkE on_err_OkE) auto
  have ok1: "db_ok (w_db w1)" using ok w1 by simp
  have c1: "abs_config (w_db w) CACertRecordName = Some certPEM" and w2: "w_db w2 = w_db w1"
    using GetConfigItem_Ok [OF ok1 g1] w1 v by simp_all
  have ok2: "db_ok (w_db w2)" using ok1 w2 by simp
  have c2: "abs_config (w_db w) CAKeyRecordName = Some keyPEM"
    using GetConfigItem_Ok [OF ok2 g2] w1 w2 v by simp
  show ?thesis using rest c1 c2
    by (auto elim!: bind_OkE on_err_OkE split: option.splits)
qed

text \<open>Documented behaviour of \<open>encoding/pem\<close> and \<open>crypto/x509\<close>: decoding an encoded block gives the
  block, parsing a created certificate gives the template, parsing a marshalled key gives the key.\<close>

definition crypto_laws :: "env \<Rightarrow> bool" where
  "crypto_laws E \<longleftrightarrow>
     (\<forall>b. e_pem_decode E (e_pem_encode E ''CERTIFICATE'' b) = Some ((''CERTIFICATE'', b), [])) \<and>
     (\<forall>b. e_pem_decode E (e_pem_encode E ''EC PRIVATE KEY'' b) = Some ((''EC PRIVATE KEY'', b), [])) \<and>
     (\<forall>t p k s der c. e_create_cert E t p k s = Inr der \<longrightarrow> e_parse_cert E der = Inr c \<longrightarrow> c = t) \<and>
     (\<forall>k der. e_marshal_key E k = Inr der \<longrightarrow> e_parse_pkcs8 E der = Inr k)"

lemma crypto_laws_sample: "crypto_laws sample_env"
  by (auto simp: crypto_laws_def sample_env_def)

section \<open>Files of the services\<close>

lemma open_trunc_result: "open_trunc p mode f = Inr (g, u) \<Longrightarrow> \<exists>m. g = f(p \<mapsto> File m [])"
  by (auto simp: open_trunc_def split: option.splits fnode.splits if_splits)

lemma os_files_OkE [ok_elims]:
  assumes "os_Create E p w = (Ok u, w')"
  obtains m where "w_fs w' = (w_fs w)(p \<mapsto> File m [])" and "w_db w' = w_db w"
proof -
  obtain g where "open_trunc p 420 (w_fs w) = Inr (g, u)" and g: "w_fs w' = g" and db: "w_db w' = w_db w"
    using assms by (auto simp: os_Create_def os_OpenTrunc_def elim!: ok_elims)
  then obtain m where "g = (w_fs w)(p \<mapsto> File m [])" using open_trunc_result by blast
  then show ?thesis using that g db by simp
qed

lemma create_private_OkE [ok_elims]:
  assumes "create_private E p what w = (Ok u, w')"
  obtains "w_fs w' = (w_fs w)(p \<mapsto> File certFileMode [])" and "w_db w' = w_db w"
proof -
  obtain w1 v where c: "os_Create E p w = (Ok v, w1)" and m: "os_Chmod E p certFileMode w1 = (Ok u, w')"
    using assms unfolding create_private_def by (elim andthen_OkE on_err_OkE)
  from c obtain m0 where fs1: "w_fs w1 = (w_fs w)(p \<mapsto> File m0 [])" and db1: "w_db w1 = w_db w"
    by (rule os_files_OkE)
  from m have "w_fs w' = (w_fs w1)(p \<mapsto> File certFileMode []) \<and> w_db w' = w_db w1"
    by (auto simp: os_Chmod_def chmod_file_def fs1 elim!: ok_elims)
  then show ?thesis using that fs1 db1 by simp
qed

lemma os_Write_OkE [ok_elims]:
  assumes "os_Write E p s w = (Ok u, w')"
  obtains m t where "w_fs w p = Some (File m t)" and "w_fs w' = (w_fs w)(p \<mapsto> File m (t @ s))"
    and "w_db w' = w_db w"
proof -
  obtain g where "append_file p s (w_fs w) = Inr (g, u)" and g: "w_fs w' = g" and db: "w_db w' = w_db w"
    using assms by (auto simp: os_Write_def elim!: ok_elims)
  then obtain m t where "w_fs w p = Some (File m t)" and "g = (w_fs w)(p \<mapsto> File m (t @ s))"
    by (auto simp: append_file_def split: option.splits fnode.splits)
  then show ?thesis using that g db by simp
qed

lemma DumpCA_Ok:
  assumes ok: "db_ok (w_db w)" and run: "DumpCA E w = (Ok u, w')"
  shows "\<exists>pem. abs_config (w_db w) CACertRecordName = Some pem \<and>
     w_fs w' = (w_fs w)(PkiCaCertFile E \<mapsto> File certFileMode pem) \<and> w_db w' = w_db w"
proof -
  let ?get = "on_err (errf ''failed to get CA certificate from the database: '') (GetConfigItem E CACertRecordName)"
  obtain r w1 w2 where t: "transaction E ?get w = (Ok r, w1)"
    and c: "create_private E (PkiCaCertFile E) ''CA certificate'' w1 = (Ok (), w2)"
    and wr: "os_Write E (PkiCaCertFile E) (ci_value r) w2 = (Ok u, w')"
    using run unfolding DumpCA_def by (elim bind_OkE andthen_OkE on_err_OkE) auto
  have db1: "w_db w1 = w_db w"
    by (rule keepsD [OF keeps_transaction_db refl t]) (intro keeps_rules dbv.keeps_GetConfigItem)
  have fs1: "w_fs w1 = w_fs w"
    by (rule keepsD [OF keeps_transaction_fs refl t]) (intro keeps_rules fsv.keeps_GetConfigItem)
  obtain w3 w4 where w3: "w_db w3 = w_db w" and g: "GetConfigItem E CACertRecordName w3 = (Ok r, w4)"
    using t by (elim transaction_OkE on_err_OkE)
  have "db_ok (w_db w3)" using ok w3 by simp
  from GetConfigItem_Ok [OF this g] w3 have "abs_config (w_db w) CACertRecordName = Some (ci_value r)" by simp
  with c wr fs1 db1 show ?thesis by (auto elim!: create_private_OkE os_Write_OkE)
qed

text \<open>A finished call leaves a fresh certificate of the member and its key, readable by root only.\<close>

lemma GenerateNewServiceCertificate_Ok:
  assumes run: "GenerateNewServiceCertificate E srv ty w = (Ok u, w')"
    and distinct: "fst (getServiceCertFiles E srv) \<noteq> snd (getServiceCertFiles E srv)"
  shows "\<exists>ca w1 w2 cert key. GetCA E w1 = (Ok ca, w2) \<and> w_db w1 = w_db w \<and>
     issueCertificate E (e_name E) srv ty (Some ca) w2 = (Ok (cert, key), w2) \<and>
     w_fs w' = (w_fs w)(fst (getServiceCertFiles E srv) \<mapsto> File certFileMode cert,
                        snd (getServiceCertFiles E srv) \<mapsto> File certFileMode key) \<and>
     w_db w' = w_db w"
proof -
  obtain cp kp where f: "getServiceCertFiles E srv = (cp, kp)" by fastforce
  have p: "getServiceCertificatePaths E srv = Inr (cp, kp)"
    using run f unfolding GenerateNewServiceCertificate_def getServiceCertificatePaths_def
    by (auto elim!: bind_OkE on_err_OkE split: if_splits)
  obtain w1 w2 w3 w4 w5 ca cert key where
      c: "create_private E cp (srv @ '' certificate'') w = (Ok (), w1)"
    and k: "create_private E kp (srv @ '' private key'') w1 = (Ok (), w2)"
    and g: "GetCA E w2 = (Ok ca, w3)"
    and i: "issueCertificate E (e_name E) srv ty (Some ca) w3 = (Ok (cert, key), w4)"
    and wc: "os_Write E cp cert w4 = (Ok (), w5)" and wk: "os_Write E kp key w5 = (Ok u, w')"
    using run unfolding GenerateNewServiceCertificate_def p of_sum_def
    by (auto elim!: bind_OkE andthen_OkE on_err_OkE)
  have "w4 = w3" using issueCertificate_Ok [OF i] by blast
  moreover have "w_fs w3 = w_fs w2" using keepsD [OF fsv.keeps_GetCA refl g] .
  moreover have "w_db w3 = w_db w2" using keepsD [OF dbv.keeps_GetCA refl g] .
  moreover have "cp \<noteq> kp" using distinct f by simp
  moreover have w1: "w_fs w1 = (w_fs w)(cp \<mapsto> File certFileMode [])" "w_db w1 = w_db w"
    using c by (auto elim: create_private_OkE)
  moreover have w2: "w_fs w2 = (w_fs w1)(kp \<mapsto> File certFileMode [])" "w_db w2 = w_db w1"
    using k by (auto elim: create_private_OkE)
  moreover have "w_fs w5 = (w_fs w4)(cp \<mapsto> File certFileMode cert)" "w_db w5 = w_db w4"
    using wc calculation by (auto elim!: os_Write_OkE)
  moreover from this have "w_fs w' = (w_fs w5)(kp \<mapsto> File certFileMode key)" "w_db w' = w_db w5"
    using wk calculation by (auto elim!: os_Write_OkE)
  ultimately have "w_fs w' = (w_fs w)(cp \<mapsto> File certFileMode cert, kp \<mapsto> File certFileMode key)"
    and "w_db w' = w_db w" and "w_db w2 = w_db w"
    by (auto simp: fun_upd_twist)
  then show ?thesis using g i \<open>w4 = w3\<close> f
    by (intro exI [of _ ca] exI [of _ w2] exI [of _ w3] exI [of _ cert] exI [of _ key]) simp
qed

text \<open>The files are truncated before the authority is fetched: when that fails, whatever
  certificate was there is gone.\<close>

lemma GenerateNewServiceCertificate_truncates:
  assumes call: "GenerateNewServiceCertificate E srv ty w = (r, w')"
    and paths: "getServiceCertificatePaths E srv = Inr (cp, kp)" "cp \<noteq> kp"
    and opened: "create_private E cp (srv @ '' certificate'') w = (Ok (), w1)"
      "create_private E kp (srv @ '' private key'') w1 = (Ok (), w2)"
    and noca: "GetCA E w2 = (Er e, w3)"
  shows "r = Er e \<and> w_fs w' cp = Some (File certFileMode []) \<and> w_fs w' kp = Some (File certFileMode [])"
proof -
  have "GenerateNewServiceCertificate E srv ty w = (Er e, w3)"
    using opened noca by (simp add: GenerateNewServiceCertificate_def paths of_sum_def run)
  moreover have "w_fs w3 = w_fs w2" using keepsD [OF fsv.keeps_GetCA refl noca] .
  ultimately show ?thesis
    using call opened paths(2) by (auto elim!: create_private_OkE)
qed

section \<open>Properties\<close>

text \<open>C19: a CA generated by \<open>GenerateNewCACertificate\<close> is the one \<open>GetCA\<close> serves afterwards: a CA
  certificate with the signing usages, valid for ten years from its creation, with the generated key;
  and \<open>IsCaRenewable\<close> answers yes.\<close>

theorem generated_CA_served:
  assumes laws: "crypto_laws E" and ok: "db_ok (w_db w)"
    and gen: "GenerateNewCACertificate E w = (Ok u, w1)"
    and get: "w_db w2 = w_db w1" "GetCA E w2 = (Ok (c, k), w3)"
    and renew: "w_db w4 = w_db w1" "IsCaRenewable E w4 = (Ok b, w5)"
  shows "c_is_ca c \<and> c_key_usage c = or KeyUsageCertSign KeyUsageCRLSign \<and>
         c_not_before c = e_now E (w_trace w) \<and> c_not_after c = c_not_before c + CACertValidity \<and>
         e_gen_key E (w_trace w) = Inr k \<and> b"
proof -
  obtain cp kp w0 where i: "issueCertificate E ''MicroOVN CA'' ''MicroOVN CA'' CertificateTypeCA None w = (Ok (cp, kp), w0)"
    and stored: "\<exists>w9. storeCA E cp kp True w0 = (Ok u, w9) \<and> w_db w9 = w_db w1"
    using gen unfolding GenerateNewCACertificate_def by (force elim!: bind_OkE)
  from issueCertificate_Ok [OF i] obtain n key der kd where w0: "w0 = w"
    and t: "e_create_cert E (expected_cert (True, 96, 315360000) n ''MicroOVN CA'' ''MicroOVN CA''
              (e_now E (w_trace w))) (expected_cert (True, 96, 315360000) n ''MicroOVN CA'' ''MicroOVN CA''
              (e_now E (w_trace w))) key key = Inr der"
    and k: "e_gen_key E (w_trace w) = Inr key" "e_marshal_key E key = Inr kd"
    and pem: "cp = e_pem_encode E ''CERTIFICATE'' der" "kp = e_pem_encode E ''EC PRIVATE KEY'' kd"
    by auto
  obtain w9 where s: "storeCA E cp kp True w0 = (Ok u, w9)" and w9: "w_db w9 = w_db w1"
    using stored by blast
  have ok1: "db_ok (w_db w1)"
    using keepsD [OF keeps_storeCA_ok _ s] ok w0 w9 by simp
  from storeCA_Ok [OF _ s] ok w0 w9 have conf: "abs_config (w_db w1) = (abs_config (w_db w))
      (CACertRecordName \<mapsto> cp, CAKeyRecordName \<mapsto> kp, CAAutoRenew \<mapsto> CaIsRenewable)"
    by (simp add: renew_flag_def)
  have stored: "abs_config (w_db w1) CACertRecordName = Some cp" "abs_config (w_db w1) CAKeyRecordName = Some kp"
    "abs_config (w_db w1) CAAutoRenew = Some CaIsRenewable"
    by (simp_all add: conf CACertRecordName_def CAKeyRecordName_def CAAutoRenew_def)
  have "db_ok (w_db w2)" and "db_ok (w_db w4)" using ok1 get(1) renew(1) by simp_all
  from GetCA_Ok [OF this(1) get(2)] IsCaRenewable_Ok [OF this(2) renew(2)] stored get(1) renew(1) pem laws t k
  have c: "c = expected_cert (True, 96, 315360000) n ''MicroOVN CA'' ''MicroOVN CA'' (e_now E (w_trace w))"
    and "k = key" and b
    by (auto simp: crypto_laws_def parsePrivateKey_def CaIsRenewable_def CaIsNotRenewable_def)
  with k show ?thesis by (simp add: expected_cert_def usage_defs)
qed

text \<open>C20: \<open>SetNewCACertificate\<close> stores a pair only if every certificate of the chain is a CA allowed to
  sign, then marks it as not renewable; any refusal or failure leaves the configuration as it was.\<close>

theorem SetNewCACertificate_guarded:
  assumes ok: "db_ok (w_db w)" and call: "SetNewCACertificate E certPEM keyPEM w = (r, w')"
  shows "(case r of
      Ok updated \<Rightarrow>
        (\<exists>chain. e_key_pair E certPEM keyPEM = Inr chain \<and>
           (\<forall>d \<in> set chain. \<exists>x. e_parse_cert E d = Inr x \<and> c_is_ca x \<and>
              and (c_key_usage x) KeyUsageCertSign = KeyUsageCertSign)) \<and>
        abs_config (w_db w') = (abs_config (w_db w))(CACertRecordName \<mapsto> certPEM,
           CAKeyRecordName \<mapsto> keyPEM, CAAutoRenew \<mapsto> CaIsNotRenewable) \<and>
        (updated \<longleftrightarrow> abs_config (w_db w') \<noteq> abs_config (w_db w))
    | _ \<Rightarrow> w_db w' = w_db w)"
proof -
  have loop: "w_db w1 = w_db w" if "for_each (check_ca_cert E) chain w = (q, w1)" for chain q w1
    using keepsD [OF keeps_for_each [OF keeps_check_ca_cert] refl that] .
  show ?thesis
proof (cases r)
  case (Ok u)
  then obtain chain w1 where k: "e_key_pair E certPEM keyPEM = Inr chain"
    and l: "for_each (check_ca_cert E) chain w = (Ok (), w1)"
    and "\<exists>w9. storeCA E certPEM keyPEM False w1 = (Ok u, w9) \<and> w_db w9 = w_db w'"
    using call unfolding SetNewCACertificate_def by (force elim!: bind_OkE on_err_OkE andthen_OkE)
  then obtain w9 where s: "storeCA E certPEM keyPEM False w1 = (Ok u, w9)" and w9: "w_db w9 = w_db w'" by blast
  from for_each_check_ca [OF l] k storeCA_Ok [OF _ s] ok w9 show ?thesis
    by (simp add: Ok renew_flag_def)
next
  case (Er e)
  then show ?thesis using call loop
    by (cases "e_key_pair E certPEM keyPEM")
       (auto simp: SetNewCACertificate_def andthen_def bind_def
         dest!: storeCA_fails split: prod.splits res.splits)
next
  case (Panic m)
  then show ?thesis using call loop
    by (cases "e_key_pair E certPEM keyPEM")
       (auto simp: SetNewCACertificate_def andthen_def bind_def
         dest!: storeCA_fails split: prod.splits res.splits)
qed
qed

lemmas certificate_evals [evals] = log_stored_def issueCertificate_def storeCA_def store_item_def GenerateNewCACertificate_def
  check_ca_cert_def SetNewCACertificate_def IsCaRenewable_def GetCA_def parsePrivateKey_def
  CACertRecordName_def CAKeyRecordName_def CAAutoRenew_def CaIsRenewable_def CaIsNotRenewable_def
  usage_defs of_sum_def

theorem generated_CA_served_witness:
  "\<exists>w1 c k w3. GenerateNewCACertificate sample_env sample_world = (Ok True, w1) \<and>
     GetCA sample_env w1 = (Ok (c, k), w3) \<and> c_is_ca c \<and> k = ''k''"
proof -
  let ?g = "GenerateNewCACertificate sample_env sample_world"
  have "fst ?g = Ok True" by (simp add: evals sample_ca_def)
  then have g: "?g = (Ok True, snd ?g)" by (metis prod.collapse)
  have "\<exists>c k. fst (GetCA sample_env (snd ?g)) = Ok (c, k)" by (simp add: evals sample_ca_def GoBase.cut.simps)
  then obtain c k where c: "GetCA sample_env (snd ?g) = (Ok (c, k), snd (GetCA sample_env (snd ?g)))"
    by (metis prod.collapse)
  have "fst (IsCaRenewable sample_env (snd ?g)) = Ok True" by (simp add: evals sample_ca_def)
  then have b: "IsCaRenewable sample_env (snd ?g) = (Ok True, snd (IsCaRenewable sample_env (snd ?g)))"
    by (metis prod.collapse)
  from generated_CA_served [OF crypto_laws_sample db_ok_sample(1) g refl c refl b]
  have "c_is_ca c \<and> k = ''k''" by (simp add: sample_env_def)
  with g c show ?thesis by blast
qed

theorem SetNewCACertificate_guarded_witness:
  "\<exists>w'. SetNewCACertificate sample_env ''CA'' ''k'' sample_world = (Ok True, w') \<and>
     abs_config (w_db w') CAAutoRenew = Some CaIsNotRenewable"
proof -
  let ?c = "SetNewCACertificate sample_env ''CA'' ''k'' sample_world"
  have "fst ?c = Ok True" by (simp add: evals sample_ca_def)
  then have c: "?c = (Ok True, snd ?c)" by (metis prod.collapse)
  with SetNewCACertificate_guarded [OF db_ok_sample(1) c] show ?thesis by auto
qed

end
