(* ===== verification/NetAddr.thy ===== *)
theory NetAddr
  imports GoBase
begin

text \<open>
  The functions of packages \<open>net\<close> and \<open>net/netip\<close> the program uses: parsing and printing of IP
  addresses, \<open>ParseAddrPort\<close> and \<open>JoinHostPort\<close>.
\<close>

text \<open>An IPv4 address is its four octets, an IPv6 address its eight groups and a zone.\<close>

datatype addr = V4 "nat list" | V6 "nat list" string

section \<open>Parsing\<close>

definition parse_octet :: "string \<Rightarrow> nat option" where
  "parse_octet s =
     (if s = [] \<or> 3 < length s \<or> (1 < length s \<and> hd s = CHR ''0'') then None
      else case read_digits 0 s of None \<Rightarrow> None | Some v \<Rightarrow> if v \<le> 255 then Some v else None)"

fun all_some :: "'a option list \<Rightarrow> 'a list option" where
  "all_some [] = Some []"
| "all_some (x # xs) = (case x of None \<Rightarrow> None
     | Some v \<Rightarrow> (case all_some xs of None \<Rightarrow> None | Some vs \<Rightarrow> Some (v # vs)))"

definition parse_v4 :: "string \<Rightarrow> nat list option" where
  "parse_v4 s = (let fs = split_on CHR ''.'' s in
     if length fs = 4 then all_some (map parse_octet fs) else None)"

definition hex_val :: "char \<Rightarrow> nat option" where
  "hex_val c = (let n = (of_char c :: nat) in
     if 48 \<le> n \<and> n \<le> 57 then Some (n - 48)
     else if 97 \<le> n \<and> n \<le> 102 then Some (n - 87)
     else if 65 \<le> n \<and> n \<le> 70 then Some (n - 55) else None)"

definition hex_run :: "string \<Rightarrow> string" where
  "hex_run s = takeWhile (\<lambda>c. hex_val c \<noteq> None) s"

definition read_hex :: "string \<Rightarrow> nat" where
  "read_hex s = foldl (\<lambda>acc c. 16 * acc + the (hex_val c)) 0 s"

text \<open>The loop over the groups of an IPv6 address: \<open>n\<close> groups are still free, \<open>acc\<close> holds the groups
  read, in reverse, and \<open>ell\<close> the position of the ellipsis.\<close>

fun v6_loop :: "nat \<Rightarrow> nat list \<Rightarrow> nat option \<Rightarrow> string \<Rightarrow> (nat list \<times> nat option \<times> string) option" where
  "v6_loop 0 acc ell s = Some (rev acc, ell, s)"
| "v6_loop (Suc n) acc ell s =
     (let h = hex_run s; r = drop (length h) s in
      if h = [] \<or> 4 < length h then None
      else if r \<noteq> [] \<and> hd r = CHR ''.'' then
        (if ell = None \<and> n \<noteq> 1 then None
         else if n = 0 then None
         else case parse_v4 s of
                Some [a, b, c, d] \<Rightarrow> Some (rev acc @ [a * 256 + b, c * 256 + d], ell, [])
              | _ \<Rightarrow> None)
      else let acc' = read_hex h # acc in
        if r = [] then Some (rev acc', ell, [])
        else if hd r \<noteq> CHR '':'' \<or> length r = 1 then None
        else let r' = tl r in
          if hd r' = CHR '':'' then
            (if ell \<noteq> None then None
             else if tl r' = [] then Some (rev acc', Some (length acc'), [])
             else v6_loop n acc' (Some (length acc')) (tl r'))
          else v6_loop n acc' ell r')"

definition parse_v6 :: "string \<Rightarrow> nat list option" where
  "parse_v6 s =
     (let lead = prefix ''::'' s; s' = (if lead then drop 2 s else s) in
      if lead \<and> s' = [] then Some (replicate 8 0)
      else case v6_loop 8 [] (if lead then Some 0 else None) s' of
        None \<Rightarrow> None
      | Some (gs, ell, rest) \<Rightarrow>
          if rest \<noteq> [] then None
          else if length gs < 8 then
            (case ell of None \<Rightarrow> None
             | Some e \<Rightarrow> Some (take e gs @ replicate (8 - length gs) 0 @ drop e gs))
          else if ell \<noteq> None then None else Some gs)"

text \<open>\<open>netip.ParseAddr\<close>: the first of dot, colon and percent decides.\<close>

definition ParseAddr :: "string \<Rightarrow> addr option" where
  "ParseAddr s = (case find (\<lambda>c. c = CHR ''.'' \<or> c = CHR '':'' \<or> c = CHR ''%'') s of
       None \<Rightarrow> None
     | Some c \<Rightarrow>
         if c = CHR ''.'' then map_option V4 (parse_v4 s)
         else if c = CHR ''%'' then None
         else (case cut CHR ''%'' s of
             None \<Rightarrow> map_option (\<lambda>g. V6 g []) (parse_v6 s)
           | Some (a, z) \<Rightarrow> if z = [] then None else map_option (\<lambda>g. V6 g z) (parse_v6 a)))"

definition is6 :: "addr \<Rightarrow> bool" where
  "is6 a = (case a of V4 _ \<Rightarrow> False | V6 _ _ \<Rightarrow> True)"

text \<open>\<open>netip.ParseAddrPort\<close>; the split is at the last colon.\<close>

definition cut_last :: "char \<Rightarrow> string \<Rightarrow> (string \<times> string) option" where
  "cut_last c s = map_option (\<lambda>(a, b). (rev b, rev a)) (cut c (rev s))"

definition ParseAddrPort :: "string \<Rightarrow> (addr \<times> nat) option" where
  "ParseAddrPort s = (case cut_last CHR '':'' s of
       None \<Rightarrow> None
     | Some (ip, port) \<Rightarrow>
         if ip = [] \<or> port = [] then None
         else
           let v6 = (hd ip = CHR ''[''); bad = (v6 \<and> (length ip < 2 \<or> last ip \<noteq> CHR '']''));
               host = (if v6 then butlast (tl ip) else ip)
           in if bad then None
              else case (parse_uint 16 port, ParseAddr host) of
                (Some p, Some a) \<Rightarrow> if is6 a = v6 then Some (a, p) else None
              | _ \<Rightarrow> None)"

text \<open>\<open>net.ParseIP(s) != nil\<close>: a zone is refused.\<close>

definition valid_ip :: "string \<Rightarrow> bool" where
  "valid_ip s = (case ParseAddr s of None \<Rightarrow> False | Some (V4 _) \<Rightarrow> True | Some (V6 _ z) \<Rightarrow> z = [])"

section \<open>Printing\<close>

definition show_v4 :: "nat list \<Rightarrow> string" where
  "show_v4 os = join ''.'' (map show_nat os)"

definition hex_digit :: "nat \<Rightarrow> char" where
  "hex_digit d = (if d < 10 then char_of (48 + d) else char_of (87 + d))"

fun show_hex :: "nat \<Rightarrow> string" where
  "show_hex n = (if n < 16 then [hex_digit n] else show_hex (n div 16) @ [hex_digit (n mod 16)])"

declare show_hex.simps [simp del]

text \<open>The first longest run of at least two zero groups: its start and end.\<close>

definition zero_run :: "nat list \<Rightarrow> nat \<times> nat" where
  "zero_run gs = fold (\<lambda>i (a, b).
      let j = i + length (takeWhile (\<lambda>g. g = 0) (drop i gs)) in
      if 2 \<le> j - i \<and> b - a < j - i then (i, j) else (a, b)) [0 ..< 8] (255, 255)"

definition show_v6 :: "nat list \<Rightarrow> string" where
  "show_v6 gs = (case zero_run gs of (a, b) \<Rightarrow>
     if a < 8 then join '':'' (map show_hex (take a gs)) @ ''::'' @ join '':'' (map show_hex (drop b gs))
     else join '':'' (map show_hex gs))"

definition is_4in6 :: "nat list \<Rightarrow> bool" where
  "is_4in6 gs \<longleftrightarrow> take 6 gs = [0, 0, 0, 0, 0, 65535]"

definition show_addr :: "addr \<Rightarrow> string" where
  "show_addr a = (case a of
       V4 os \<Rightarrow> show_v4 os
     | V6 gs z \<Rightarrow>
         (if is_4in6 gs
          then ''::ffff:'' @ show_v4 [gs ! 6 div 256, gs ! 6 mod 256, gs ! 7 div 256, gs ! 7 mod 256]
          else show_v6 gs) @ (if z = [] then [] else ''%'' @ z))"

text \<open>\<open>net.JoinHostPort\<close>: a host with colons goes in brackets.\<close>

definition JoinHostPort :: "string \<Rightarrow> string \<Rightarrow> string" where
  "JoinHostPort host port =
     (if CHR '':'' \<in> set host then ''['' @ host @ '']:'' @ port else host @ '':'' @ port)"

section \<open>IPv4 round trip\<close>

lemma all_some_map: "(\<And>x. x \<in> set xs \<Longrightarrow> f x = Some (g x)) \<Longrightarrow> all_some (map f xs) = Some (map g xs)"
  by (induction xs) auto

lemma parse_octet_show:
  assumes "n \<le> 255"
  shows "parse_octet (show_nat n) = Some n"
proof -
  have "show_nat n \<noteq> []" and "read_digits 0 (show_nat n) = Some n" by simp_all
  moreover have "length (show_nat n) \<le> 3 \<and> (1 < length (show_nat n) \<longrightarrow> hd (show_nat n) \<noteq> CHR ''0'')"
  proof (cases "n < 10")
    case True
    then show ?thesis by (simp add: show_nat.simps)
  next
    case F1: False
    have digit: "digit_char d \<noteq> CHR ''0''" if "0 < d" "d < 10" for d
    proof
      assume "digit_char d = CHR ''0''"
      then have "(of_char (digit_char d) :: nat) = of_char (CHR ''0'')" by simp
      with that show False by simp
    qed
    show ?thesis
    proof (cases "n < 100")
      case True
      with F1 digit [of "n div 10"] show ?thesis
        by (simp add: show_nat.simps [of n] show_nat.simps [of "n div 10"] div_less_iff_less_mult)
    next
      case False
      with assms digit [of "n div 10 div 10"] show ?thesis
        by (simp add: show_nat.simps [of n] show_nat.simps [of "n div 10"] show_nat.simps [of "n div 10 div 10"]
            div_less_iff_less_mult)
    qed
  qed
  ultimately show ?thesis using assms by (auto simp: parse_octet_def)
qed

lemma parse_v4_show:
  assumes "length os = 4" and "\<forall>n \<in> set os. n \<le> 255"
  shows "parse_v4 (show_v4 os) = Some os"
proof -
  have "split_on CHR ''.'' (show_v4 os) = map show_nat os"
    using assms(1) unfolding show_v4_def by (intro split_on_join) auto
  moreover have "all_some (map (parse_octet \<circ> show_nat) os) = Some (map id os)"
    using assms(2) by (intro all_some_map) (simp add: parse_octet_show)
  ultimately show ?thesis using assms(1) by (simp add: parse_v4_def)
qed

end
