(* ===== verification/Environment.thy ===== *)
theory Environment
  imports Certificates NetAddr
begin

text \<open>
  Package \<open>environment\<close> (ovn/environment/environment.go): which addresses the OVN central services
  have, how the connection strings are built and the file ovn.env. \<open>CreatePaths\<close> and \<open>CleanupPaths\<close>
  are in the theory of the file system.
\<close>

definition NetworkProtocol :: "env \<Rightarrow> string io" where
  "NetworkProtocol E = bind (attempt (GetCA E))
     (\<lambda>r. case r of Inl _ \<Rightarrow> ret ''tcp'' | Inr _ \<Rightarrow> ret ''ssl'')"

definition IsExternalCentralConfigured :: "env \<Rightarrow> bool io" where
  "IsExternalCentralConfigured E = bind (GetConfig E ''ovn.central-ips'') (\<lambda>c. ret (c \<noteq> None))"

definition remoteAddressesFromConfig :: "env \<Rightarrow> string list option io" where
  "remoteAddressesFromConfig E = bind (GetConfig E ''ovn.central-ips'')
     (\<lambda>c. ret (map_option (\<lambda>i. split_on CHR '','' (ci_value i)) c))"

text \<open>Rows of \<open>SELECT ... FROM core_cluster_members\<close>; \<open>rows.Err()\<close> is read after the loop.\<close>

definition query_members :: "env \<Rightarrow> member_row list io" where
  "query_members E = query_stmt E ''core_cluster_members'' members"

definition rows_err :: "env \<Rightarrow> unit io" where
  "rows_err E = step E (Sql ''rows'')"

definition add_address :: "service list \<Rightarrow> member_row \<Rightarrow> string list \<Rightarrow> string list io" where
  "add_address servers m addrs =
     (if \<exists>s \<in> set servers. sv_member s = m_name m
      then (case ParseAddrPort (m_addr m) of
          None \<Rightarrow> fail (ErrS (''invalid address '' @ m_addr m))
        | Some (a, _) \<Rightarrow> ret (addrs @ [show_addr a]))
      else ret addrs)"

definition defaultRemoteAddresses :: "env \<Rightarrow> string list io" where
  "defaultRemoteAddresses E = transaction E
     (bind (GetServices E [\<lparr>sf_member = None, sf_service = Some ''central''\<rparr>]) (\<lambda>servers.
      bind (query_members E) (\<lambda>rows.
      bind (fold_io (add_address servers) rows []) (\<lambda>addrs.
      andthen (rows_err E) (ret addrs)))))"

definition CentralIps :: "env \<Rightarrow> string list io" where
  "CentralIps E = bind (remoteAddressesFromConfig E)
     (\<lambda>a. case a of None \<Rightarrow> defaultRemoteAddresses E | Some addrs \<Rightarrow> ret addrs)"

definition initialNbSbHost :: "string \<Rightarrow> string list \<Rightarrow> string" where
  "initialNbSbHost localAddr addrList =
     (let single = (if length addrList = 1 then hd addrList else []);
          node = (if single = [] then (case find (\<lambda>a. a \<noteq> localAddr) addrList of
                                        None \<Rightarrow> [] | Some a \<Rightarrow> a)
                  else single)
      in if CHR '':'' \<in> set node then ''['' @ node @ '']'' else node)"

definition endpoints :: "string \<Rightarrow> nat \<Rightarrow> string list \<Rightarrow> string" where
  "endpoints protocol port addrList =
     join '','' (map (\<lambda>a. protocol @ '':'' @ JoinHostPort a (show_nat port)) addrList)"

definition ConnectionString :: "env \<Rightarrow> string list \<Rightarrow> nat \<Rightarrow> string io" where
  "ConnectionString E addrList port =
     bind (NetworkProtocol E) (\<lambda>protocol. ret (endpoints protocol port addrList))"

definition ovnEnvTpl :: "string \<Rightarrow> string \<Rightarrow> string \<Rightarrow> string \<Rightarrow> string \<Rightarrow> string" where
  "ovnEnvTpl localAddr nbInitial sbInitial nbConnect sbConnect =
     (let nl = [CHR 0x0A] in
      ''# # Generated by MicroOVN, DO NOT EDIT.'' @ nl @
      ''OVN_INITIAL_NB='' @ quoted nbInitial @ nl @
      ''OVN_INITIAL_SB='' @ quoted sbInitial @ nl @
      ''OVN_NB_CONNECT='' @ quoted nbConnect @ nl @
      ''OVN_SB_CONNECT='' @ quoted sbConnect @ nl @
      ''OVN_LOCAL_IP='' @ quoted localAddr @ nl)"

definition bracket6 :: "string \<Rightarrow> string" where
  "bracket6 a = (case ParseAddr a of
       Some ip \<Rightarrow> if is6 ip then ''['' @ a @ '']'' else a
     | None \<Rightarrow> a)"

definition GenerateEnvironment :: "env \<Rightarrow> unit io" where
  "GenerateEnvironment E =
     bind (on_err (wrapf ''failed to get OVN central IPs: '') (CentralIps E)) (\<lambda>centralIps.
     bind (ConnectionString E centralIps 6641) (\<lambda>nbConnect.
     bind (ConnectionString E centralIps 6642) (\<lambda>sbConnect.
     let initial = initialNbSbHost (e_host E) centralIps in
     andthen (on_err (wrapf (''couldn't open ovn.env: '')) (os_OpenTrunc E (OvnEnvFile E) 420))
     (on_err (wrapf (''couldn't render ovn.env: ''))
        (os_Write E (OvnEnvFile E)
          (ovnEnvTpl (bracket6 (e_host E)) initial initial nbConnect sbConnect))))))"

section \<open>Frame lemmas\<close>

lemma keeps_add_address [keeps_rules]: "keeps P (add_address ss m a)"
  unfolding add_address_def by (intro keeps_rules)

lemma np_environment [np_rules]:
  "no_panic (CentralIps E)" "no_panic (NetworkProtocol E)" "no_panic (ConnectionString E a p)"
  "no_panic (GenerateEnvironment E)" "no_panic (IsExternalCentralConfigured E)" "no_panic (query_members E)"
  "no_panic (rows_err E)"
  unfolding CentralIps_def remoteAddressesFromConfig_def defaultRemoteAddresses_def add_address_def
    NetworkProtocol_def ConnectionString_def GenerateEnvironment_def IsExternalCentralConfigured_def
    query_members_def rows_err_def
  by (intro np_rules)+

context trace_blind
begin

lemma keeps_NetworkProtocol [keeps_rules]: "keeps P (NetworkProtocol E)"
  unfolding NetworkProtocol_def by (intro keeps_rules keeps_GetCA)

lemma keeps_IsExternalCentralConfigured [keeps_rules]: "keeps P (IsExternalCentralConfigured E)"
  unfolding IsExternalCentralConfigured_def by (intro keeps_rules keeps_GetConfig)

lemma keeps_query_members [keeps_rules]: "keeps P (query_members E)" "keeps P (rows_err E)"
  unfolding query_members_def rows_err_def by (intro keeps_rules keeps_step)+

lemma keeps_CentralIps [keeps_rules]: "keeps P (CentralIps E)"
  unfolding CentralIps_def remoteAddressesFromConfig_def defaultRemoteAddresses_def
  by (intro keeps_rules keeps_transaction_read keeps_GetConfig keeps_query_members keeps_GetServices
      dbv.keeps_query_members dbv.keeps_GetServices)

lemma keeps_ConnectionString [keeps_rules]: "keeps P (ConnectionString E a p)"
  unfolding ConnectionString_def by (intro keeps_rules keeps_NetworkProtocol)

end

context fs_blind
begin

lemma keeps_GenerateEnvironment [keeps_rules]: "keeps P (GenerateEnvironment E)"
  unfolding GenerateEnvironment_def
  by (intro keeps_rules keeps_CentralIps keeps_ConnectionString keeps_os)

end

section \<open>Which addresses\<close>

text \<open>The members that run a service, in the order of the member table.\<close>

definition members_with :: "string \<Rightarrow> db \<Rightarrow> member_row list" where
  "members_with srv d = filter (\<lambda>m. (m_name m, srv) \<in> abs_services d) (members d)"

lemma set_select_services: "x \<in> set (select_services fs d) \<longleftrightarrow>
    x \<in> set (service_objects d) \<and> (fs = [] \<or> (\<exists>f \<in> set fs. filter_matches f x))"
  by (auto simp: select_services_def)

lemma selected_member:
  "(\<exists>s \<in> set (select_services [\<lparr>sf_member = None, sf_service = Some srv\<rparr>] d). sv_member s = m) \<longleftrightarrow>
   (m, srv) \<in> abs_services d"
  by (auto simp: set_select_services filter_matches_def set_service_objects(2))

lemma fold_add_address:
  assumes "fold_io (add_address ss) ms acc w = (Ok addrs, w')"
  shows "w' = w \<and> (\<exists>as. list_all2 (\<lambda>m a. \<exists>p. ParseAddrPort (m_addr m) = Some (a, p))
           (filter (\<lambda>m. \<exists>s \<in> set ss. sv_member s = m_name m) ms) as \<and>
         addrs = acc @ map show_addr as)"
  using assms
proof (induction ms arbitrary: acc w)
  case (Cons m ms)
  then obtain acc1 w1 where step: "add_address ss m acc w = (Ok acc1, w1)"
    and rest: "fold_io (add_address ss) ms acc1 w1 = (Ok addrs, w')"
    by (auto elim: bind_OkE)
  from Cons.IH [OF rest] obtain as where IH: "w' = w1" "list_all2 (\<lambda>m a. \<exists>p. ParseAddrPort (m_addr m) = Some (a, p))
           (filter (\<lambda>m. \<exists>s \<in> set ss. sv_member s = m_name m) ms) as" "addrs = acc1 @ map show_addr as"
    by blast
  show ?case
  proof (cases "\<exists>s \<in> set ss. sv_member s = m_name m")
    case True
    with step obtain a p where "ParseAddrPort (m_addr m) = Some (a, p)" "acc1 = acc @ [show_addr a]" "w1 = w"
      by (auto simp: add_address_def split: option.splits)
    with IH True show ?thesis by (auto intro!: exI [of _ "a # as"])
  next
    case False
    with step IH show ?thesis by (auto simp: add_address_def)
  qed
qed simp

lemma CentralIps_Ok:
  assumes ok: "db_ok (w_db w)" and call: "CentralIps E w = (Ok ips, w')"
  shows "case abs_config (w_db w) ''ovn.central-ips'' of
      Some v \<Rightarrow> ips = split_on CHR '','' v
    | None \<Rightarrow> \<exists>as. list_all2 (\<lambda>m a. \<exists>p. ParseAddrPort (m_addr m) = Some (a, p))
                (members_with ''central'' (w_db w)) as \<and> ips = map show_addr as"
proof -
  obtain c w1 where g: "GetConfig E ''ovn.central-ips'' w = (Ok c, w1)"
    and k: "(case map_option (\<lambda>i. split_on CHR '','' (ci_value i)) c of
        None \<Rightarrow> defaultRemoteAddresses E | Some addrs \<Rightarrow> ret addrs) w1 = (Ok ips, w')"
    using call unfolding CentralIps_def remoteAddressesFromConfig_def bind_assoc
    by (elim bind_OkE) (auto elim!: bind_OkE)
  from GetConfig_Ok [OF ok g] have conf: "map_option ci_value c = abs_config (w_db w) ''ovn.central-ips''"
    and db1: "w_db w1 = w_db w" by simp_all
  show ?thesis
  proof (cases c)
    case (Some i)
    with k conf have "abs_config (w_db w) ''ovn.central-ips'' = Some (ci_value i)" "ips = split_on CHR '','' (ci_value i)"
      by auto
    then show ?thesis by simp
  next
    case None
    with k have "defaultRemoteAddresses E w1 = (Ok ips, w')" by simp
    then obtain w2 servers w3 rows w4 w5 where w2: "w_db w2 = w_db w1"
      and gs: "GetServices E [\<lparr>sf_member = None, sf_service = Some ''central''\<rparr>] w2 = (Ok servers, w3)"
      and q: "query_members E w3 = (Ok rows, w4)"
      and loop: "fold_io (add_address servers) rows [] w4 = (Ok ips, w5)"
      unfolding defaultRemoteAddresses_def by (elim transaction_OkE bind_OkE) (auto elim!: andthen_OkE)
    from GetServices_Ok [OF gs] w2 db1
    have s: "servers = select_services [\<lparr>sf_member = None, sf_service = Some ''central''\<rparr>] (w_db w)"
      and w3: "w_db w3 = w_db w" by simp_all
    from q w3 have "rows = members (w_db w)" unfolding query_members_def by (auto elim!: query_stmt_OkE)
    with fold_add_address [OF loop] s conf None show ?thesis
      by (auto simp: selected_member members_with_def)
  qed
qed

section \<open>Initial node and endpoints\<close>

text \<open>The node a database joins: the only central, or else the first central that is not local.\<close>

lemma initialNbSbHost_cases:
  "initialNbSbHost l [a] = (if CHR '':'' \<in> set a then ''['' @ a @ '']'' else a)"
  "length as \<noteq> 1 \<Longrightarrow> initialNbSbHost l as = (case find (\<lambda>a. a \<noteq> l) as of None \<Rightarrow> []
     | Some a \<Rightarrow> if CHR '':'' \<in> set a then ''['' @ a @ '']'' else a)"
  by (auto simp: initialNbSbHost_def Let_def split: option.splits)

lemma JoinHostPort_no_comma:
  "CHR '','' \<notin> set a \<Longrightarrow> CHR '','' \<notin> set (JoinHostPort a (show_nat port))"
  by (auto simp: JoinHostPort_def)

lemma endpoints_Nil_iff: "endpoints protocol port as = [] \<longleftrightarrow> as = []"
  by (cases as) (auto simp: endpoints_def join_Cons)

lemma endpoints_split:
  assumes "as \<noteq> []" and "\<And>a. a \<in> set as \<Longrightarrow> CHR '','' \<notin> set a" and "CHR '','' \<notin> set protocol"
  shows "split_on CHR '','' (endpoints protocol port as) =
         map (\<lambda>a. protocol @ '':'' @ JoinHostPort a (show_nat port)) as"
  using assms JoinHostPort_no_comma unfolding endpoints_def by (intro split_on_join) auto

lemma NetworkProtocol_Ok:
  "NetworkProtocol E w = (Ok p, w') \<Longrightarrow> p = (if \<exists>x. fst (GetCA E w) = Ok x then ''ssl'' else ''tcp'')"
  by (auto simp: NetworkProtocol_def elim!: bind_OkE attempt_OkE)

lemma ConnectionString_Ok:
  assumes "ConnectionString E as port w = (Ok s, w')"
  shows "\<exists>p \<in> {''tcp'', ''ssl''}. s = endpoints p port as"
  using assms by (auto simp: ConnectionString_def NetworkProtocol_def elim!: bind_OkE split: sum.splits)

section \<open>Properties\<close>

text \<open>C24: a successful \<open>GenerateEnvironment\<close> writes exactly the file ovn.env: the endpoints of the
  configured central addresses or else of the members with the central service, the initial node, and
  the local address, in brackets when it is IPv6.\<close>

theorem GenerateEnvironment_Ok:
  assumes ok: "db_ok (w_db w)" and call: "GenerateEnvironment E w = (Ok u, w')"
  shows "\<exists>ips m nbP sbP.
     (case abs_config (w_db w) ''ovn.central-ips'' of
        Some v \<Rightarrow> ips = split_on CHR '','' v
      | None \<Rightarrow> \<exists>as. list_all2 (\<lambda>m a. \<exists>p. ParseAddrPort (m_addr m) = Some (a, p))
                  (members_with ''central'' (w_db w)) as \<and> ips = map show_addr as) \<and>
     {nbP, sbP} \<subseteq> {''tcp'', ''ssl''} \<and>
     w_fs w' = (w_fs w)(OvnEnvFile E \<mapsto> File m (ovnEnvTpl (bracket6 (e_host E))
        (initialNbSbHost (e_host E) ips) (initialNbSbHost (e_host E) ips)
        (endpoints nbP 6641 ips) (endpoints sbP 6642 ips))) \<and>
     w_db w' = w_db w"
proof -
  obtain ips w1 nb w2 sb w3 w4 where c: "CentralIps E w = (Ok ips, w1)"
    and nb: "ConnectionString E ips 6641 w1 = (Ok nb, w2)" and sb: "ConnectionString E ips 6642 w2 = (Ok sb, w3)"
    and op: "os_OpenTrunc E (OvnEnvFile E) 420 w3 = (Ok (), w4)"
    and wr: "os_Write E (OvnEnvFile E) (ovnEnvTpl (bracket6 (e_host E)) (initialNbSbHost (e_host E) ips)
               (initialNbSbHost (e_host E) ips) nb sb) w4 = (Ok u, w')"
    using call unfolding GenerateEnvironment_def Let_def by (elim bind_OkE andthen_OkE on_err_OkE) auto
  have "w_fs w3 = w_fs w" "w_db w3 = w_db w"
    using keepsD [OF fsv.keeps_CentralIps refl c] keepsD [OF fsv.keeps_ConnectionString refl nb]
      keepsD [OF fsv.keeps_ConnectionString refl sb] keepsD [OF dbv.keeps_CentralIps refl c]
      keepsD [OF dbv.keeps_ConnectionString refl nb] keepsD [OF dbv.keeps_ConnectionString refl sb] by simp_all
  moreover obtain m where "w_fs w4 = (w_fs w3)(OvnEnvFile E \<mapsto> File m [])" "w_db w4 = w_db w3"
    using op by (auto simp: os_Create_def [symmetric] elim!: os_files_OkE)
  ultimately have fs: "w_fs w' = (w_fs w)(OvnEnvFile E \<mapsto> File m (ovnEnvTpl (bracket6 (e_host E))
      (initialNbSbHost (e_host E) ips) (initialNbSbHost (e_host E) ips) nb sb))" and db: "w_db w' = w_db w"
    using wr by (auto elim!: os_Write_OkE)
  obtain p q where "p \<in> {''tcp'', ''ssl''}" "nb = endpoints p 6641 ips"
    "q \<in> {''tcp'', ''ssl''}" "sb = endpoints q 6642 ips"
    using ConnectionString_Ok [OF nb] ConnectionString_Ok [OF sb] by blast
  with fs db CentralIps_Ok [OF ok c] show ?thesis
    by (intro exI [of _ ips] exI [of _ m] exI [of _ p] exI [of _ q] conjI) simp_all
qed

lemmas environment_evals [evals] = GenerateEnvironment_def CentralIps_def remoteAddressesFromConfig_def
  defaultRemoteAddresses_def query_members_def rows_err_def add_address_def ConnectionString_def
  NetworkProtocol_def GetCA_def

theorem GenerateEnvironment_Ok_witness:
  "\<exists>m nbP sbP. w_fs (snd (GenerateEnvironment sample_env world_with_env)) =
     (w_fs world_with_env)(OvnEnvFile sample_env \<mapsto> File m (ovnEnvTpl ''10.0.0.1'' [] [] (endpoints nbP 6641 [])
       (endpoints sbP 6642 [])))"
proof -
  let ?c = "GenerateEnvironment sample_env world_with_env"
  have "fst ?c = Ok ()" by (simp add: evals world_with_env_def)
  then have "?c = (Ok (), snd ?c)" by (metis prod.collapse)
  moreover have "bracket6 ''10.0.0.1'' = ''10.0.0.1''" by code_simp
  moreover have "members_with ''central'' (w_db world_with_env) = []"
    "abs_config (w_db world_with_env) = Map.empty" "e_host sample_env = ''10.0.0.1''"
    by (simp_all add: members_with_def abs_services_def abs_config_def evals world_with_env_def)
  moreover have "initialNbSbHost ''10.0.0.1'' [] = []" by (simp add: initialNbSbHost_def)
  ultimately show ?thesis
    using GenerateEnvironment_Ok [of world_with_env sample_env "()" "snd ?c"] by auto
qed

end
