(* ===== verification/OvnCmd.thy ===== *)
theory OvnCmd
  imports Environment
begin

text \<open>
  Packages \<open>snap\<close> (snap/snap.go), \<open>cmd\<close> (ovn/cmd/commands.go) and \<open>cluster\<close>
  (ovn/cluster/cluster.go): the command lines of snapctl and of the OVN tools, waiting for a database
  and retrying a command.
\<close>

section \<open>Package snap\<close>

definition Start :: "env \<Rightarrow> string \<Rightarrow> bool \<Rightarrow> unit io" where
  "Start E srv enable = bind (run_cmd E ([''snapctl'', ''start'', ''microovn.'' @ srv] @
     (if enable then [''--enable''] else []))) (\<lambda>_. ret ())"

definition Stop :: "env \<Rightarrow> string \<Rightarrow> bool \<Rightarrow> unit io" where
  "Stop E srv disable = bind (run_cmd E ([''snapctl'', ''stop'', ''microovn.'' @ srv] @
     (if disable then [''--disable''] else []))) (\<lambda>_. ret ())"

definition Restart :: "env \<Rightarrow> string \<Rightarrow> unit io" where
  "Restart E srv = bind (run_cmd E [''snapctl'', ''restart'', ''microovn.'' @ srv]) (\<lambda>_. ret ())"

definition Reload :: "env \<Rightarrow> string \<Rightarrow> unit io" where
  "Reload E srv =
     bind (run_cmd E [''snapctl'', ''restart'', ''--reload'', ''microovn.'' @ srv]) (\<lambda>_. ret ())"

section \<open>Package cmd\<close>

definition DefaultDBConnectWait :: nat where "DefaultDBConnectWait = 30"
definition OvsdbConnected :: string where "OvsdbConnected = ''connected''"
definition OvsdbRemoved :: string where "OvsdbRemoved = ''removed''"

record OvsdbSpec =
  SocketURL :: string
  DbName :: string
  ShortName :: string
  FriendlyName :: string
  Schema :: string
  IsCentral :: bool

datatype OvsdbType = OvsdbTypeNBLocal | OvsdbTypeSBLocal | OvsdbTypeSwitchLocal | OvsdbTypeOther int

definition NewOvsdbSpec :: "env \<Rightarrow> OvsdbType \<Rightarrow> goerr + OvsdbSpec" where
  "NewOvsdbSpec E dbType = (case dbType of
       OvsdbTypeNBLocal \<Rightarrow> Inr \<lparr>SocketURL = ''unix:'' @ OvnNBDatabaseSock E, DbName = ''OVN_Northbound'',
         ShortName = ''nb'', FriendlyName = ''Northbound'', Schema = OvsdbNbSchema E, IsCentral = True\<rparr>
     | OvsdbTypeSBLocal \<Rightarrow> Inr \<lparr>SocketURL = ''unix:'' @ OvnSBDatabaseSock E, DbName = ''OVN_Southbound'',
         ShortName = ''sb'', FriendlyName = ''Southbound'', Schema = OvsdbSbSchema E, IsCentral = True\<rparr>
     | OvsdbTypeSwitchLocal \<Rightarrow> Inr \<lparr>SocketURL = ''unix:'' @ OvsDatabaseSock E, DbName = ''Open_vSwitch'',
         ShortName = ''switch'', FriendlyName = ''OpenvSwitch'', Schema = OvsdbSwitchSchema E,
         IsCentral = False\<rparr>
     | OvsdbTypeOther _ \<Rightarrow> Inl (ErrS ''unknown ovsdb type''))"

definition WaitForDBState :: "env \<Rightarrow> OvsdbSpec \<Rightarrow> string \<Rightarrow> nat \<Rightarrow> unit io" where
  "WaitForDBState E db dbState timeout =
     on_err (wrapf (''database in '' @ squoted (DbName db) @ '' ('' @ SocketURL db @
               '') failed to reach state '' @ squoted dbState @ '': ''))
       (bind (run_cmd E [''ovsdb-client'', ''--timeout'', show_nat timeout, ''wait'',
                         SocketURL db, DbName db, dbState]) (\<lambda>_. ret ()))"

definition cluster_socket_url :: "string \<Rightarrow> nat \<Rightarrow> string" where
  "cluster_socket_url ip port = ''ssl:'' @ ip @ '':'' @ show_nat port"

definition cluster_probe :: "env \<Rightarrow> string \<Rightarrow> string \<Rightarrow> nat \<Rightarrow> string \<Rightarrow> string list" where
  "cluster_probe E db dbState port ip =
     [path_join [Wrappers E, ''ovsdb-client''], ''-t'', ''10'', ''wait'',
      cluster_socket_url ip port, db, dbState]"

text \<open>The loop over the central addresses stops at the first that answers.\<close>

fun first_connected :: "env \<Rightarrow> string \<Rightarrow> string \<Rightarrow> nat \<Rightarrow> string list \<Rightarrow> bool io" where
  "first_connected E db dbState port [] = ret False"
| "first_connected E db dbState port (ip # ips) =
     bind (attempt (run_cmd E (cluster_probe E db dbState port ip)))
     (\<lambda>r. case r of Inl _ \<Rightarrow> first_connected E db dbState port ips | Inr _ \<Rightarrow> ret True)"

definition WaitForClusterDBState :: "env \<Rightarrow> string \<Rightarrow> string \<Rightarrow> nat \<Rightarrow> unit io" where
  "WaitForClusterDBState E db dbState port =
     bind (on_err (errf ''failed to get central IPs: '') (CentralIps E)) (\<lambda>ips.
     bind (first_connected E db dbState port ips) (\<lambda>connected.
     if \<not> connected then fail (ErrS (''failed to connect to '' @ db @ '' database cluster'')) else ret ()))"

definition default_timeout :: "string list \<Rightarrow> string list" where
  "default_timeout args =
     (if ''--timeout'' \<notin> set args \<and> ''-t'' \<notin> set args then [''--timeout'', ''30''] @ args else args)"

text \<open>\<open>for attempts := 0; attempts < n; attempts++\<close>, returning the last error.\<close>

fun retry :: "nat \<Rightarrow> 'a io \<Rightarrow> goerr \<Rightarrow> 'a io" where
  "retry 0 m err = fail err"
| "retry (Suc n) m err = bind (attempt m) (\<lambda>r. case r of Inr x \<Rightarrow> ret x | Inl e \<Rightarrow> retry n m e)"

definition try3 :: "env \<Rightarrow> string list \<Rightarrow> string io" where
  "try3 E argv = retry 3 (run_cmd E argv) (ErrS [])"

definition ovnDBCtl :: "env \<Rightarrow> OvsdbType \<Rightarrow> nat \<Rightarrow> string list \<Rightarrow> string io" where
  "ovnDBCtl E dbType timeout args =
     bind (case dbType of
         OvsdbTypeNBLocal \<Rightarrow> ret ''ovn-nbctl''
       | OvsdbTypeSBLocal \<Rightarrow> ret ''ovn-sbctl''
       | _ \<Rightarrow> fail (ErrS ''unknown DB type. OVN commands work only with NB or SB database'')) (\<lambda>baseCmd.
     bind (of_sum (NewOvsdbSpec E dbType)) (\<lambda>dbSpec.
     andthen (WaitForDBState E dbSpec OvsdbConnected timeout)
     (try3 E (baseCmd # default_timeout args))))"

definition NBCtl :: "env \<Rightarrow> string list \<Rightarrow> string io" where
  "NBCtl E args = ovnDBCtl E OvsdbTypeNBLocal DefaultDBConnectWait args"

definition NBCtlCluster :: "env \<Rightarrow> string list \<Rightarrow> string io" where
  "NBCtlCluster E args =
     andthen (on_err (\<lambda>_. ErrS ''failed to connect to OVN Northbound database cluster'')
        (WaitForClusterDBState E ''OVN_Northbound'' OvsdbConnected 6641))
     (try3 E (path_join [Wrappers E, ''ovn-nbctl''] # default_timeout args))"

definition SBCtl :: "env \<Rightarrow> string list \<Rightarrow> string io" where
  "SBCtl E args = ovnDBCtl E OvsdbTypeSBLocal DefaultDBConnectWait args"

definition VSCtl :: "env \<Rightarrow> string list \<Rightarrow> string io" where
  "VSCtl E args =
     bind (of_sum (NewOvsdbSpec E OvsdbTypeSwitchLocal)) (\<lambda>dbSpec.
     andthen (WaitForDBState E dbSpec OvsdbConnected DefaultDBConnectWait)
     (try3 E (''ovs-vsctl'' # default_timeout args)))"

definition AppCtl :: "env \<Rightarrow> string \<Rightarrow> string list \<Rightarrow> string io" where
  "AppCtl E target args = run_cmd E ([''ovn-appctl'', ''-t'', target] @ args)"

text \<open>The variable added to the environment of the process stands before the command.\<close>

definition ControllerCtl :: "env \<Rightarrow> string list \<Rightarrow> string io" where
  "ControllerCtl E args =
     run_cmd E ([''OVS_RUNDIR='' @ OvnRuntimeDir E, ''ovs-appctl'', ''-t'', ''ovn-controller''] @ args)"

definition OvsdbClient :: "env \<Rightarrow> OvsdbSpec \<Rightarrow> nat \<Rightarrow> nat \<Rightarrow> string list \<Rightarrow> string io" where
  "OvsdbClient E dbSpec connectTimeout resultTimeout args =
     andthen (WaitForDBState E dbSpec OvsdbConnected connectTimeout)
     (run_cmd E ([''ovsdb-client'', ''-t'', show_nat resultTimeout] @ args))"

section \<open>Package cluster\<close>

definition UpdateOvnListenConfig :: "env \<Rightarrow> unit io" where
  "UpdateOvnListenConfig E =
     bind (on_err (wrapf ''failed to get path to OVN NB database socket: '')
             (of_sum (NewOvsdbSpec E OvsdbTypeNBLocal))) (\<lambda>nbDB.
     bind (on_err (wrapf ''failed to get path to OVN SB database socket: '')
             (of_sum (NewOvsdbSpec E OvsdbTypeSBLocal))) (\<lambda>sbDB.
     bind (NetworkProtocol E) (\<lambda>protocol.
     bind (on_err (errf ''error setting ovn NB connection string: '')
       (NBCtl E [''--no-leader-only'', ''--db='' @ SocketURL nbDB, ''set-connection'',
                 ''p'' @ protocol @ '':6641:[::]''])) (\<lambda>_.
     bind (on_err (errf ''error setting ovn SB connection string: '')
       (SBCtl E [''--no-leader-only'', ''--db='' @ SocketURL sbDB, ''set-connection'',
                 ''p'' @ protocol @ '':6642:[::]''])) (\<lambda>_. ret ())))))"

definition UpdateOvnControllerRemoteConfig :: "env \<Rightarrow> unit io" where
  "UpdateOvnControllerRemoteConfig E =
     bind (on_err (wrapf ''failed to get OVN central IPs: '') (CentralIps E)) (\<lambda>centralIps.
     bind (on_err (wrapf ''failed to get OVN SB connect string: '')
             (ConnectionString E centralIps 6642)) (\<lambda>sbConnect.
     bind (on_err (\<lambda>_. ErrS (''failed to update OVS's 'ovn-remote' configuration''))
       (if length sbConnect \<noteq> 0
        then VSCtl E [''set'', ''open_vswitch'', ''.'', ''external_ids:ovn-remote='' @ sbConnect]
        else VSCtl E [''remove'', ''open_vswitch'', ''.'', ''external_ids'', ''ovn-remote'']))
     (\<lambda>_. ret ())))"

section \<open>Frame lemmas\<close>

lemma keeps_retry [keeps_rules]: "keeps P m \<Longrightarrow> keeps P (retry n m e)"
  by (induction n arbitrary: e) (auto intro!: keeps_rules)

lemma np_retry [np_rules]: "no_panic m \<Longrightarrow> no_panic (retry n m e)"
  by (induction n arbitrary: e) (auto intro!: np_rules)

lemma np_first_connected [np_rules]: "no_panic (first_connected E db st port ips)"
  by (induction ips) (auto intro!: np_rules)

lemma np_ovnDBCtl [np_rules]: "no_panic (ovnDBCtl E ty t args)"
  unfolding ovnDBCtl_def WaitForDBState_def try3_def
  by (intro np_rules) (cases ty; simp add: np_basic)

lemma np_ovn_cmd [np_rules]:
  "no_panic (Start E s b)" "no_panic (Stop E s b)" "no_panic (Restart E s)" "no_panic (Reload E s)"
  "no_panic (NBCtl E args)" "no_panic (SBCtl E args)" "no_panic (VSCtl E args)"
  "no_panic (NBCtlCluster E args)" "no_panic (AppCtl E t args)" "no_panic (ControllerCtl E args)"
  "no_panic (OvsdbClient E db c n args)" "no_panic (WaitForDBState E db st c)"
  "no_panic (UpdateOvnListenConfig E)" "no_panic (UpdateOvnControllerRemoteConfig E)"
  unfolding Start_def Stop_def Restart_def Reload_def NBCtl_def SBCtl_def VSCtl_def NBCtlCluster_def
    AppCtl_def ControllerCtl_def OvsdbClient_def WaitForDBState_def WaitForClusterDBState_def
    try3_def UpdateOvnListenConfig_def UpdateOvnControllerRemoteConfig_def
  by (intro np_rules)+

context trace_blind
begin

lemma keeps_snap [keeps_rules]:
  "keeps P (Start E s b)" "keeps P (Stop E s b)" "keeps P (Restart E s)" "keeps P (Reload E s)"
  unfolding Start_def Stop_def Restart_def Reload_def by (intro keeps_rules keeps_run_cmd)+

lemma keeps_WaitForDBState [keeps_rules]: "keeps P (WaitForDBState E db st t)"
  unfolding WaitForDBState_def by (intro keeps_rules keeps_run_cmd)

lemma keeps_first_connected [keeps_rules]: "keeps P (first_connected E db st port ips)"
  by (induction ips) (auto intro!: keeps_rules keeps_run_cmd)

lemma keeps_try3 [keeps_rules]: "keeps P (try3 E argv)"
  unfolding try3_def by (intro keeps_rules keeps_run_cmd)

lemma keeps_ovnDBCtl [keeps_rules]: "keeps P (ovnDBCtl E ty t args)"
  unfolding ovnDBCtl_def
  by (intro keeps_rules keeps_WaitForDBState keeps_try3) (cases ty; simp add: keeps_pure)

lemma keeps_ctl [keeps_rules]:
  "keeps P (NBCtl E args)" "keeps P (SBCtl E args)" "keeps P (VSCtl E args)"
  "keeps P (NBCtlCluster E args)" "keeps P (AppCtl E t args)" "keeps P (ControllerCtl E args)"
  "keeps P (OvsdbClient E db c r args)"
  unfolding NBCtl_def SBCtl_def VSCtl_def NBCtlCluster_def AppCtl_def ControllerCtl_def OvsdbClient_def
    WaitForClusterDBState_def
  by (intro keeps_rules keeps_ovnDBCtl keeps_WaitForDBState keeps_try3 keeps_first_connected
      keeps_run_cmd keeps_CentralIps)+

lemma keeps_cluster [keeps_rules]:
  "keeps P (UpdateOvnListenConfig E)" "keeps P (UpdateOvnControllerRemoteConfig E)"
  unfolding UpdateOvnListenConfig_def UpdateOvnControllerRemoteConfig_def
  by (intro keeps_rules keeps_ctl keeps_NetworkProtocol keeps_CentralIps keeps_ConnectionString)+

end

section \<open>The contract of a retried command\<close>

text \<open>
  \<open>retried E argv w r w'\<close>: the command ran \<open>k\<close> times, at most three, every run but the last failed,
  and the result is the result of the last run, an error only after the third.
\<close>

definition retried :: "env \<Rightarrow> string list \<Rightarrow> world \<Rightarrow> string res \<Rightarrow> world \<Rightarrow> bool" where
  "retried E argv w r w' \<longleftrightarrow> (\<exists>k < 3.
     let at = \<lambda>i. e_cmd E (replicate i (Cmd argv) @ w_trace w) argv in
     (\<forall>i < k. \<exists>e. at i = Inl e) \<and>
     w' = w\<lparr>w_trace := replicate (Suc k) (Cmd argv) @ w_trace w\<rparr> \<and>
     (case at k of Inr out \<Rightarrow> r = Ok out | Inl e \<Rightarrow> k = 2 \<and> r = Er e))"

lemma run_run_cmd: "run_cmd E argv w = (case e_cmd E (w_trace w) argv of
    Inl e \<Rightarrow> (Er e, w\<lparr>w_trace := Cmd argv # w_trace w\<rparr>)
  | Inr out \<Rightarrow> (Ok out, w\<lparr>w_trace := Cmd argv # w_trace w\<rparr>))"
  by (simp add: run_cmd_def split: sum.splits)

lemma try3_retried: "try3 E argv w = (r, w') \<Longrightarrow> retried E argv w r w'"
proof -
  let ?at = "\<lambda>i. e_cmd E (replicate i (Cmd argv) @ w_trace w) argv"
  assume call: "try3 E argv w = (r, w')"
  show ?thesis
  proof (cases "?at 0")
    case (Inr out)
    with call show ?thesis unfolding retried_def
      by (intro exI [of _ 0]) (simp add: try3_def eval_nat_numeral bind_def run run_run_cmd attempt_def)
  next
    case e0: (Inl e)
    show ?thesis
    proof (cases "?at 1")
      case (Inr out)
      with call e0 show ?thesis unfolding retried_def
        by (intro exI [of _ 1]) (simp add: try3_def eval_nat_numeral bind_def run run_run_cmd attempt_def)
    next
      case e1: (Inl e')
      with call e0 show ?thesis unfolding retried_def
        by (intro exI [of _ 2])
           (cases "?at 2"; simp add: try3_def eval_nat_numeral bind_def run run_run_cmd attempt_def
             less_Suc_eq)
    qed
  qed
qed

locale guarded_command =
  fixes E :: env and ctl :: "string list \<Rightarrow> string io" and guard :: "unit io"
    and argv :: "string list \<Rightarrow> string list"
  assumes ctl_unfold: "ctl args = andthen guard (try3 E (argv args))"
begin

lemma not_ready: "guard w = (Er e, w1) \<Longrightarrow> ctl args w = (Er e, w1)"
  by (simp add: ctl_unfold run)

lemma ready:
  assumes "guard w = (Ok u, w1)" and "ctl args w = (r, w')"
  shows "retried E (argv args) w1 r w'"
  using assms by (simp add: ctl_unfold run try3_retried)

end

definition wait_connected :: "env \<Rightarrow> OvsdbType \<Rightarrow> unit io" where
  "wait_connected E ty = bind (of_sum (NewOvsdbSpec E ty))
     (\<lambda>db. WaitForDBState E db OvsdbConnected DefaultDBConnectWait)"

interpretation nb: guarded_command E "NBCtl E" "wait_connected E OvsdbTypeNBLocal"
  "\<lambda>args. ''ovn-nbctl'' # default_timeout args" for E
  by unfold_locales (simp add: NBCtl_def ovnDBCtl_def wait_connected_def NewOvsdbSpec_def)

interpretation sb: guarded_command E "SBCtl E" "wait_connected E OvsdbTypeSBLocal"
  "\<lambda>args. ''ovn-sbctl'' # default_timeout args" for E
  by unfold_locales (simp add: SBCtl_def ovnDBCtl_def wait_connected_def NewOvsdbSpec_def)

interpretation vs: guarded_command E "VSCtl E" "wait_connected E OvsdbTypeSwitchLocal"
  "\<lambda>args. ''ovs-vsctl'' # default_timeout args" for E
  by unfold_locales (simp add: VSCtl_def wait_connected_def NewOvsdbSpec_def)

interpretation nbc: guarded_command E "NBCtlCluster E"
  "on_err (\<lambda>_. ErrS ''failed to connect to OVN Northbound database cluster'')
     (WaitForClusterDBState E ''OVN_Northbound'' OvsdbConnected 6641)"
  "\<lambda>args. path_join [Wrappers E, ''ovn-nbctl''] # default_timeout args" for E
  by unfold_locales (simp add: NBCtlCluster_def)

lemma default_timeout_has: "''--timeout'' \<in> set (default_timeout args) \<or> ''-t'' \<in> set (default_timeout args)"
  by (simp add: default_timeout_def)

text \<open>The members are probed in order, up to the first that answers.\<close>

lemma first_connected_run:
  assumes "first_connected E db st port ips w = (r, w')"
  shows "\<exists>k \<le> length ips. w' = w\<lparr>w_trace := rev (map (\<lambda>ip. Cmd (cluster_probe E db st port ip)) (take k ips))
           @ w_trace w\<rparr> \<and> (\<exists>b. r = Ok b \<and> (\<not> b \<longrightarrow> k = length ips) \<and> (b \<longrightarrow> 0 < k))"
  using assms
proof (induction ips arbitrary: w)
  case (Cons ip ips)
  let ?w1 = "w\<lparr>w_trace := Cmd (cluster_probe E db st port ip) # w_trace w\<rparr>"
  show ?case
  proof (cases "e_cmd E (w_trace w) (cluster_probe E db st port ip)")
    case (Inl e)
    with Cons.prems have "first_connected E db st port ips ?w1 = (r, w')"
      by (simp add: bind_def run_run_cmd attempt_def)
    from Cons.IH [OF this] show ?thesis
      by (elim exE conjE) (rule_tac x = "Suc k" in exI, auto)
  next
    case (Inr out)
    with Cons.prems show ?thesis
      by (intro exI [of _ 1]) (auto simp: bind_def run_run_cmd attempt_def)
  qed
qed (auto intro: exI [of _ False])

section \<open>Properties\<close>

text \<open>C25: ovn-nbctl, ovn-sbctl and ovs-vsctl are only run once their database answered, then at most
  three times and until the first success, always with a timeout; if the database does not answer they
  are not run.\<close>

theorem ctl_guarded_and_retried:
  assumes "(ctl, ty, tool) \<in> {(NBCtl E, OvsdbTypeNBLocal, ''ovn-nbctl''),
             (SBCtl E, OvsdbTypeSBLocal, ''ovn-sbctl''), (VSCtl E, OvsdbTypeSwitchLocal, ''ovs-vsctl'')}"
    and call: "ctl args w = (r, w')"
  shows "(\<exists>e. wait_connected E ty w = (Er e, w') \<and> r = Er e) \<or>
         (\<exists>w1. wait_connected E ty w = (Ok (), w1) \<and> retried E (tool # default_timeout args) w1 r w')"
proof (cases "wait_connected E ty" w rule: io_cases)
  case (Ok u w1)
  with assms show ?thesis by (auto dest: nb.ready sb.ready vs.ready)
next
  case (Er e w1)
  with assms show ?thesis by (auto simp: nb.not_ready sb.not_ready vs.not_ready)
next
  case (Panic s w1)
  have "no_panic (wait_connected E ty)" unfolding wait_connected_def by (intro np_rules)
  with Panic show ?thesis by (blast dest: no_panicD)
qed

text \<open>The endpoint \<open>WaitForClusterDBState\<close> probes is the one the connection strings of the cluster
  name exactly when the address is not an IPv6 address.\<close>

theorem cluster_probe_endpoint:
  "cluster_socket_url ip port = endpoints ''ssl'' port [ip] \<longleftrightarrow> CHR '':'' \<notin> set ip"
proof -
  have "length (endpoints ''ssl'' port [ip]) = length (cluster_socket_url ip port) + 2"
    if "CHR '':'' \<in> set ip"
    using that by (simp add: endpoints_def JoinHostPort_def cluster_socket_url_def)
  then show ?thesis
    by (auto simp: endpoints_def JoinHostPort_def cluster_socket_url_def)
qed

lemma wait_connected_sample: "\<exists>w1. wait_connected sample_env OvsdbTypeNBLocal sample_world = (Ok (), w1)"
  by (simp add: evals wait_connected_def NewOvsdbSpec_def WaitForDBState_def)

theorem ctl_guarded_and_retried_witness:
  "\<exists>w1. retried sample_env (''ovn-nbctl'' # default_timeout [''show'']) w1
     (fst (NBCtl sample_env [''show''] sample_world)) (snd (NBCtl sample_env [''show''] sample_world))"
  using ctl_guarded_and_retried [of "NBCtl sample_env" OvsdbTypeNBLocal "''ovn-nbctl''" sample_env "[''show'']"
      sample_world, OF _ prod.collapse [symmetric]] wait_connected_sample by auto

end
