(* ===== verification/Client.thy ===== *)
theory Client
  imports ApiTypes OvnCmd
begin

text \<open>
  Package \<open>client\<close> (client/client.go): the requests to the members of the cluster, each with its method,
  path, body and the type of its answer. A client is the URL of its member; the timeouts are part of
  what \<open>e_http\<close> answers.
\<close>

definition query :: "env \<Rightarrow> string \<Rightarrow> string \<Rightarrow> string \<Rightarrow> json \<Rightarrow> (json \<Rightarrow> goerr + 'a) \<Rightarrow> 'a io" where
  "query E c meth path body dec = bind (http E c meth path body) (\<lambda>j. of_sum (dec j))"

section \<open>Services and the environment\<close>

definition c_GetServices :: "env \<Rightarrow> string \<Rightarrow> Service list io" where
  "c_GetServices E c = on_err (wrapf ''failed listing services: '')
     (query E c ''GET'' ''services'' JNull (dec_list dec_Service))"

definition c_RegenerateEnvironment :: "env \<Rightarrow> string \<Rightarrow> RegenerateEnvResponse io" where
  "c_RegenerateEnvironment E c =
     on_err (\<lambda>e. ErrS (''failed to regenerate environment files: '' @ squoted (err_text e)))
       (query E c ''POST'' ''env'' JNull (dec_RegenerateEnvResponse NewRegenerateEnvResponse))"

text \<open>After a change of a central service the members regenerate their environment.\<close>

definition regenerate_after :: "env \<Rightarrow> string \<Rightarrow> string \<Rightarrow> ServiceControlResponse \<Rightarrow>
    (WarningSet \<times> RegenerateEnvResponse) io" where
  "regenerate_after E c serviceName scr =
     bind (if serviceName = SrvCentral then c_RegenerateEnvironment E c
           else ret \<lparr>Env_Success = False, Env_Errors = []\<rparr>) (\<lambda>env. ret (Warnings scr, env))"

definition service_path :: "string \<Rightarrow> string \<Rightarrow> string" where
  "service_path serviceName target = ''service/'' @ serviceName @ ''?target='' @ target"

definition c_DisableService :: "env \<Rightarrow> string \<Rightarrow> string \<Rightarrow> bool \<Rightarrow> string \<Rightarrow>
    (WarningSet \<times> RegenerateEnvResponse) io" where
  "c_DisableService E c serviceName allowLastCentral target =
     bind (on_err (\<lambda>e. ErrS (''failed to disable service '' @ squoted serviceName @ '': '' @ squoted (err_text e)))
       (query E c ''DELETE'' (service_path serviceName target)
          (enc_DisableServiceRequest \<lparr>AllowDisableLastCentral = allowLastCentral\<rparr>) dec_ServiceControlResponse))
     (regenerate_after E c serviceName)"

definition c_EnableService :: "env \<Rightarrow> string \<Rightarrow> string \<Rightarrow> ExtraBgpConfig option option \<Rightarrow> string \<Rightarrow>
    (WarningSet \<times> RegenerateEnvResponse) io" where
  "c_EnableService E c serviceName extraConfig target =
     bind (on_err (\<lambda>e. ErrS (''failed to enable service '' @ squoted serviceName @ '': '' @ squoted (err_text e)))
       (query E c ''PUT'' (service_path serviceName target)
          (enc_ExtraServiceConfig extraConfig) dec_ServiceControlResponse))
     (regenerate_after E c serviceName)"

section \<open>Certificates\<close>

definition c_ReissueCertificate :: "env \<Rightarrow> string \<Rightarrow> string \<Rightarrow> IssueCertificateResponse io" where
  "c_ReissueCertificate E c serviceName = on_err (wrapf ''failed to reissue certificate: '')
     (query E c ''PUT'' (''certificates/'' @ serviceName) JNull dec_IssueCertificateResponse)"

definition c_ReissueAllCertificate :: "env \<Rightarrow> string \<Rightarrow> IssueCertificateResponse io" where
  "c_ReissueAllCertificate E c = on_err (wrapf ''failed to reissue certificate: '')
     (query E c ''PUT'' ''certificates'' JNull dec_IssueCertificateResponse)"

definition c_RegenerateCA :: "env \<Rightarrow> string \<Rightarrow> RegenerateCaResponse io" where
  "c_RegenerateCA E c = on_err (wrapf ''failed to generate new CA: '')
     (query E c ''PUT'' ''ca'' JNull dec_RegenerateCaResponse)"

definition c_SetCA :: "env \<Rightarrow> string \<Rightarrow> string \<Rightarrow> string \<Rightarrow> RegenerateCaResponse io" where
  "c_SetCA E c certPEM keyPEM = on_err (wrapf ''failed to set CA certificate and key: '')
     (query E c ''POST'' ''ca'' (enc_CustomCaRequest \<lparr>Ca_Certificate = certPEM, Ca_PrivateKey = keyPEM\<rparr>)
        dec_RegenerateCaResponse)"

definition c_GetCaInfo :: "env \<Rightarrow> string \<Rightarrow> CaInfo io" where
  "c_GetCaInfo E c = on_err (wrapf ''failed to get CA info: '') (query E c ''GET'' ''ca'' JNull dec_CaInfo)"

section \<open>Schema versions\<close>

text \<open>The status in the error decides which error is reported: 404 is a member without the endpoint.\<close>

definition schema_path :: "OvsdbSpec \<Rightarrow> string \<Rightarrow> string" where
  "schema_path dbSpec target = ''ovsdb/schema/'' @ ShortName dbSpec @ ''/'' @ target"

definition getOvsdbSchemaVersion :: "env \<Rightarrow> string \<Rightarrow> OvsdbSpec \<Rightarrow> string \<Rightarrow>
    (string \<times> OvsdbSchemaFetchError) io" where
  "getOvsdbSchemaVersion E c dbSpec target =
     bind (attempt (query E c ''GET'' (schema_path dbSpec target) JNull dec_str)) (\<lambda>r.
     ret (case r of
        Inl e \<Rightarrow> if status_of e = Some 404 then ([], SchemaErrorNotSupported) else ([], SchemaErrorGeneric)
      | Inr v \<Rightarrow> (v, SchemaErrorNone)))"

definition c_GetExpectedOvsdbSchemaVersion :: "env \<Rightarrow> string \<Rightarrow> OvsdbSpec \<Rightarrow> (string \<times> OvsdbSchemaFetchError) io" where
  "c_GetExpectedOvsdbSchemaVersion E c dbSpec = getOvsdbSchemaVersion E c dbSpec ''expected''"

definition c_GetActiveOvsdbSchemaVersion :: "env \<Rightarrow> string \<Rightarrow> OvsdbSpec \<Rightarrow> (string \<times> OvsdbSchemaFetchError) io" where
  "c_GetActiveOvsdbSchemaVersion E c dbSpec = getOvsdbSchemaVersion E c dbSpec ''active''"

definition c_GetAllExpectedOvsdbSchemaVersions :: "env \<Rightarrow> string \<Rightarrow> OvsdbSpec \<Rightarrow> OvsdbSchemaVersionResult list io" where
  "c_GetAllExpectedOvsdbSchemaVersions E c dbSpec =
     on_err (wrapf ''failed to get expected ovsdb schema versions from cluster: '')
       (query E c ''GET'' (schema_path dbSpec ''expected/all'') JNull
          (dec_list dec_SchemaVersionResult))"

section \<open>Configuration and BGP\<close>

definition c_SetConfig :: "env \<Rightarrow> string \<Rightarrow> string \<Rightarrow> string \<Rightarrow> SetConfigResponse io" where
  "c_SetConfig E c key value =
     query E c ''POST'' ''config'' (enc_SetConfigRequest \<lparr>Set_Key = key, Set_Value = value\<rparr>) dec_SetConfigResponse"

definition c_GetConfig :: "env \<Rightarrow> string \<Rightarrow> string \<Rightarrow> GetConfigResponse io" where
  "c_GetConfig E c key =
     query E c ''GET'' ''config'' (enc_GetConfigRequest \<lparr>Get_Key = key\<rparr>) dec_GetConfigResponse"

definition c_DeleteConfig :: "env \<Rightarrow> string \<Rightarrow> string \<Rightarrow> SetConfigResponse io" where
  "c_DeleteConfig E c key =
     query E c ''DELETE'' ''config'' (enc_GetConfigRequest \<lparr>Get_Key = key\<rparr>) dec_SetConfigResponse"

definition c_SetupBgp :: "env \<Rightarrow> string \<Rightarrow> SetupBgpRequest \<Rightarrow> SetupBgpResponse io" where
  "c_SetupBgp E c request = query E c ''POST'' ''bgp/setup'' (enc_SetupBgpRequest request) dec_SetupBgpResponse"

section \<open>Frame lemmas\<close>

lemma np_query [np_rules]: "no_panic (query E c m p b dec)"
  unfolding query_def by (intro np_rules)

lemmas client_defs = c_GetServices_def c_RegenerateEnvironment_def regenerate_after_def c_DisableService_def
  c_EnableService_def c_ReissueCertificate_def c_ReissueAllCertificate_def c_RegenerateCA_def c_SetCA_def
  c_GetCaInfo_def getOvsdbSchemaVersion_def c_GetExpectedOvsdbSchemaVersion_def
  c_GetActiveOvsdbSchemaVersion_def c_GetAllExpectedOvsdbSchemaVersions_def c_SetConfig_def c_GetConfig_def
  c_DeleteConfig_def c_SetupBgp_def

lemma np_client [np_rules]:
  "no_panic (c_GetServices E c)" "no_panic (c_RegenerateEnvironment E c)" "no_panic (c_DisableService E c s b t)"
  "no_panic (c_EnableService E c s x t)" "no_panic (c_ReissueCertificate E c s)"
  "no_panic (c_ReissueAllCertificate E c)" "no_panic (c_RegenerateCA E c)" "no_panic (c_SetCA E c k v)"
  "no_panic (c_GetCaInfo E c)" "no_panic (c_GetAllExpectedOvsdbSchemaVersions E c d)"
  "no_panic (c_SetConfig E c k v)" "no_panic (c_GetConfig E c k)" "no_panic (c_DeleteConfig E c k)"
  "no_panic (c_SetupBgp E c r)"
  unfolding client_defs by (intro np_rules)+

lemma tot_schema_version [tot_rules]:
  "total_io (c_GetExpectedOvsdbSchemaVersion E c d)" "total_io (c_GetActiveOvsdbSchemaVersion E c d)"
  unfolding client_defs by (intro tot_rules np_query)+

context trace_blind
begin

lemma keeps_query [keeps_rules]: "keeps P (query E c m p b dec)"
  unfolding query_def by (intro keeps_rules keeps_http)

lemma keeps_client [keeps_rules]:
  "keeps P (c_GetServices E c)" "keeps P (c_RegenerateEnvironment E c)" "keeps P (c_DisableService E c s b t)"
  "keeps P (c_EnableService E c s x t)" "keeps P (c_ReissueCertificate E c s)"
  "keeps P (c_ReissueAllCertificate E c)" "keeps P (c_RegenerateCA E c)" "keeps P (c_SetCA E c k v)"
  "keeps P (c_GetCaInfo E c)" "keeps P (c_GetExpectedOvsdbSchemaVersion E c d)"
  "keeps P (c_GetActiveOvsdbSchemaVersion E c d)" "keeps P (c_GetAllExpectedOvsdbSchemaVersions E c d)"
  "keeps P (c_SetConfig E c k v)" "keeps P (c_GetConfig E c k)" "keeps P (c_DeleteConfig E c k)"
  "keeps P (c_SetupBgp E c r)"
  unfolding client_defs by (intro keeps_rules keeps_query)+

end

section \<open>Properties\<close>

text \<open>When a member answers with a message of the type a request expects, the client returns it.\<close>

context wire
begin

lemma query_answer:
  assumes "e_http E (w_trace w) c m p b = Inr (enc x)"
  shows "query E c m p b dec w = (Ok (view x), w\<lparr>w_trace := Http c m p # w_trace w\<rparr>)"
  using assms by (simp add: query_def bind_def http_def roundtrip)

end

text \<open>A schema request never fails; the version is the answer of the member, and otherwise the
  reported error is not-supported exactly for status 404.\<close>

theorem schema_version_classified:
  "\<exists>w'. getOvsdbSchemaVersion E c db target w = (Ok (case e_http E (w_trace w) c ''GET'' (schema_path db target) JNull of
     Inr (JStr v) \<Rightarrow> (v, SchemaErrorNone)
   | Inr _ \<Rightarrow> ([], SchemaErrorGeneric)
   | Inl e \<Rightarrow> ([], if status_of e = Some 404 then SchemaErrorNotSupported else SchemaErrorGeneric)), w')"
proof (cases "e_http E (w_trace w) c ''GET'' (schema_path db target) JNull")
  case (Inl e)
  then show ?thesis by (simp add: getOvsdbSchemaVersion_def query_def bind_def http_def attempt_def ret_def)
next
  case (Inr j)
  then show ?thesis
    by (cases j) (simp_all add: getOvsdbSchemaVersion_def query_def bind_def http_def attempt_def dec_str_def
        bad_json_def fail_def ret_def)
qed

text \<open>Enabling a central service through the API makes the members regenerate their environment with
  the next request, enabling another service makes no further request.\<close>

theorem enable_central_regenerates:
  assumes answer: "e_http E (w_trace w) c ''PUT'' (service_path srv target)
      (enc_ExtraServiceConfig x) = Inr (enc_ServiceControlResponse scr)"
    and call: "c_EnableService E c srv x target w = (r, w')"
  shows "w_trace w' = (if srv = SrvCentral then [Http c ''POST'' ''env''] else []) @
      Http c ''PUT'' (service_path srv target) # w_trace w \<and>
    (case r of Ok (ws, env) \<Rightarrow> ws = Warnings scr \<and>
         (srv \<noteq> SrvCentral \<longrightarrow> env = \<lparr>Env_Success = False, Env_Errors = []\<rparr>)
     | Er e \<Rightarrow> srv = SrvCentral | Panic s \<Rightarrow> False)"
proof -
  let ?p = "service_path srv target"
  let ?w1 = "w\<lparr>w_trace := Http c ''PUT'' ?p # w_trace w\<rparr>"
  let ?q = "query E c ''PUT'' ?p (enc_ExtraServiceConfig x) dec_ServiceControlResponse"
  have q: "?q w = (Ok scr, ?w1)"
    using control_wire.query_answer [OF answer] by simp
  then have "on_err f ?q w = (Ok scr, ?w1)" for f by (rule run_on_err(1))
  then have "c_EnableService E c srv x target w = regenerate_after E c srv scr ?w1"
    unfolding c_EnableService_def by (rule run_bind(1))
  with call have "regenerate_after E c srv scr ?w1 = (r, w')" by simp
  then show ?thesis
    by (cases "srv = SrvCentral"; cases "e_http E (w_trace ?w1) c ''POST'' ''env'' JNull")
       (auto simp: regenerate_after_def bind_def c_RegenerateEnvironment_def on_err_def attempt_def query_def
         http_def of_sum_def ret_def fail_def split: sum.splits if_splits)
qed

theorem enable_central_regenerates_witness:
  "let E = sample_env\<lparr>e_http := (\<lambda>t c m p b. Inr (enc_ServiceControlResponse
       \<lparr>Message = [], Warnings = \<lparr>EvenCentral = False, FewCentral = True\<rparr>\<rparr>))\<rparr> in
   w_trace (snd (c_EnableService E ''u'' SrvSwitch None ''n1'' sample_world)) =
     [Http ''u'' ''PUT'' (service_path SrvSwitch ''n1'')]"
proof -
  let ?r = "\<lparr>Message = [], Warnings = \<lparr>EvenCentral = False, FewCentral = True\<rparr>\<rparr>"
  let ?E = "sample_env\<lparr>e_http := (\<lambda>t c m p b. Inr (enc_ServiceControlResponse ?r))\<rparr>"
  have "e_http ?E (w_trace sample_world) ''u'' ''PUT'' (service_path SrvSwitch ''n1'') (enc_ExtraServiceConfig None) =
      Inr (enc_ServiceControlResponse ?r)" by simp
  from enable_central_regenerates [OF this prod.collapse [symmetric]]
  show ?thesis by (simp add: srv_defs sample_world_def)
qed

end
