(* ===== verification/BgpRedirect.thy ===== *)
theory BgpRedirect
  imports OvnCmd ServiceTypes Netplan
begin

text \<open>
  Package \<open>bgp\<close>, file bgp/redirect.go: the names, addresses and numbers of the BGP integration, the
  commands that build the external networks, the VRF and the redirect, and their removal.
\<close>

definition BgpManagedTag :: string where "BgpManagedTag = ''microovn-bgp-managed''"
definition BgpVrfTable :: string where "BgpVrfTable = ''microovn-bgp-vrf''"
definition BgpBridgeMapping :: string where "BgpBridgeMapping = ''microovn-bgp-bridge-mapping''"

section \<open>Names\<close>

text \<open>\<open>n\<close> is the name of the local member.\<close>

definition getPhysnetName :: "string \<Rightarrow> string \<Rightarrow> string" where
  "getPhysnetName n iface = ''physnet_'' @ n @ ''_'' @ iface"
definition getLrName :: "string \<Rightarrow> string" where
  "getLrName n = ''lr-'' @ n @ ''-microovn''"
definition getLsName :: "string \<Rightarrow> string \<Rightarrow> string" where
  "getLsName n iface = ''ls-'' @ n @ ''-'' @ iface"

text \<open>\<open>strings.CutSuffix\<close> of the placeholder interface.\<close>

definition cut_suffix :: "string \<Rightarrow> string \<Rightarrow> string" where
  "cut_suffix s suf = (if suffix suf s then take (length s - length suf) s else s)"

definition getLsNameChassisMatch :: "string \<Rightarrow> string" where
  "getLsNameChassisMatch n = cut_suffix (getLsName n ''FOO'') ''FOO''"

definition getLrpName :: "string \<Rightarrow> string \<Rightarrow> string" where
  "getLrpName n iface = ''lrp-'' @ n @ ''-'' @ iface"
definition getVrfName :: "string \<Rightarrow> string" where
  "getVrfName tableID = ''ovnvrf'' @ tableID"
definition getBgpVethName :: "string \<Rightarrow> string" where
  "getBgpVethName externalIface = ''v'' @ externalIface"
definition getBgpRedirectIfaceName :: "string \<Rightarrow> string" where
  "getBgpRedirectIfaceName externalIface = getBgpVethName externalIface @ ''-bgp''"
definition getBgpRedirectIfacePeerName :: "string \<Rightarrow> string" where
  "getBgpRedirectIfacePeerName externalIface = getBgpVethName externalIface @ ''-brg''"

section \<open>Addresses and numbers\<close>

definition trim_right_char :: "char \<Rightarrow> string \<Rightarrow> string" where
  "trim_right_char c s = rev (dropWhile (\<lambda>x. x = c) (rev s))"

text \<open>\<open>%02x\<close> of a byte.\<close>

definition hex2 :: "nat \<Rightarrow> string" where
  "hex2 b = (if b < 16 then ''0'' @ show_hex b else show_hex b)"

definition generateLrpMac :: "env \<Rightarrow> string \<Rightarrow> string" where
  "generateLrpMac E ifaceName = trim_right_char CHR '':''
     (''02:'' @ concat (map (\<lambda>b. hex2 b @ '':'') (take 5 (e_md5 E ifaceName))))"

definition generateBGPRouterID :: "env \<Rightarrow> string \<Rightarrow> string" where
  "generateBGPRouterID E s = trim_right_char CHR ''.''
     (concat (map (\<lambda>b. show_nat b @ ''.'') (take 4 (e_md5 E s))))"

text \<open>The arithmetic is on \<open>uint64\<close>; a remainder by zero panics.\<close>

definition asn_of_member :: "64 word \<times> 64 word \<Rightarrow> 64 word \<Rightarrow> 64 word option" where
  "asn_of_member asnRange memberID =
     (let minAsn = fst asnRange; maxAsn = snd asnRange; rangeSize = maxAsn - minAsn + 1
      in if rangeSize = 0 then None else Some (minAsn + (memberID mod rangeSize) - 1))"

definition generateAsnFromClusterMemberID :: "env \<Rightarrow> 64 word \<times> 64 word \<Rightarrow> string io" where
  "generateAsnFromClusterMemberID E asnRange =
     bind (on_err (wrapf ''failed to get cluster member ID: '') (transaction E
       (bind (on_err (wrapf ''query failed: '') (query_stmt E ''member id'' (\<lambda>d. member_id_of d (e_name E))))
        (\<lambda>r. case r of
           None \<Rightarrow> fail (ErrS (''no cluster member found with name '' @ quoted (e_name E)))
         | Some i \<Rightarrow> ret (of_nat i :: 64 word))))) (\<lambda>memberID.
     case asn_of_member asnRange memberID of
       None \<Rightarrow> panic ''integer divide by zero''
     | Some asn \<Rightarrow> ret (show_nat (unat asn)))"

text \<open>The lines of an output, without a carriage return at their end and without the empty ones.\<close>

definition drop_cr :: "string \<Rightarrow> string" where
  "drop_cr s = (if s \<noteq> [] \<and> last s = CHR 0x0D then butlast s else s)"

definition parseOvnFind :: "string \<Rightarrow> string list" where
  "parseOvnFind stdout = filter (\<lambda>l. l \<noteq> []) (map drop_cr (split_on CHR 0x0A stdout))"

definition checkKernelModule :: "env \<Rightarrow> string \<Rightarrow> unit io" where
  "checkKernelModule E moduleName =
     bind (attempt (outside_NotExist E (''/sys/module/'' @ moduleName))) (\<lambda>r.
     if r = Inr True then fail (ErrS (moduleName @ '' kernel module missing or not loaded'')) else ret ())"

text \<open>The used table identifiers, starting with the reserved ones.\<close>

definition parse_table_ids :: "string list \<Rightarrow> int list" where
  "parse_table_ids lines = [253, 254, 255] @ concat (map (\<lambda>l. case sscan_d l of None \<Rightarrow> [] | Some i \<Rightarrow> [i]) lines)"

definition getUsedVrfTableIDs :: "env \<Rightarrow> int list io" where
  "getUsedVrfTableIDs E =
     bind (on_err (errf ''failed to query existing VRF table IDs: '')
       (run_cmd E [''sh'', ''-c'', ''ip -j vrf show | jq '' @ squoted ''.[] | objects | .table''])) (\<lambda>vrfOutput.
     bind (on_err (errf ''failed to query existing routing tables: '')
       (run_cmd E [''sh'', ''-c'', ''ip -j -d -N route show table all | jq -r '' @
          squoted ''.[] | objects | .table'' @ '' | sort | uniq''])) (\<lambda>routeOutput.
     ret (parse_table_ids (split_on CHR 0x0A routeOutput @ split_on CHR 0x0A vrfOutput))))"

text \<open>\<open>for i := minID; i <= math.MaxUint32; i++\<close>\<close>

function first_unused :: "int list \<Rightarrow> nat \<Rightarrow> nat option" where
  "first_unused used i =
     (if 4294967295 < i then None
      else if int i \<notin> set used then Some i else first_unused used (i + 1))"
  by pat_completeness auto
termination by (relation "measure (\<lambda>(used, i). 4294967296 - i)") auto

declare first_unused.simps [simp del]

definition findAvailableVrfTableID :: "env \<Rightarrow> string io" where
  "findAvailableVrfTableID E =
     bind (getUsedVrfTableIDs E) (\<lambda>used. case first_unused used 10 of
       None \<Rightarrow> fail (ErrS ''failed to find an available VRF table ID'')
     | Some i \<Rightarrow> ret (show_nat i))"

section \<open>Reading the OVS database\<close>

definition VsctlGetIfExists :: "env \<Rightarrow> string \<Rightarrow> string \<Rightarrow> string \<Rightarrow> string \<Rightarrow> string io" where
  "VsctlGetIfExists E table record column key =
     (let col = (if column = [] then [] else [if key \<noteq> [] then column @ '':'' @ key else column]) in
      bind (attempt (VSCtl E ([''get'', table, record] @ col))) (\<lambda>r. case r of
        Inl e \<Rightarrow> if contains (err_text e) ''ovs-vsctl: no key'' then ret [] else fail e
      | Inr out \<Rightarrow> ret (trim_char CHR 0x22 (trim_space out))))"

definition get_external_id :: "env \<Rightarrow> string \<Rightarrow> string io" where
  "get_external_id E key = VsctlGetIfExists E ''Open_vSwitch'' ''.'' ''external-ids'' key"

definition getOvnIntegrationBridge :: "env \<Rightarrow> string io" where
  "getOvnIntegrationBridge E = bind (get_external_id E ''ovn-bridge'')
     (\<lambda>brName. ret (if brName = [] then ''br-int'' else brName))"

section \<open>External bridges and networks\<close>

definition extend_mapping :: "string \<Rightarrow> string \<Rightarrow> string \<Rightarrow> string" where
  "extend_mapping bridgeMap physnet bridgeName =
     (if bridgeMap = [] then physnet @ '':'' @ bridgeName
      else bridgeMap @ '','' @ physnet @ '':'' @ bridgeName)"

text \<open>The assignments of the two mappings in \<open>external-ids\<close>.\<close>

definition mapping_args :: "string \<Rightarrow> string list" where
  "mapping_args bridgeMap =
     [''set'', ''Open_vSwitch'', ''.'', ''external-ids:ovn-bridge-mappings='' @ quoted bridgeMap,
      ''external-ids:'' @ BgpBridgeMapping @ ''='' @ quoted bridgeMap]"

definition managed :: string where "managed = ''external-ids:'' @ BgpManagedTag @ ''=true''"

fun createExternalBridges :: "env \<Rightarrow> string list \<Rightarrow> string list \<Rightarrow> string list io" where
  "createExternalBridges E [] result = ret result"
| "createExternalBridges E (iface # rest) result =
     (let bridgeName = ''br-'' @ iface; physnet = getPhysnetName (e_name E) bridgeName in
      bind (on_err (errf ''failed to lookup ovn-bridge-mappings: '')
              (get_external_id E ''ovn-bridge-mappings'')) (\<lambda>old.
      bind (VSCtl E ([''--'', ''add-br'', bridgeName, ''--'', ''set'', ''bridge'', bridgeName, managed, ''--''] @
                     mapping_args (extend_mapping old physnet bridgeName) @
                     [''--'', ''add-port'', bridgeName, iface])) (\<lambda>_.
      createExternalBridges E rest (result @ [bridgeName]))))"

definition createBridgeNetworks :: "env \<Rightarrow> string list \<Rightarrow> string list io" where
  "createBridgeNetworks E bridges =
     bind (on_err (errf ''failed to lookup ovn-bridge-mappings: '')
             (get_external_id E ''ovn-bridge-mappings'')) (\<lambda>old.
     bind (fold_io (\<lambda>br bridgeMap.
        let new = extend_mapping bridgeMap (getPhysnetName (e_name E) br) br in
        bind (VSCtl E ([''--'', ''set'', ''bridge'', br, managed, ''--''] @ mapping_args new)) (\<lambda>_. ret new))
        bridges old) (\<lambda>_. ret bridges))"

definition createExternalNetworks :: "env \<Rightarrow> string list \<Rightarrow> unit io" where
  "createExternalNetworks E bridges =
     (let n = e_name E; lrName = getLrName n in
      bind (NBCtlCluster E [''--'', ''lr-add'', lrName, ''--'', ''set'', ''Logical_Router'', lrName,
              ''options:chassis='' @ n, ''--'', ''set'', ''Logical_Router'', lrName, managed]) (\<lambda>_.
      for_each (\<lambda>brg.
        let lsName = getLsName n brg; lspName = ''lsp-'' @ n @ ''-'' @ brg;
            patchName = ''patch-'' @ n @ ''-'' @ brg; physnetName = getPhysnetName n brg;
            lrpName = getLrpName n brg; lrpMac = generateLrpMac E lrpName in
        bind (NBCtlCluster E [''--'', ''lrp-add'', lrName, lrpName, lrpMac, ''--'', ''ls-add'', lsName, ''--'',
          ''set'', ''Logical_Switch'', lsName, managed, ''--'', ''lsp-add'', lsName, lspName, ''--'',
          ''lsp-set-type'', lspName, ''router'', ''--'', ''lsp-set-options'', lspName,
          ''router-port='' @ lrpName, ''--'', ''lsp-set-addresses'', lspName, ''router'', ''--'',
          ''lsp-add'', lsName, patchName, ''--'', ''lsp-set-addresses'', patchName, ''unknown'', ''--'',
          ''lsp-set-type'', patchName, ''localnet'', ''--'', ''lsp-set-options'', patchName,
          ''network_name='' @ physnetName]) (\<lambda>_. ret ())) bridges))"

definition createVrf :: "env \<Rightarrow> string list \<Rightarrow> string \<Rightarrow> unit io" where
  "createVrf E bridges tableID =
     (let n = e_name E; lrName = getLrName n;
          lr_err = errf (''failed to create vrf for LR '' @ squoted lrName @ '': '') in
      andthen (on_err lr_err (checkKernelModule E ''vrf''))
      (bind (on_err lr_err (NBCtlCluster E [''set'', ''Logical_Router'', lrName,
         ''options:dynamic-routing=true'', ''options:dynamic-routing-vrf-id='' @ tableID])) (\<lambda>_.
      for_each (\<lambda>brg. let lrpName = getLrpName n brg in
        bind (on_err (errf (''failed to enable vrf for LRP '' @ squoted lrpName @ '': ''))
          (NBCtlCluster E [''lrp-set-options'', lrpName, ''dynamic-routing-maintain-vrf=true'',
            ''dynamic-routing-redistribute=nat,lb'',
            ''dynamic-routing-port-name='' @ getBgpRedirectIfaceName brg])) (\<lambda>_. ret ())) bridges)))"

section \<open>The redirect\<close>

definition veth_file :: string where "veth_file = ''90-microovn-bgp-veth.yaml''"

text \<open>The configuration \<open>generateVeth\<close> writes: a pair for each bridge, the VRF, the bridge, and the
  mapping of the ports.\<close>

definition veth_config :: "env \<Rightarrow> string \<Rightarrow> string list \<Rightarrow> string \<Rightarrow> netplan_config" where
  "veth_config E brInt bridges tableID =
     (let pairs = fold (\<lambda>brg c.
            let bgpInterface = getBgpRedirectIfaceName brg; brgInterface = getBgpRedirectIfacePeerName brg;
                mac = generateLrpMac E (getLrpName (e_name E) brg)
            in AddVeth brgInterface bgpInterface [] False []
                 (AddVeth bgpInterface brgInterface mac False [''ipv6''] c)) bridges NewConfig;
          c = AddBridge brInt (map getBgpRedirectIfacePeerName bridges)
                (AddVRF (getVrfName tableID) tableID (map getBgpRedirectIfaceName bridges) pairs)
      in c\<lparr>ExternalIDs := AList.update ''dynamic-routing-port-mapping''
             (join '','' (map (\<lambda>b. getBgpRedirectIfaceName b @ ''='' @ getBgpRedirectIfaceName b) bridges))
             (ExternalIDs c)\<rparr>)"

definition generateVeth :: "env \<Rightarrow> string list \<Rightarrow> string \<Rightarrow> unit io" where
  "generateVeth E bridges tableID =
     (let vrfName = getVrfName tableID in
      bind (on_err (errf ''failed to lookup integration bridge: '') (getOvnIntegrationBridge E)) (\<lambda>brInt.
      andthen (WriteToNetplan E veth_file (veth_config E brInt bridges tableID))
      (andthen (Apply E)
      (for_each (\<lambda>iface.
         bind (on_err (errf (''failed to bind interface '' @ squoted iface @ '' to VRF '' @ squoted vrfName @ '': ''))
           (run_cmd E [''ip'', ''link'', ''set'', ''dev'', iface, ''master'', vrfName])) (\<lambda>_.
         bind (on_err (errf (''failed to bring up interface '' @ squoted iface @ '': ''))
           (run_cmd E [''ip'', ''link'', ''set'', ''dev'', iface, ''up''])) (\<lambda>_. ret ())))
         (map getBgpRedirectIfaceName bridges)))))"

definition redirectBgp :: "env \<Rightarrow> string list \<Rightarrow> string \<Rightarrow> unit io" where
  "redirectBgp E bridges tableID =
     (let n = e_name E; vrfName = getVrfName tableID in
      andthen (generateVeth E bridges tableID)
      (for_each (\<lambda>brg.
        let lsName = getLsName n brg; lrpName = getLrpName n brg;
            brgIface = getBgpRedirectIfacePeerName brg; bgpIface = getBgpRedirectIfaceName brg;
            bgpLsp = ''lsp-'' @ n @ ''-'' @ bgpIface in
        bind (on_err (errf (''failed to create LSP for BGP redirect '' @ squoted bgpLsp @ '': ''))
          (NBCtlCluster E [''--'', ''lsp-add'', lsName, bgpLsp, ''--'', ''lsp-set-addresses'', bgpLsp, ''unknown'',
            ''--'', ''add'', ''Logical_Router_Port'', lrpName, ''options'', ''routing-protocol-redirect='' @ bgpLsp,
            ''--'', ''add'', ''Logical_Router_Port'', lrpName, ''options'', ''routing-protocols='' @ quoted ''BGP,BFD'',
            ''--'', ''set'', ''Logical_Router_Port'', lrpName, ''ipv6_ra_configs:send_periodic=true'',
            ''--'', ''set'', ''Logical_Router_Port'', lrpName, ''ipv6_ra_configs:address_mode=slaac'',
            ''--'', ''set'', ''Logical_Router_Port'', lrpName, ''ipv6_ra_configs:max_interval=4'',
            ''--'', ''set'', ''Logical_Router_Port'', lrpName, ''ipv6_ra_configs:min_interval=3''])) (\<lambda>_.
        bind (on_err (errf (''failed to create port for BGP redirect '' @ squoted brgIface @ '': ''))
          (VSCtl E [''--'', ''set'', ''Port'', brgIface, managed,
            ''external-ids:'' @ BgpVrfTable @ ''='' @ vrfName, ''--'', ''set'', ''Interface'', brgIface,
            ''type=system'', ''external_ids:iface-id='' @ bgpLsp, managed])) (\<lambda>_. ret ()))) bridges))"

section \<open>Teardown\<close>

text \<open>Deleting every resource a find command lists, with the errors joined.\<close>

definition delete_found :: "(goerr \<Rightarrow> goerr) \<Rightarrow> (string \<Rightarrow> goerr \<Rightarrow> goerr) \<Rightarrow> (string \<Rightarrow> bool) \<Rightarrow> string io \<Rightarrow>
    (string \<Rightarrow> string io) \<Rightarrow> goerr option \<Rightarrow> goerr option io" where
  "delete_found find_err del_err keep find_cmd del acc =
     bind (attempt find_cmd) (\<lambda>r. case r of
       Inl e \<Rightarrow> ret (join_err acc (Some (find_err e)))
     | Inr out \<Rightarrow> fold_io (\<lambda>x. collect (del_err x) (del x)) (filter keep (parseOvnFind out)) acc)"

definition find_args :: "string \<Rightarrow> string list" where
  "find_args table = [''--bare'', ''--columns'', ''name'', ''find'', table, managed]"

text \<open>The entries of ovn-bridge-mappings that are not in the managed mapping, joined by the code's
  loop and trimmed of commas.\<close>

definition remaining_mapping :: "string \<Rightarrow> string \<Rightarrow> string" where
  "remaining_mapping ovn mine =
     (let mineMaps = split_on CHR '','' mine in
      trim_char CHR '','' (foldl (\<lambda>acc m. if m \<notin> set mineMaps then acc @ '','' @ m else acc) []
        (split_on CHR '','' ovn)))"

definition teardown_mapping :: "env \<Rightarrow> string \<Rightarrow> string \<Rightarrow> goerr option \<Rightarrow> goerr option io" where
  "teardown_mapping E ovn mine acc =
     (if ovn \<noteq> [] \<and> mine \<noteq> [] then
        let new = remaining_mapping ovn mine in
        collect (errf ''failed to remove MicroOVN managed bridge mappings from ovn-bridge-mappings: '')
          (if new = [] then VSCtl E [''remove'', ''Open_vSwitch'', ''.'', ''external-ids'', ''ovn-bridge-mappings'']
           else VSCtl E [''set'', ''Open_vSwitch'', ''.'', ''external-ids:ovn-bridge-mappings='' @ new]) acc
      else ret acc)"

definition teardown_bird :: "env \<Rightarrow> goerr option \<Rightarrow> goerr option io" where
  "teardown_bird E acc =
     bind (reads (\<lambda>w. BirdConfigFile E @ ''_'' @ show_nat (e_now E (w_trace w)))) (\<lambda>backupConfig.
     bind (attempt (run_cmd E [''cp'', BirdConfigFile E, backupConfig])) (\<lambda>r. case r of
       Inl e \<Rightarrow> ret (join_err acc (Some (errf ''failed to backup Bird config. Will not proceed with its removal: '' e)))
     | Inr _ \<Rightarrow> collect (errf ''failed to reset Bird config: '')
                  (run_cmd E [''cp'', BirdDefaultConfig E, BirdConfigDir E]) acc))"

definition teardown_all :: "env \<Rightarrow> goerr option io" where
  "teardown_all E = (let n = e_name E in
     bind (collect (errf (''failed to delete Logical Router '' @ squoted (getLrName n) @ '': ''))
             (NBCtlCluster E [''lr-del'', getLrName n]) None) (\<lambda>acc.
     bind (collect (errf ''failed to cleanup netplan: '') (Cleanup E veth_file) acc) (\<lambda>acc.
     bind (delete_found (errf ''failed to lookup Logical Switches managed by MicroOVN: '')
             (\<lambda>x. errf (''failed to delete Logical Switch '' @ squoted x @ '': ''))
             (\<lambda>x. prefix (getLsNameChassisMatch n) x)
             (NBCtlCluster E (find_args ''logical_switch'')) (\<lambda>x. NBCtlCluster E [''ls-del'', x]) acc) (\<lambda>acc.
     bind (delete_found (errf ''failed to lookup OVS Bridges managed by MicroOVN: '')
             (\<lambda>x. errf (''failed to delete OVS Bridge '' @ squoted x @ '': '')) (\<lambda>x. True)
             (VSCtl E (find_args ''bridge'')) (\<lambda>x. VSCtl E [''del-br'', x]) acc) (\<lambda>acc.
     bind (delete_found (errf ''failed to lookup OVS Ports managed by MicroOVN: '')
             (\<lambda>x. errf (''failed to delete OVS Port '' @ squoted x @ '': '')) (\<lambda>x. True)
             (VSCtl E (find_args ''port'')) (\<lambda>x. VSCtl E [''del-port'', x]) acc) (\<lambda>acc.
     bind (attempt (get_external_id E ''ovn-bridge-mappings'')) (\<lambda>r. case r of
       Inl e \<Rightarrow> ret (join_err acc (Some (errf ''failed to lookup Open_vSwitch ovn-bridge-mappings: '' e)))
     | Inr ovn \<Rightarrow>
         bind (attempt (get_external_id E BgpBridgeMapping)) (\<lambda>r2.
         bind (case r2 of
             Inl e \<Rightarrow> ret (join_err acc (Some (errf ''failed to lookup OVN bridge mapping managed by MicroOVN: '' e)))
           | Inr mine \<Rightarrow> teardown_mapping E ovn mine acc) (\<lambda>acc.
         bind (collect (errf (''failed to remove '' @ BgpBridgeMapping @ '': ''))
                 (VSCtl E [''remove'', ''Open_vSwitch'', ''.'', ''external-ids'', BgpBridgeMapping]) acc)
           (teardown_bird E))))))))))"

definition teardownAll :: "env \<Rightarrow> unit io" where
  "teardownAll E = bind (teardown_all E) ret_err"

section \<open>Frame lemmas\<close>

lemma np_redirect [np_rules]:
  "no_panic (findAvailableVrfTableID E)" "no_panic (get_external_id E k)"
  "no_panic (createBridgeNetworks E bs)" "no_panic (createExternalNetworks E bs)"
  "no_panic (createVrf E bs t)" "no_panic (redirectBgp E bs t)" "no_panic (teardown_all E)"
  "no_panic (teardownAll E)"
proof -
  show g: "no_panic (get_external_id E k)" for k
    unfolding get_external_id_def VsctlGetIfExists_def Let_def by (intro np_rules)
  show "no_panic (findAvailableVrfTableID E)"
    unfolding findAvailableVrfTableID_def getUsedVrfTableIDs_def by (intro np_rules)
  show "no_panic (createBridgeNetworks E bs)" "no_panic (createExternalNetworks E bs)"
    "no_panic (createVrf E bs t)" "no_panic (redirectBgp E bs t)"
    unfolding createBridgeNetworks_def createExternalNetworks_def createVrf_def redirectBgp_def
      generateVeth_def getOvnIntegrationBridge_def checkKernelModule_def Let_def
    by (intro np_rules g)+
  show t: "no_panic (teardown_all E)"
    unfolding teardown_all_def delete_found_def teardown_mapping_def teardown_bird_def Let_def
    by (intro np_rules g)
  show "no_panic (teardownAll E)" unfolding teardownAll_def by (intro np_rules t)
qed

lemma np_createExternalBridges [np_rules]: "no_panic (createExternalBridges E xs res)"
  by (induction E xs res rule: createExternalBridges.induct) (auto simp: Let_def intro!: np_rules)

lemma np_generateAsn:
  assumes "snd r - fst r + 1 \<noteq> 0"
  shows "no_panic (generateAsnFromClusterMemberID E r)"
proof -
  have asn: "no_panic (case asn_of_member r i of None \<Rightarrow> panic m | Some a \<Rightarrow> ret (show_nat (unat a)))" for i m
    using assms by (simp add: asn_of_member_def Let_def np_basic)
  show ?thesis
    unfolding generateAsnFromClusterMemberID_def by (rule np_bind) (rule asn | intro np_rules)+
qed

context trace_blind
begin

lemma keeps_get_external_id [keeps_rules]: "keeps P (get_external_id E k)"
  unfolding get_external_id_def VsctlGetIfExists_def Let_def by (intro keeps_rules keeps_ctl)

lemma keeps_redirect [keeps_rules]:
  "keeps P (findAvailableVrfTableID E)"
  "keeps P (createBridgeNetworks E bs)" "keeps P (createExternalNetworks E bs)"
  "keeps P (createVrf E bs t)" "keeps P (redirectBgp E bs t)"
  unfolding createBridgeNetworks_def createExternalNetworks_def createVrf_def redirectBgp_def
    generateVeth_def getOvnIntegrationBridge_def checkKernelModule_def Let_def
    findAvailableVrfTableID_def getUsedVrfTableIDs_def
  by (intro keeps_rules keeps_ctl keeps_run_cmd keeps_get_external_id keeps_outside keeps_netplan)+

lemma keeps_teardown [keeps_rules]: "keeps P (teardown_all E)" "keeps P (teardownAll E)"
  unfolding teardownAll_def teardown_all_def delete_found_def teardown_mapping_def teardown_bird_def Let_def
  by (intro keeps_rules keeps_ctl keeps_run_cmd keeps_get_external_id keeps_netplan)+

lemma keeps_createExternalBridges [keeps_rules]: "keeps P (createExternalBridges E xs res)"
  by (induction E xs res rule: createExternalBridges.induct)
     (auto simp: Let_def intro!: keeps_rules keeps_ctl keeps_get_external_id)

lemma keeps_generateAsn [keeps_rules]: "keeps P (generateAsnFromClusterMemberID E r)"
  unfolding generateAsnFromClusterMemberID_def
  by (intro keeps_rules keeps_transaction_read keeps_step dbv.keeps_step)

end

lemma tot_teardown: "total_io (teardown_all E)"
  unfolding teardown_all_def delete_found_def teardown_mapping_def teardown_bird_def Let_def
  by (intro tot_rules np_rules)

section \<open>Lemmas\<close>

lemma first_unused_Some:
  "first_unused used i = Some j \<longleftrightarrow>
     i \<le> j \<and> j \<le> 4294967295 \<and> int j \<notin> set used \<and> (\<forall>k. i \<le> k \<longrightarrow> k < j \<longrightarrow> int k \<in> set used)"
proof (induction used i rule: first_unused.induct)
  case (1 used i)
  show ?case
  proof (cases "4294967295 < i \<or> int i \<notin> set used")
    case True
    then show ?thesis
      by (subst first_unused.simps) (auto intro: antisym linorder_not_less [THEN iffD1])
  next
    case False
    then have "first_unused used i = first_unused used (i + 1)"
      by (subst first_unused.simps) simp
    moreover have "i \<le> k \<longleftrightarrow> k = i \<or> i + 1 \<le> k" for k by auto
    ultimately show ?thesis using 1 False by auto
  qed
qed

lemma remaining_fold:
  "foldl (\<lambda>acc m. if m \<notin> set mine then acc @ '','' @ m else acc) a ms =
   a @ concat (map (\<lambda>m. '','' @ m) (filter (\<lambda>m. m \<notin> set mine) ms))"
  by (induction ms arbitrary: a) auto

lemma comma_list: "xs \<noteq> [] \<Longrightarrow> concat (map (\<lambda>m. '','' @ m) xs) = '','' @ join '','' xs"
  by (induction xs rule: induct_list012) auto

text \<open>The loop keeps the other entries, in their order.\<close>

lemma hd_join: "xs \<noteq> [] \<Longrightarrow> hd xs \<noteq> [] \<Longrightarrow> hd (join s xs) = hd (hd xs)"
  by (cases xs) (auto simp: join_Cons)

lemma join_last_Nil: "xs \<noteq> [] \<Longrightarrow> last xs \<noteq> [] \<Longrightarrow> join s xs \<noteq> []"
  by (induction xs) (auto simp: join_Cons split: if_splits)

lemma last_join: "xs \<noteq> [] \<Longrightarrow> last xs \<noteq> [] \<Longrightarrow> last (join s xs) = last (last xs)"
  by (induction xs) (auto simp: join_Cons last_append dest: join_last_Nil [where s = s])

lemma join_Nil_iff: "xs \<noteq> [] \<Longrightarrow> hd xs \<noteq> [] \<Longrightarrow> join s xs \<noteq> []"
  by (cases xs) (auto simp: join_Cons)

lemma remaining_mapping_eq:
  assumes "[] \<notin> set (split_on CHR '','' ovn)"
  shows "remaining_mapping ovn mine =
           join '','' (filter (\<lambda>m. m \<notin> set (split_on CHR '','' mine)) (split_on CHR '','' ovn))"
proof -
  let ?xs = "filter (\<lambda>m. m \<notin> set (split_on CHR '','' mine)) (split_on CHR '','' ovn)"
  have ne: "x \<noteq> [] \<and> CHR '','' \<notin> set x" if "x \<in> set ?xs" for x
    using that assms split_on_pieces by auto
  show ?thesis
  proof (cases "?xs = []")
    case True
    then show ?thesis by (simp only: remaining_mapping_def Let_def remaining_fold) simp
  next
    case False
    let ?j = "join '','' ?xs"
    have ends: "hd ?xs \<in> set ?xs" "last ?xs \<in> set ?xs" using hd_in_set [OF False] last_in_set [OF False] .
    have j: "?j \<noteq> []" "hd ?j \<noteq> CHR '',''" "last ?j \<noteq> CHR '',''"
      using False ne [OF ends(1)] ne [OF ends(2)]
      by (auto simp: hd_join last_join join_Nil_iff dest: hd_in_set last_in_set)
    have "remaining_mapping ovn mine = trim_char CHR '','' (CHR '','' # ?j)"
      unfolding remaining_mapping_def Let_def remaining_fold comma_list [OF False] by simp
    also have "\<dots> = trim_char CHR '','' ?j" by (simp add: trim_by_def)
    also have "\<dots> = ?j" using j by (intro trim_by_ends) auto
    finally show ?thesis .
  qed
qed

lemma remaining_mapping_self [simp]: "remaining_mapping m m = []"
proof -
  have "filter (\<lambda>x. x \<notin> set (split_on CHR '','' m)) (split_on CHR '','' m) = []" by simp
  then show ?thesis by (simp only: remaining_mapping_def Let_def remaining_fold) simp
qed

lemma chassis_match: "getLsNameChassisMatch n = ''ls-'' @ n @ ''-''"
  by (simp add: getLsNameChassisMatch_def cut_suffix_def getLsName_def suffix_def)

section \<open>Properties\<close>

text \<open>The two commands that list the tables in use.\<close>

definition vrf_tables_cmd :: "string list" where
  "vrf_tables_cmd = [''sh'', ''-c'', ''ip -j vrf show | jq '' @ squoted ''.[] | objects | .table'']"

definition route_tables_cmd :: "string list" where
  "route_tables_cmd = [''sh'', ''-c'', ''ip -j -d -N route show table all | jq -r '' @
     squoted ''.[] | objects | .table'' @ '' | sort | uniq'']"

lemma getUsedVrfTableIDs_Ok:
  assumes "getUsedVrfTableIDs E w = (Ok used, w')"
  obtains vrfs routes where "e_cmd E (w_trace w) vrf_tables_cmd = Inr vrfs"
    and "e_cmd E (Cmd vrf_tables_cmd # w_trace w) route_tables_cmd = Inr routes"
    and "used = parse_table_ids (split_on CHR 0x0A routes @ split_on CHR 0x0A vrfs)"
  using assms unfolding getUsedVrfTableIDs_def vrf_tables_cmd_def [symmetric] route_tables_cmd_def [symmetric]
  by (auto simp: run_run_cmd elim!: bind_OkE on_err_OkE split: sum.splits)

text \<open>C39: the table identifier chosen automatically is the least from 10 on that is neither reserved nor
  on a line of what the kernel reported, of its VRFs or of its routes.\<close>

theorem findAvailableVrfTableID_least:
  assumes call: "findAvailableVrfTableID E w = (Ok s, w')"
  shows "\<exists>vrfs routes i.
     e_cmd E (w_trace w) [''sh'', ''-c'', ''ip -j vrf show | jq '' @ squoted ''.[] | objects | .table''] = Inr vrfs \<and>
     e_cmd E (Cmd [''sh'', ''-c'', ''ip -j vrf show | jq '' @ squoted ''.[] | objects | .table''] # w_trace w)
       [''sh'', ''-c'', ''ip -j -d -N route show table all | jq -r '' @ squoted ''.[] | objects | .table'' @
          '' | sort | uniq''] = Inr routes \<and>
     s = show_nat i \<and>
     (let taken = {k. k \<in> {253, 254, 255} \<or>
            (\<exists>l \<in> set (split_on CHR 0x0A vrfs) \<union> set (split_on CHR 0x0A routes). sscan_d l = Some (int k))}
      in i = (LEAST k. 10 \<le> k \<and> k \<notin> taken))"
proof -
  obtain used w1 where u: "getUsedVrfTableIDs E w = (Ok used, w1)"
    and k: "(case first_unused used 10 of None \<Rightarrow> fail (ErrS ''failed to find an available VRF table ID'')
       | Some i \<Rightarrow> ret (show_nat i)) w1 = (Ok s, w')"
    using call unfolding findAvailableVrfTableID_def by (rule bind_OkE)
  from k obtain i where i: "first_unused used 10 = Some i" and s: "s = show_nat i"
    by (auto split: option.splits)
  obtain vrfs routes where out: "e_cmd E (w_trace w) vrf_tables_cmd = Inr vrfs"
      "e_cmd E (Cmd vrf_tables_cmd # w_trace w) route_tables_cmd = Inr routes"
    and used: "used = parse_table_ids (split_on CHR 0x0A routes @ split_on CHR 0x0A vrfs)"
    by (rule getUsedVrfTableIDs_Ok [OF u])
  let ?taken = "{k. k \<in> {253, 254, 255} \<or>
     (\<exists>l \<in> set (split_on CHR 0x0A vrfs) \<union> set (split_on CHR 0x0A routes). sscan_d l = Some (int k))}"
  have mem: "int x \<in> set used \<longleftrightarrow> x \<in> ?taken" for x
    by (force simp: used parse_table_ids_def split: option.splits)
  have "(LEAST k. 10 \<le> k \<and> k \<notin> ?taken) = i"
    using i [unfolded first_unused_Some mem] by (intro Least_equality) (auto simp: not_less [symmetric])
  with out s show ?thesis
    unfolding vrf_tables_cmd_def route_tables_cmd_def Let_def by (metis (no_types, lifting))
qed

text \<open>A kernel on which the tables 10 and 11 are taken, one by a VRF and one by a route.\<close>

definition busy_kernel :: env where
  "busy_kernel = sample_env\<lparr>e_cmd := (\<lambda>t argv. Inr (if argv = vrf_tables_cmd then ''10'' else ''11''))\<rparr>"

lemma findAvailableVrfTableID_least_witness:
  "\<exists>w'. findAvailableVrfTableID busy_kernel sample_world = (Ok (show_nat 12), w') \<and>
     (\<exists>i. show_nat 12 = show_nat i \<and> i = (LEAST k. 10 \<le> k \<and> k \<notin> {253, 254, 255, 11, 10 :: nat}))"
proof -
  have lines: "split_on CHR 0x0A ''10'' = [''10'']" "split_on CHR 0x0A ''11'' = [''11'']"
    "sscan_d ''10'' = Some 10" "sscan_d ''11'' = Some 11"
    by (simp_all add: sscan_d_def atoi_def is_digit_def digit_val_def is_space_def)
  have "route_tables_cmd \<noteq> vrf_tables_cmd" by (simp add: route_tables_cmd_def vrf_tables_cmd_def)
  moreover have "first_unused (parse_table_ids [''11'', ''10'']) 10 = Some 12"
    by (simp add: first_unused_Some parse_table_ids_def lines) presburger
  moreover have "\<exists>w'. getUsedVrfTableIDs busy_kernel sample_world = (Ok (parse_table_ids [''11'', ''10'']), w')"
    unfolding getUsedVrfTableIDs_def vrf_tables_cmd_def [symmetric] route_tables_cmd_def [symmetric]
    using \<open>route_tables_cmd \<noteq> vrf_tables_cmd\<close>
    by (simp add: run_run_cmd bind_def on_err_def attempt_def run busy_kernel_def lines)
  ultimately obtain w' where call: "findAvailableVrfTableID busy_kernel sample_world = (Ok (show_nat 12), w')"
    by (auto simp: findAvailableVrfTableID_def bind_def run)
  from findAvailableVrfTableID_least [OF call] show ?thesis
    using call lines \<open>route_tables_cmd \<noteq> vrf_tables_cmd\<close>
    unfolding vrf_tables_cmd_def [symmetric] route_tables_cmd_def [symmetric]
    by (auto simp: busy_kernel_def)
qed

text \<open>C40: with a valid range the generated ASN is the remainder of the member identifier by the size of the
  range, counted from one below the range: so it lies in the range exactly when the size does not divide
  the identifier, and otherwise it is one below; it is never the maximum, and two members with
  identifiers below the size get different ASNs.\<close>

theorem asn_of_member_range:
  fixes mn mx i :: "64 word"
  assumes valid: "0 < mn" "mn < mx" "mx \<le> 4294967294"
    and a: "asn_of_member (mn, mx) i = Some a"
  shows "unat a = unat mn + unat i mod (unat mx - unat mn + 1) - 1 \<and>
    ((mn \<le> a \<and> a \<le> mx) \<longleftrightarrow> unat i mod (unat mx - unat mn + 1) \<noteq> 0) \<and>
    (\<not> (mn \<le> a \<and> a \<le> mx) \<longrightarrow> a = mn - 1) \<and> a \<noteq> mx \<and>
    (\<forall>j. i < mx - mn + 1 \<longrightarrow> j < mx - mn + 1 \<longrightarrow> asn_of_member (mn, mx) j = Some a \<longrightarrow> i = j)"
proof (intro conjI allI impI)
  let ?n = "unat mx - unat mn + 1"
  have nat: "0 < unat mn" "unat mn < unat mx" "unat mx \<le> 4294967294"
    using valid by (simp_all add: word_less_nat_alt word_le_nat_alt unat_gt_0)
  have size: "unat (mx - mn + 1) = ?n"
    using nat unat_sub [of mn mx] valid
    by (subst unat_word_ariths) (simp add: order_less_imp_le)
  have val: "unat (mn + (k mod (mx - mn + 1)) - 1) = unat mn + unat k mod ?n - 1" for k
  proof -
    have "unat (k mod (mx - mn + 1)) = unat k mod ?n" by (simp add: unat_mod size)
    moreover have "unat k mod ?n < ?n" by (rule mod_less_divisor) simp
    then have "unat mn + unat k mod ?n < 18446744073709551616" using nat by linarith
    ultimately have sum: "unat (mn + k mod (mx - mn + 1)) = unat mn + unat k mod ?n"
      by (subst unat_word_ariths) simp
    then have "1 \<le> mn + k mod (mx - mn + 1)" using nat by (simp add: word_le_nat_alt)
    then show ?thesis using sum unat_sub [of 1 "mn + k mod (mx - mn + 1)"] by simp
  qed
  have nz: "mx - mn + 1 \<noteq> 0" using size by (metis add_is_0 one_neq_zero unat_0)
  have au: "unat a = unat mn + unat i mod ?n - 1"
    using a nz val [of i] by (auto simp: asn_of_member_def Let_def)
  define q where "q = unat i mod ?n"
  have "q < ?n" unfolding q_def by (rule mod_less_divisor) simp
  then have lt: "unat mn + q \<le> unat mx" using nat by linarith
  have aq: "unat a = unat mn + q - 1" using au by (simp only: q_def)
  have "(unat mn \<le> unat a \<and> unat a \<le> unat mx) = (q \<noteq> 0)" using aq lt nat by linarith
  then show inside: "(mn \<le> a \<and> a \<le> mx) = (unat i mod ?n \<noteq> 0)"
    by (simp only: word_le_nat_alt q_def)
  show "unat a = unat mn + unat i mod ?n - 1" by (rule au)
  show "a = mn - 1" if "\<not> (mn \<le> a \<and> a \<le> mx)"
  proof -
    have "unat a = unat mn - 1" using that inside au by simp
    also have "\<dots> = unat (mn - 1)" using nat unat_sub [of 1 mn] by (simp add: word_le_nat_alt)
    finally show ?thesis by (simp add: word_unat_eq_iff)
  qed
  show "a \<noteq> mx"
  proof
    assume "a = mx"
    then have "unat a = unat mx" by simp
    with aq lt nat show False by linarith
  qed
  fix j assume ij: "i < mx - mn + 1" "j < mx - mn + 1" and aj: "asn_of_member (mn, mx) j = Some a"
  have "unat a = unat mn + unat j mod ?n - 1"
    using aj nz val [of j] by (auto simp: asn_of_member_def Let_def)
  moreover have "unat i < ?n" "unat j < ?n" using ij size by (simp_all add: word_less_nat_alt)
  ultimately have "unat i = unat j" using au nat by simp
  then show "i = j" by (simp add: word_unat_eq_iff)
qed

lemma asn_of_member_range_witness:
  "asn_of_member (4200000000, 4200000009) 20 = Some 4199999999 \<and>
   \<not> (4200000000 \<le> (4199999999 :: 64 word) \<and> (4199999999 :: 64 word) \<le> 4200000009)"
proof -
  have a: "asn_of_member (4200000000, 4200000009) 20 = Some 4199999999"
    by (simp add: asn_of_member_def)
  have "\<not> (4200000000 \<le> (4199999999 :: 64 word) \<and> (4199999999 :: 64 word) \<le> 4200000009)"
    using asn_of_member_range [OF _ _ _ a] by simp
  with a show ?thesis by blast
qed

text \<open>Teardown of a chassis removes the switches of its own name, and those of another chassis exactly
  when the other name continues its own after a dash.\<close>

theorem teardown_switch_match:
  "prefix (getLsNameChassisMatch n) (getLsName n iface) \<and>
   (prefix (getLsNameChassisMatch n) (getLsName m iface) \<longleftrightarrow> prefix (n @ ''-'') (m @ ''-'' @ iface)) \<and>
   prefix (getLsNameChassisMatch n) (getLsName (n @ ''-'' @ x) iface)"
  by (simp add: chassis_match getLsName_def)

text \<open>Teardown removes from ovn-bridge-mappings exactly the entries recorded as managed, in order; but
  the creation of a bridge records the whole mapping, so nothing of an earlier mapping survives.\<close>

theorem bridge_mapping_teardown:
  "([] \<notin> set (split_on CHR '','' ovn) \<longrightarrow> remaining_mapping ovn mine =
      join '','' (filter (\<lambda>m. m \<notin> set (split_on CHR '','' mine)) (split_on CHR '','' ovn))) \<and>
   remaining_mapping (extend_mapping old p b) (extend_mapping old p b) = []"
  using remaining_mapping_eq by simp

lemma bridge_mapping_teardown_witness:
  "remaining_mapping ''user:br0,physnet:br1'' ''physnet:br1'' = ''user:br0'' \<and>
   remaining_mapping (extend_mapping ''user:br0'' ''physnet'' ''br1'')
     (extend_mapping ''user:br0'' ''physnet'' ''br1'') = []"
  using bridge_mapping_teardown [of "''user:br0,physnet:br1''" "''physnet:br1''" "''user:br0''" "''physnet''" "''br1''"]
  by simp

end
