(* ===== verification/Bgp.thy ===== *)
theory Bgp
  imports BgpRedirect
begin

text \<open>
  Package \<open>bgp\<close>, file bgp/service.go: enabling and disabling the BGP service, and the configuration of
  the routing daemon BIRD.
\<close>

definition BirdService :: string where "BirdService = ''bird''"

section \<open>The configuration of BIRD\<close>

text \<open>The template \<open>birdConfTemplate\<close>, line by line; \<open>line n s\<close> is \<open>s\<close> behind \<open>n\<close> tabs.\<close>

definition nl :: string where "nl = [CHR 0x0A]"

definition line :: "nat \<Rightarrow> string \<Rightarrow> string" where
  "line n s = replicate n (CHR 0x09) @ s @ nl"

definition kernel_lines :: "string \<Rightarrow> string \<Rightarrow> string \<Rightarrow> string" where
  "kernel_lines name family table =
     line 0 (''protocol kernel '' @ name @ '' {'') @ line 1 (family @ '' {'') @ line 2 ''export all;'' @
     line 1 ''};'' @ line 1 ''learn;'' @ line 1 (''kernel table '' @ table @ '';'') @
     line 1 ''merge paths yes;'' @ line 0 ''}''"

definition filter_lines :: "string \<Rightarrow> string \<Rightarrow> string" where
  "filter_lines name net =
     line 0 (''filter '' @ name @ '' {'') @ line 1 (''if net = '' @ net @ '' then reject;'') @
     line 1 ''accept;'' @ line 0 ''}''"

definition birdName :: "string \<Rightarrow> string" where
  "birdName s = replace_char CHR ''-'' CHR ''_'' s"

definition bridge_lines :: "string \<Rightarrow> string \<Rightarrow> string \<Rightarrow> string \<Rightarrow> string" where
  "bridge_lines routerID vrfName asn brg =
     nl @
     line 0 (''protocol bgp microovn_'' @ birdName brg @ '' {'') @
     line 1 (''router id '' @ routerID @ '';'') @
     line 1 (''interface '' @ quoted (getBgpRedirectIfaceName brg) @ '';'') @
     line 1 (''vrf '' @ quoted vrfName @ '';'') @
     line 1 (''local as '' @ asn @ '';'') @
     line 1 ''neighbor range fe80::/10 external;'' @
     line 1 (''dynamic name '' @ quoted (''dyn_microovn_'' @ birdName brg @ ''_'') @ '';'') @
     line 1 ''ipv4 {'' @ line 2 ''next hop self ebgp;'' @ line 2 ''extended next hop on;'' @
     line 2 ''require extended next hop on;'' @ line 2 ''import all;'' @
     line 2 ''export filter no_default_v4;'' @ line 1 ''};'' @
     line 1 ''ipv6 {'' @ line 2 ''import all;'' @ line 2 ''export filter no_default_v6;'' @ line 1 ''};'' @
     line 1 ''bfd {'' @ line 2 ''# We only want to use BFD for liveness and failure detection if'' @
     line 2 ''# our peer has it configured.'' @ line 2 ''passive yes;'' @ line 1 ''};'' @
     line 0 ''}''"

definition bird_conf :: "string \<Rightarrow> string \<Rightarrow> string \<Rightarrow> string list \<Rightarrow> string \<Rightarrow> string" where
  "bird_conf table vrfName routerID bridges asn =
     nl @ line 0 ''log syslog all;'' @ line 0 ''protocol device {};'' @
     line 0 ''protocol direct {'' @
     line 1 (''disabled;'' @ [CHR 0x09] @ ''# Disable learning directly connected routes'') @
     line 1 ''ipv4;'' @ line 1 ''ipv6;'' @ line 0 ''}'' @ nl @
     kernel_lines ''kernel4'' ''ipv4'' table @ nl @ kernel_lines ''kernel6'' ''ipv6'' table @ nl @
     line 0 ''protocol static {'' @ line 1 ''ipv4;'' @ line 0 ''}'' @ nl @
     line 0 ''protocol bfd {'' @
     line 1 ''# The BIRD BFD code is currently not fully VRF aware, as long as we'' @
     line 1 ''# only have interfaces in VRFs, using strict bind allows it to work.'' @ line 1 ''#'' @
     line 1 ''# In the event we some time in the future want to speak on both VRF'' @
     line 1 ''# and non-VRF interfaces, we can instantiate multiple BFD instances.'' @ line 1 ''#'' @
     line 1 ''# Ref: https://bird.network.cz/?get_doc&v=30&f=bird-6.html#ss6.3'' @
     line 1 ''strict bind yes;'' @ line 0 ''}'' @ nl @
     filter_lines ''no_default_v4'' ''0.0.0.0/0'' @ nl @ filter_lines ''no_default_v6'' ''::/0'' @
     concat (map (bridge_lines routerID vrfName asn) bridges) @ nl"

definition configureBirdBgp :: "env \<Rightarrow> string list \<Rightarrow> string \<Rightarrow> string \<Rightarrow> unit io" where
  "configureBirdBgp E bridges tableID asn =
     (let vrfName = getVrfName tableID in
      andthen (on_err (wrapf ''failed to open Bird configuration file for writing: '')
                 (os_OpenTrunc E (BirdConfigFile E) 420))
      (case bridges of
         [] \<Rightarrow> panic ''index out of range [0] with length 0''
       | first # _ \<Rightarrow>
         andthen (on_err (wrapf ''failed to render Bird configuration template: '')
           (os_Write E (BirdConfigFile E)
             (bird_conf tableID vrfName (generateBGPRouterID E (getLrpName (e_name E) first)) bridges asn)))
         (bind (on_err (\<lambda>e. ErrWrap ''failed to apply Bird configuration: '' e '': '')
           (run_cmd E [path_join [Wrappers E, ''birdc''], ''configure''])) (\<lambda>_. ret ()))))"

section \<open>Enabling and disabling\<close>

definition DisableBgp :: "env \<Rightarrow> unit io" where
  "DisableBgp E =
     bind (collect (\<lambda>_. ErrS ''failed to stop BGP service'') (Stop E BirdService True) None) (\<lambda>acc.
     bind (attempt (teardownAll E)) (\<lambda>r. case r of
       Inl e \<Rightarrow> ret_err (join_err acc (Some e))
     | Inr _ \<Rightarrow> ret_err acc))"

text \<open>\<open>return errors.Join(err, DisableService(ctx, s))\<close>\<close>

definition undo_with :: "env \<Rightarrow> goerr \<Rightarrow> 'a io" where
  "undo_with E e = bind (attempt (DisableBgp E)) (\<lambda>r. case r of
       Inl d \<Rightarrow> fail (ErrJoin [e, d])
     | Inr _ \<Rightarrow> fail (ErrJoin [e]))"

text \<open>\<open>x, err := m(); if err != nil { return errors.Join(f(err), DisableService(ctx, s)) }\<close>\<close>

definition or_undo :: "env \<Rightarrow> (goerr \<Rightarrow> goerr) \<Rightarrow> 'a io \<Rightarrow> 'a io" where
  "or_undo E f m = bind (attempt m) (\<lambda>r. case r of Inl e \<Rightarrow> undo_with E (f e) | Inr x \<Rightarrow> ret x)"

definition default_asn_range :: "64 word \<times> 64 word" where
  "default_asn_range = (4210000000, 4294967294)"

definition EnableBgp :: "env \<Rightarrow> ExtraBgpConfig option \<Rightarrow> unit io" where
  "EnableBgp E extraConfig =
     andthen (case extraConfig of
         None \<Rightarrow> ret ()
       | Some c \<Rightarrow> (case Validate c of
             None \<Rightarrow> ret ()
           | Some e \<Rightarrow> fail (errf ''failed to validate BGP config. Services won't be started: '' e)))
     (andthen (or_undo E (\<lambda>_. ErrS ''failed to start BGP service'') (Start E BirdService True))
     (case extraConfig of
        None \<Rightarrow> ret ()
      | Some c \<Rightarrow>
        bind (if Vrf c = []
              then or_undo E (errf ''failed to auto-select VRF table ID: '') (findAvailableVrfTableID E)
              else ret (Vrf c)) (\<lambda>vrfTableID.
        bind (or_undo E id
                (if ParseBridge c = [] then createExternalBridges E (ParseExternalConnection c) []
                 else createBridgeNetworks E (ParseBridge c))) (\<lambda>bridges.
        andthen (or_undo E id (createExternalNetworks E bridges))
        (andthen (or_undo E id (createVrf E bridges vrfTableID))
        (andthen (or_undo E id (redirectBgp E bridges vrfTableID))
        (if ManualBgpdConfig c then ret ()
         else
           bind (if Asn c = []
                 then or_undo E (errf ''failed to auto-select ASN: '')
                        (generateAsnFromClusterMemberID E
                          (if AsnRange c = (0, 0) then default_asn_range else AsnRange c))
                 else ret (Asn c)) (\<lambda>asn.
           or_undo E id (configureBirdBgp E bridges vrfTableID asn)))))))))"

section \<open>Frame lemmas\<close>

context fs_blind
begin

lemma keeps_configureBirdBgp [keeps_rules]: "keeps P (configureBirdBgp E bs t a)"
  unfolding configureBirdBgp_def Let_def by (intro keeps_rules keeps_os keeps_run_cmd)

lemma keeps_DisableBgp [keeps_rules]: "keeps P (DisableBgp E)"
  unfolding DisableBgp_def by (intro keeps_rules keeps_snap keeps_teardown)

lemma keeps_or_undo [keeps_rules]: "keeps P m \<Longrightarrow> keeps P (or_undo E f m)"
  unfolding or_undo_def undo_with_def by (intro keeps_rules keeps_DisableBgp)

lemma keeps_EnableBgp [keeps_rules]: "keeps P (EnableBgp E c)"
  unfolding EnableBgp_def
  by (intro keeps_rules keeps_or_undo keeps_snap keeps_redirect keeps_createExternalBridges
      keeps_generateAsn keeps_configureBirdBgp)

end

lemma np_DisableBgp [np_rules]: "no_panic (DisableBgp E)"
  unfolding DisableBgp_def by (intro np_rules)

lemma np_or_undo [np_rules]: "no_panic m \<Longrightarrow> no_panic (or_undo E f m)"
  unfolding or_undo_def undo_with_def by (intro np_rules)

section \<open>Enabling does not panic\<close>

lemma or_undo_Ok: "or_undo E f m w = (Ok x, w') \<Longrightarrow> m w = (Ok x, w')"
proof -
  assume call: "or_undo E f m w = (Ok x, w')"
  then obtain r w1 where a: "attempt m w = (Ok r, w1)"
    and k: "(case r of Inl e \<Rightarrow> undo_with E (f e) | Inr y \<Rightarrow> ret y) w1 = (Ok x, w')"
    unfolding or_undo_def by (rule bind_OkE)
  show ?thesis
  proof (cases r)
    case (Inl e)
    with k show ?thesis
      by (auto simp: undo_with_def elim!: bind_OkE split: sum.splits)
  next
    case (Inr y)
    with k a show ?thesis by (auto elim: attempt_OkE)
  qed
qed

lemma createExternalBridges_Ok:
  "createExternalBridges E xs res w = (Ok bs, w') \<Longrightarrow> bs = res @ map (\<lambda>i. ''br-'' @ i) xs"
proof (induction E xs res arbitrary: w rule: createExternalBridges.induct)
  case (2 E iface rest res)
  then show ?case by (auto simp: Let_def elim!: bind_OkE)
qed simp

lemma createBridgeNetworks_Ok: "createBridgeNetworks E xs w = (Ok bs, w') \<Longrightarrow> bs = xs"
  by (auto simp: createBridgeNetworks_def elim!: bind_OkE)

lemma np_configureBirdBgp: "bs \<noteq> [] \<Longrightarrow> no_panic (configureBirdBgp E bs t a)"
  by (cases bs) (auto simp: configureBirdBgp_def Let_def intro!: np_rules)

lemma asn_size_nonzero:
  assumes "bgp_ok c"
  shows "no_panic (generateAsnFromClusterMemberID E (if AsnRange c = (0, 0) then default_asn_range else AsnRange c))"
proof (rule np_generateAsn)
  have "mx - mn + 1 \<noteq> 0" if "(mn :: 64 word) < mx" "mx \<le> 4294967294" for mn mx
  proof
    assume eq: "mx - mn + 1 = 0"
    have "unat (mx - mn) \<le> unat mx"
      using that by (simp add: unat_sub order_less_imp_le)
    then have "unat (mx - mn) + 1 < 18446744073709551616" using that by (simp add: word_le_nat_alt)
    then have "unat (mx - mn + 1) = unat (mx - mn) + 1" by (subst unat_word_ariths) simp
    with eq show False by simp
  qed
  then show "snd (if AsnRange c = (0, 0) then default_asn_range else AsnRange c)
      - fst (if AsnRange c = (0, 0) then default_asn_range else AsnRange c) + 1 \<noteq> 0"
    using assms by (auto simp: default_asn_range_def bgp_ok_def)
qed

theorem EnableBgp_no_panic: "no_panic (EnableBgp E cfg)"
proof (cases "\<exists>c. cfg = Some c \<and> Validate c = None")
  case True
  then obtain c where cfg: "cfg = Some c" and v: "Validate c = None" by blast
  from v have ok: "bgp_ok c" and names: "ParseExternalConnection c \<noteq> [] \<or> ParseBridge c \<noteq> []"
    by (auto simp: Validate_None)
  have bridges: "bs \<noteq> []"
    if "or_undo E id (if ParseBridge c = [] then createExternalBridges E (ParseExternalConnection c) []
          else createBridgeNetworks E (ParseBridge c)) w = (Ok bs, w')" for w bs w'
    using or_undo_Ok [OF that] names
    by (auto split: if_splits dest: createExternalBridges_Ok createBridgeNetworks_Ok)
  have tail: "no_panic (andthen (or_undo E id (createExternalNetworks E bs))
        (andthen (or_undo E id (createVrf E bs t))
        (andthen (or_undo E id (redirectBgp E bs t))
        (if ManualBgpdConfig c then ret ()
         else
           bind (if Asn c = []
                 then or_undo E (errf ''failed to auto-select ASN: '')
                        (generateAsnFromClusterMemberID E
                          (if AsnRange c = (0, 0) then default_asn_range else AsnRange c))
                 else ret (Asn c)) (\<lambda>asn.
           or_undo E id (configureBirdBgp E bs t asn))))))" if "bs \<noteq> []" for bs t
    by (intro np_rules np_configureBirdBgp that asn_size_nonzero ok)
  show ?thesis
    unfolding EnableBgp_def cfg option.case v
    by (intro np_andthen np_basic np_or_undo np_ovn_cmd np_bind [of "if Vrf c = [] then _ else _"] np_if np_redirect)
       (rule np_bind_Ok, intro np_rules, rule tail, erule bridges)
next
  case False
  then show ?thesis
    by (cases cfg) (auto simp: EnableBgp_def intro!: np_rules split: option.splits)
qed

section \<open>Every failure is undone\<close>

text \<open>What a program \<open>m\<close> does is what \<open>p\<close> does, followed by a run of \<open>DisableService\<close> when \<open>p\<close> fails: the error
  of \<open>p\<close> is then joined with the error of that run, if it has one.\<close>

definition disabled_after :: "env \<Rightarrow> goerr \<Rightarrow> world \<Rightarrow> 'a res \<times> world" where
  "disabled_after E e w = (case DisableBgp E w of
       (Ok _, w') \<Rightarrow> (Er (ErrJoin [e]), w')
     | (Er d, w') \<Rightarrow> (Er (ErrJoin [e, d]), w')
     | (Panic s, w') \<Rightarrow> (Panic s, w'))"

definition undoes :: "env \<Rightarrow> 'a io \<Rightarrow> 'a io \<Rightarrow> bool" where
  "undoes E m p \<longleftrightarrow> (\<forall>w. m w = (case p w of (Er e, w1) \<Rightarrow> disabled_after E e w1 | r \<Rightarrow> r))"

named_theorems undoes_rules \<open>composition rules of undoes\<close>

lemma undoes_ret [undoes_rules]: "undoes E (ret x) (ret x)"
  by (simp add: undoes_def run)

lemma undoes_bind [undoes_rules]:
  "undoes E m p \<Longrightarrow> (\<And>x. undoes E (k x) (q x)) \<Longrightarrow> undoes E (bind m k) (bind p q)"
  by (auto simp: undoes_def bind_def disabled_after_def split: prod.splits res.splits)

lemma undoes_andthen [undoes_rules]: "undoes E m p \<Longrightarrow> undoes E k q \<Longrightarrow> undoes E (andthen m k) (andthen p q)"
  unfolding andthen_def by (intro undoes_rules)

lemma undoes_if [undoes_rules]:
  "undoes E m p \<Longrightarrow> undoes E k q \<Longrightarrow> undoes E (if c then m else k) (if c then p else q)"
  by simp

lemma undoes_or_undo [undoes_rules]: "undoes E (or_undo E f m) (on_err f m)"
  by (auto simp: undoes_def or_undo_def undo_with_def on_err_def disabled_after_def bind_def attempt_def run
      split: prod.splits res.splits sum.splits)

lemma undoes_or_undo_id [undoes_rules]: "undoes E (or_undo E id m) m"
  by (auto simp: undoes_def or_undo_def undo_with_def disabled_after_def bind_def attempt_def run
      split: prod.splits res.splits sum.splits)

text \<open>The steps of \<open>EnableService\<close> alone, each with the text of its error.\<close>

definition bgp_steps :: "env \<Rightarrow> ExtraBgpConfig option \<Rightarrow> unit io" where
  "bgp_steps E extraConfig =
     andthen (on_err (\<lambda>_. ErrS ''failed to start BGP service'') (Start E ''bird'' True))
     (case extraConfig of
        None \<Rightarrow> ret ()
      | Some c \<Rightarrow>
        bind (if Vrf c = [] then on_err (errf ''failed to auto-select VRF table ID: '') (findAvailableVrfTableID E)
              else ret (Vrf c)) (\<lambda>vrfTableID.
        bind (if ParseBridge c = [] then createExternalBridges E (ParseExternalConnection c) []
              else createBridgeNetworks E (ParseBridge c)) (\<lambda>bridges.
        andthen (createExternalNetworks E bridges)
        (andthen (createVrf E bridges vrfTableID)
        (andthen (redirectBgp E bridges vrfTableID)
        (if ManualBgpdConfig c then ret ()
         else
           bind (if Asn c = []
                 then on_err (errf ''failed to auto-select ASN: '') (generateAsnFromClusterMemberID E
                        (if AsnRange c = (0, 0) then (4210000000, 4294967294) else AsnRange c))
                 else ret (Asn c)) (\<lambda>asn.
           configureBirdBgp E bridges vrfTableID asn)))))))"

section \<open>Properties\<close>

text \<open>Enabling the BGP service never panics, whatever the options and the environment.\<close>

theorem EnableBgp_never_panics: "fst (EnableBgp E cfg w) \<noteq> Panic s"
  using EnableBgp_no_panic [of E cfg] by (metis no_panic_def prod.collapse)

text \<open>C23: with invalid options enabling the BGP service fails before it does anything. With valid ones it takes
  its steps one after the other; as soon as one fails, in the world in which it failed, \<open>DisableService\<close> is run
  once, and the error that is returned joins the error of the step and the error of that run, if it has one.\<close>

theorem EnableBgp_failure_undone:
  "EnableBgp E cfg w =
     (case (case cfg of None \<Rightarrow> None | Some c \<Rightarrow> Validate c) of
        Some x \<Rightarrow> (Er (errf ''failed to validate BGP config. Services won't be started: '' x), w)
      | None \<Rightarrow> (case bgp_steps E cfg w of
          (Ok _, w') \<Rightarrow> (Ok (), w')
        | (Er e, w1) \<Rightarrow>
            (Er (ErrJoin (e # (case fst (DisableBgp E w1) of Er d \<Rightarrow> [d] | _ \<Rightarrow> []))), snd (DisableBgp E w1))
        | (Panic s, w') \<Rightarrow> (Panic s, w')))"
proof (cases "case cfg of None \<Rightarrow> None | Some c \<Rightarrow> Validate c")
  case (Some x)
  then obtain c where "cfg = Some c" "Validate c = Some x" by (cases cfg) auto
  then show ?thesis by (simp add: EnableBgp_def)
next
  case None
  have "undoes E (EnableBgp E cfg) (andthen (ret ()) (bgp_steps E cfg))"
    unfolding EnableBgp_def bgp_steps_def BirdService_def default_asn_range_def
    using None by (cases cfg) (auto intro!: undoes_rules)
  then have "EnableBgp E cfg w = (case bgp_steps E cfg w of (Er e, w1) \<Rightarrow> disabled_after E e w1 | r \<Rightarrow> r)"
    by (simp add: undoes_def)
  moreover have "DisableBgp E v \<noteq> (Panic s, v')" for v s v'
    using np_DisableBgp [of E] by (auto dest: no_panicD)
  ultimately show ?thesis
    unfolding None option.case
    by (auto simp: disabled_after_def split: prod.splits res.splits)
qed

end
