(* ===== verification/Node.thy ===== *)
theory Node
  imports Bgp
begin

text \<open>
  Package \<open>node\<close> (node/node.go): the services of the local member. The desired state is a row of the
  table \<open>services\<close>, the runtime state is a snap service; enabling and disabling keep the two together.
\<close>

section \<open>Reading the desired state\<close>

definition ListServices :: "env \<Rightarrow> Service list io" where
  "ListServices E = transaction E
     (bind (on_err (wrapf ''failed to fetch service: '') (GetServices E [])) (\<lambda>records.
      ret (map (\<lambda>r. \<lparr>Service_service = sv_service r, Service_location = sv_member r\<rparr>) records)))"

definition HasServiceActive :: "env \<Rightarrow> string \<Rightarrow> bool io" where
  "HasServiceActive E serviceName = transaction E
     (bind (GetServices E [\<lparr>sf_member = Some (e_name E), sf_service = None\<rparr>]) (\<lambda>services.
      ret (\<exists>srv \<in> set services. sv_service srv = serviceName)))"

fun find_members :: "env \<Rightarrow> string \<Rightarrow> member_row list \<Rightarrow> member_row list \<Rightarrow> member_row list io" where
  "find_members E srv [] found = ret found"
| "find_members E srv (m # ms) found =
     bind (ServiceExists E (m_name m) srv)
     (\<lambda>has. find_members E srv ms (if has then found @ [m] else found))"

definition FindService :: "env \<Rightarrow> string \<Rightarrow> member_row list io" where
  "FindService E srv =
     on_err (\<lambda>e. ErrS (''failed to find nodes with service '' @ squoted srv @ '': '' @ squoted (err_text e)))
       (transaction E
         (bind (query_members E) (\<lambda>clusterMembers.
          andthen (rows_err E) (find_members E srv clusterMembers []))))"

definition no_warnings :: WarningSet where
  "no_warnings = \<lparr>EvenCentral = False, FewCentral = False\<rparr>"

definition ServiceWarnings :: "env \<Rightarrow> WarningSet io" where
  "ServiceWarnings E = bind (FindService E SrvCentral) (\<lambda>centrals.
     if length centrals = 0 then ret no_warnings
     else ret \<lparr>EvenCentral = (length centrals mod 2 = 0), FewCentral = (length centrals < 3)\<rparr>)"

section \<open>Snap services\<close>

definition activateService :: "env \<Rightarrow> string \<Rightarrow> bool \<Rightarrow> unit io" where
  "activateService E srv enable =
     (if srv = SrvCentral then
        andthen (on_err (wrapf ''failed to start OVN NB: '') (Start E ''ovn-ovsdb-server-nb'' enable))
        (andthen (on_err (wrapf ''failed to start OVN SB: '') (Start E ''ovn-ovsdb-server-sb'' enable))
        (on_err (wrapf ''failed to start OVN northd: '') (Start E ''ovn-northd'' enable)))
      else if srv = SrvChassis then
        on_err (wrapf ''failed to start OVN chassis: '') (Start E ''chassis'' enable)
      else
        on_err (wrapf (''snapctl error, likely due to service not existing:'' @ [CHR 0x0A]))
          (Start E srv enable))"

definition deactivateService :: "env \<Rightarrow> string \<Rightarrow> bool \<Rightarrow> unit io" where
  "deactivateService E srv disable =
     (if srv = SrvCentral then
        andthen (ignore_err (Stop E ''ovn-northd'' disable))
        (andthen (ignore_err (Stop E ''ovn-ovsdb-server-nb'' disable))
        (ignore_err (Stop E ''ovn-ovsdb-server-sb'' disable)))
      else if srv = SrvChassis then ignore_err (Stop E ''chassis'' disable)
      else ignore_err (Stop E srv disable))"

section \<open>Joining and leaving\<close>

definition joinCentral :: "env \<Rightarrow> unit io" where
  "joinCentral E =
     andthen (on_err (\<lambda>_. ErrS ''failed to generate TLS certificate for ovnnb service'')
       (GenerateNewServiceCertificate E ''ovnnb'' CertificateTypeServer))
     (andthen (on_err (\<lambda>_. ErrS ''failed to generate TLS certificate for ovnsb service'')
       (GenerateNewServiceCertificate E ''ovnsb'' CertificateTypeServer))
     (andthen (on_err (\<lambda>_. ErrS ''failed to generate TLS certificate for ovn-northd service'')
       (GenerateNewServiceCertificate E ''ovn-northd'' CertificateTypeServer))
     (andthen (activateService E SrvCentral True)
     (UpdateOvnListenConfig E))))"

definition wait_removed :: "env \<Rightarrow> OvsdbType \<Rightarrow> unit io" where
  "wait_removed E ty = (case NewOvsdbSpec E ty of
       Inl _ \<Rightarrow> ret ()
     | Inr db \<Rightarrow> ignore_err (WaitForDBState E db OvsdbRemoved DefaultDBConnectWait))"

definition leaveCentral :: "env \<Rightarrow> bool \<Rightarrow> unit io" where
  "leaveCentral E lastMember =
     andthen (ignore_err (AppCtl E (OvnNBControlSock E) [''cluster/leave'', ''OVN_Northbound'']))
     (andthen (ignore_err (AppCtl E (OvnSBControlSock E) [''cluster/leave'', ''OVN_Southbound'']))
     (andthen (if \<not> lastMember
               then andthen (wait_removed E OvsdbTypeNBLocal) (wait_removed E OvsdbTypeSBLocal) else ret ())
     (andthen (bind (reads (\<lambda>w. e_now E (w_trace w)))
                (\<lambda>t. ignore_err (os_Rename E (CentralDBNBPath E) (CentralDBNBBackupPath E t))))
     (andthen (bind (reads (\<lambda>w. e_now E (w_trace w)))
                (\<lambda>t. ignore_err (os_Rename E (CentralDBSBPath E) (CentralDBSBBackupPath E t))))
     (deactivateService E SrvCentral True)))))"

definition leaveChassis :: "env \<Rightarrow> unit io" where
  "leaveChassis E =
     andthen (ignore_err (ControllerCtl E [''exit'']))
     (deactivateService E SrvChassis True)"

definition joinChassis :: "env \<Rightarrow> unit io" where
  "joinChassis E =
     andthen (on_err (\<lambda>_. ErrS ''failed to generate TLS certificate for ovn-controller service'')
       (GenerateNewServiceCertificate E ''ovn-controller'' CertificateTypeServer))
     (activateService E SrvChassis True)"

section \<open>Enabling and disabling\<close>

text \<open>The check on the last central: an error, or whether this is the last one.\<close>

definition check_last_central :: "env \<Rightarrow> string \<Rightarrow> bool \<Rightarrow> bool io" where
  "check_last_central E srv allowLastCentral =
     (if srv = SrvCentral then
        bind (FindService E srv) (\<lambda>centrals.
        if length centrals = 1 then
          (if \<not> allowLastCentral
           then fail (ErrS ''cannot disable last central node without explicit confirmation'')
           else ret True)
        else ret False)
      else ret False)"

definition stop_service :: "env \<Rightarrow> string \<Rightarrow> bool \<Rightarrow> unit io" where
  "stop_service E srv lastCentral =
     (if srv = SrvCentral then leaveCentral E lastCentral
      else if srv = SrvChassis then leaveChassis E
      else if srv = SrvBgp then DisableBgp E
      else deactivateService E srv True)"

definition DisableService :: "env \<Rightarrow> string \<Rightarrow> bool \<Rightarrow> unit io" where
  "DisableService E srv allowLastCentral =
     andthen (Log E CatAuthz EventAdminActivity
       [(''action'', JStr ''disable_service''), (''service'', JStr srv), (''node'', JStr (e_name E))]
       (''Disabling service '%s' on node '%s'' @ [CHR 0x27]) [srv, e_name E])
     (bind (HasServiceActive E srv) (\<lambda>exists.
     if \<not> exists then fail (ErrS ''this service is not enabled'')
     else
       bind (check_last_central E srv allowLastCentral) (\<lambda>lastCentral.
       andthen (transaction E (DeleteService E (e_name E) srv))
       (stop_service E srv lastCentral))))"

text \<open>\<open>extraConfig\<close> is a pointer to a struct with the pointer \<open>BgpConfig\<close>; only the BGP case
  dereferences it.\<close>

definition start_service :: "env \<Rightarrow> string \<Rightarrow> ExtraBgpConfig option option \<Rightarrow> unit io" where
  "start_service E srv extraConfig =
     (if srv = SrvCentral then joinCentral E
      else if srv = SrvChassis then joinChassis E
      else if srv = SrvBgp then
        (case extraConfig of
           None \<Rightarrow> panic ''invalid memory address or nil pointer dereference''
         | Some bgpConfig \<Rightarrow> EnableBgp E bgpConfig)
      else activateService E srv True)"

text \<open>Starting the service; if that fails the row is deleted again.\<close>

definition start_or_rollback :: "env \<Rightarrow> string \<Rightarrow> ExtraBgpConfig option option \<Rightarrow> unit io" where
  "start_or_rollback E srv extraConfig =
     bind (attempt (start_service E srv extraConfig)) (\<lambda>r. case r of
        Inr _ \<Rightarrow> ret ()
      | Inl err \<Rightarrow>
          bind (attempt (transaction E (DeleteService E (e_name E) srv))) (\<lambda>d. case d of
            Inl dberr \<Rightarrow> fail (ErrJoin [err, dberr])
          | Inr _ \<Rightarrow> fail err))"

definition EnableService :: "env \<Rightarrow> string \<Rightarrow> ExtraBgpConfig option option \<Rightarrow> unit io" where
  "EnableService E srv extraConfig =
     andthen (Log E CatAuthz EventAdminActivity
       [(''action'', JStr ''enable_service''), (''service'', JStr srv), (''node'', JStr (e_name E))]
       (''Enabling service '%s' on node '%s'' @ [CHR 0x27]) [srv, e_name E])
     (bind (HasServiceActive E srv) (\<lambda>exists.
     if exists then fail (ErrS ''this service is already enabled'')
     else if \<not> CheckValidService srv then fail (ErrS ''service does not exist'')
     else
       bind (transaction E (CreateService E (row_of (e_name E) srv))) (\<lambda>_.
       andthen (on_err (wrapf ''failed to regenerate environment file after enabling central service: '')
          (GenerateEnvironment E))
       (start_or_rollback E srv extraConfig))))"

definition DisableAllServices :: "env \<Rightarrow> unit io" where
  "DisableAllServices E = for_each (\<lambda>srv. ignore_err (DisableService E srv False)) ServiceNames"

definition ActivateEnabledServices :: "env \<Rightarrow> bool \<Rightarrow> unit io" where
  "ActivateEnabledServices E enable = transaction E
     (bind (GetServices E [\<lparr>sf_member = Some (e_name E), sf_service = None\<rparr>]) (\<lambda>services.
      for_each (\<lambda>srv. activateService E (sv_service srv) enable) services))"

section \<open>Frame lemmas\<close>

context trace_blind
begin

lemma keeps_find_members [keeps_rules]: "keeps P (find_members E srv ms found)"
  by (induction ms arbitrary: found) (auto intro!: keeps_rules keeps_ServiceExists)

lemma keeps_node_reads [keeps_rules]:
  "keeps P (ListServices E)" "keeps P (HasServiceActive E srv)" "keeps P (FindService E srv)"
proof -
  show "keeps P (ListServices E)" "keeps P (HasServiceActive E srv)"
    unfolding ListServices_def HasServiceActive_def
    by (intro keeps_rules keeps_transaction_read keeps_GetServices dbv.keeps_GetServices)+
  have "trace_blind (\<lambda>w. w_db w = d)" for d by unfold_locales simp
  then have "keeps (\<lambda>w. w_db w = d) (find_members E srv ms found)" for d ms found
    by (rule trace_blind.keeps_find_members)
  then show "keeps P (FindService E srv)"
    unfolding FindService_def
    by (intro keeps_rules keeps_transaction_read keeps_query_members dbv.keeps_query_members keeps_find_members)
qed

lemma keeps_activate [keeps_rules]:
  "keeps P (activateService E srv b)" "keeps P (deactivateService E srv b)"
  unfolding activateService_def deactivateService_def by (intro keeps_rules keeps_snap)+

lemma keeps_check_last [keeps_rules]: "keeps P (check_last_central E srv b)"
  unfolding check_last_central_def by (intro keeps_rules keeps_node_reads)

end

context fs_blind
begin

lemma keeps_leave [keeps_rules]: "keeps P (leaveCentral E b)" "keeps P (leaveChassis E)"
proof -
  have wr: "keeps P (wait_removed E ty)" for ty
    unfolding wait_removed_def by (intro keeps_rules keeps_WaitForDBState)
  show "keeps P (leaveCentral E b)" "keeps P (leaveChassis E)"
    unfolding leaveCentral_def leaveChassis_def
    by (intro keeps_rules wr keeps_ctl keeps_os keeps_activate)+
qed

lemma keeps_join [keeps_rules]: "keeps P (joinCentral E)" "keeps P (joinChassis E)"
  unfolding joinCentral_def joinChassis_def
  by (intro keeps_rules keeps_GenerateNewServiceCertificate keeps_activate keeps_cluster)+

lemma keeps_start_stop [keeps_rules]:
  "keeps P (start_service E srv c)" "keeps P (stop_service E srv b)"
  unfolding start_service_def stop_service_def
  by (intro keeps_rules keeps_join keeps_leave keeps_EnableBgp keeps_DisableBgp keeps_activate)+

end

lemma np_find_members [np_rules]: "no_panic (find_members E srv ms found)"
  by (induction ms arbitrary: found) (auto intro!: np_rules)

lemma np_node [np_rules]:
  "no_panic (ListServices E)" "no_panic (HasServiceActive E srv)" "no_panic (FindService E srv)"
  "no_panic (ServiceWarnings E)" "no_panic (activateService E srv b)" "no_panic (deactivateService E srv b)"
  "no_panic (leaveCentral E b)" "no_panic (leaveChassis E)" "no_panic (joinCentral E)"
  "no_panic (joinChassis E)" "no_panic (stop_service E srv b)" "no_panic (check_last_central E srv b)"
  "no_panic (DisableService E srv b)" "no_panic (DisableAllServices E)" "no_panic (ActivateEnabledServices E b)"
proof -
  show f: "no_panic (FindService E srv)" for srv unfolding FindService_def by (intro np_rules)
  show h: "no_panic (HasServiceActive E srv)" for srv unfolding HasServiceActive_def by (intro np_rules)
  show "no_panic (ListServices E)" "no_panic (ServiceWarnings E)"
    unfolding ListServices_def ServiceWarnings_def by (intro np_rules f)+
  show a: "no_panic (activateService E srv b)" "no_panic (deactivateService E srv b)" for srv b
    unfolding activateService_def deactivateService_def by (intro np_rules)+
  show l: "no_panic (leaveCentral E b)" "no_panic (leaveChassis E)" for b
    unfolding leaveCentral_def leaveChassis_def wait_removed_def by (intro np_rules a)+
  show "no_panic (joinCentral E)" "no_panic (joinChassis E)"
    unfolding joinCentral_def joinChassis_def by (intro np_rules a)+
  show s: "no_panic (stop_service E srv b)" for srv b unfolding stop_service_def by (intro np_rules a l)
  show c: "no_panic (check_last_central E srv b)" for srv b
    unfolding check_last_central_def by (intro np_rules f)
  show d: "no_panic (DisableService E srv b)" for srv b
    unfolding DisableService_def by (intro np_rules h c s)
  show "no_panic (DisableAllServices E)" "no_panic (ActivateEnabledServices E b)"
    unfolding DisableAllServices_def ActivateEnabledServices_def by (intro np_rules d a)+
qed

lemma np_EnableService [np_rules]: "no_panic (EnableService E srv (Some cfg))"
proof -
  have "no_panic (start_service E srv (Some cfg))"
    unfolding start_service_def option.case by (intro np_rules EnableBgp_no_panic)
  then show ?thesis unfolding EnableService_def start_or_rollback_def by (intro np_rules)
qed

lemma keeps_services_ok [keeps_rules]:
  "keeps (\<lambda>w. db_ok (w_db w)) (EnableService E srv c)"
  "keeps (\<lambda>w. db_ok (w_db w)) (DisableService E srv b)"
  unfolding EnableService_def start_or_rollback_def DisableService_def
  by (intro keeps_rules keeps_transaction_inv keeps_mapper_ok invv.keeps_node_reads invv.keeps_check_last
      invf.keeps_start_stop invf.keeps_GenerateEnvironment invv.keeps_Log)+

section \<open>What the readers return\<close>

lemma HasServiceActive_Ok:
  assumes call: "HasServiceActive E srv w = (Ok b, w')"
  shows "(b \<longleftrightarrow> (e_name E, srv) \<in> abs_services (w_db w)) \<and> w_db w' = w_db w"
proof -
  have same: "w_db w' = w_db w" using keepsD [OF dbv.keeps_node_reads(2) refl call] .
  obtain w1 xs w2 where w1: "w_db w1 = w_db w"
    and g: "GetServices E [\<lparr>sf_member = Some (e_name E), sf_service = None\<rparr>] w1 = (Ok xs, w2)"
    and b: "b \<longleftrightarrow> (\<exists>x \<in> set xs. sv_service x = srv)"
    using call unfolding HasServiceActive_def by (elim transaction_OkE bind_OkE) auto
  from GetServices_Ok [OF g] w1
  have "xs = select_services [\<lparr>sf_member = Some (e_name E), sf_service = None\<rparr>] (w_db w)" by simp
  then have "b \<longleftrightarrow> (e_name E, srv) \<in> abs_services (w_db w)"
    using b by (auto simp: set_select_services filter_matches_def set_service_objects(2))
  with same show ?thesis by simp
qed

lemma find_members_Ok:
  "find_members E srv ms found w = (Ok res, w') \<Longrightarrow>
   res = found @ filter (\<lambda>m. (m_name m, srv) \<in> abs_services (w_db w)) ms \<and> w_db w' = w_db w"
proof (induction ms arbitrary: found w)
  case (Cons m ms)
  then obtain b w1 where s: "ServiceExists E (m_name m) srv w = (Ok b, w1)"
    and r: "find_members E srv ms (if b then found @ [m] else found) w1 = (Ok res, w')"
    by (auto elim: bind_OkE)
  from ServiceExists_Ok [OF s] Cons.IH [OF r] show ?case by auto
qed simp

lemma FindService_Ok:
  assumes call: "FindService E srv w = (Ok ms, w')"
  shows "ms = members_with srv (w_db w) \<and> w_db w' = w_db w"
proof -
  have same: "w_db w' = w_db w" using keepsD [OF dbv.keeps_node_reads(3) refl call] .
  obtain w1 rows w2 w3 w4 where w1: "w_db w1 = w_db w" and q: "query_members E w1 = (Ok rows, w2)"
    and s: "rows_err E w2 = (Ok (), w3)" and f: "find_members E srv rows [] w3 = (Ok ms, w4)"
    using call unfolding FindService_def by (elim on_err_OkE transaction_OkE bind_OkE andthen_OkE) auto
  from q w1 have "rows = members (w_db w)" "w_db w2 = w_db w"
    unfolding query_members_def by (auto elim!: query_stmt_OkE)
  moreover from s have "w_db w3 = w_db w2" unfolding rows_err_def by (auto elim!: step_OkE)
  ultimately show ?thesis using find_members_Ok [OF f] same by (simp add: members_with_def)
qed

lemma keeps_services_members [keeps_rules]:
  "keeps (\<lambda>w. members (w_db w) = ms) (EnableService E srv c)"
  "keeps (\<lambda>w. members (w_db w) = ms) (DisableService E srv b)"
  unfolding EnableService_def start_or_rollback_def DisableService_def
  by (intro keeps_rules keeps_transaction_inv keeps_mapper_members invv.keeps_node_reads invv.keeps_check_last
      invf.keeps_start_stop invf.keeps_GenerateEnvironment invv.keeps_Log)+

lemma keeps_services_configs [keeps_rules]:
  "keeps (\<lambda>w. configs (w_db w) = cs) (EnableService E srv c)"
  "keeps (\<lambda>w. configs (w_db w) = cs) (DisableService E srv b)"
  unfolding EnableService_def start_or_rollback_def DisableService_def
  by (intro keeps_rules keeps_transaction_inv keeps_mapper_configs invv.keeps_node_reads invv.keeps_check_last
      invf.keeps_start_stop invf.keeps_GenerateEnvironment invv.keeps_Log)+

section \<open>What enabling and disabling do to the registry\<close>

text \<open>Both start with an entry of the security log, whatever happens then.\<close>

definition enable_entry :: "env \<Rightarrow> string \<Rightarrow> event list" where
  "enable_entry E srv = log_entry E CatAuthz EventAdminActivity
     [(''action'', JStr ''enable_service''), (''service'', JStr srv), (''node'', JStr (e_name E))]
     (''Enabling service '%s' on node '%s'' @ [CHR 0x27]) [srv, e_name E]"

definition disable_entry :: "env \<Rightarrow> string \<Rightarrow> event list" where
  "disable_entry E srv = log_entry E CatAuthz EventAdminActivity
     [(''action'', JStr ''disable_service''), (''service'', JStr srv), (''node'', JStr (e_name E))]
     (''Disabling service '%s' on node '%s'' @ [CHR 0x27]) [srv, e_name E]"

lemma EnableService_logged:
  "EnableService E srv extraConfig w = bind (HasServiceActive E srv) (\<lambda>exists.
     if exists then fail (ErrS ''this service is already enabled'')
     else if \<not> CheckValidService srv then fail (ErrS ''service does not exist'')
     else
       bind (transaction E (CreateService E (row_of (e_name E) srv))) (\<lambda>_.
       andthen (on_err (wrapf ''failed to regenerate environment file after enabling central service: '')
          (GenerateEnvironment E))
       (start_or_rollback E srv extraConfig))) (with_log (enable_entry E srv) w)"
  by (simp only: EnableService_def andthen_Log enable_entry_def)

lemma DisableService_logged:
  "DisableService E srv allowLastCentral w = bind (HasServiceActive E srv) (\<lambda>exists.
     if \<not> exists then fail (ErrS ''this service is not enabled'')
     else
       bind (check_last_central E srv allowLastCentral) (\<lambda>lastCentral.
       andthen (transaction E (DeleteService E (e_name E) srv))
       (stop_service E srv lastCentral))) (with_log (disable_entry E srv) w)"
  by (simp only: DisableService_def andthen_Log disable_entry_def)

lemma transaction_db:
  "transaction E m w = (Ok x, w') \<Longrightarrow> \<exists>w1 w2. w_db w1 = w_db w \<and> m w1 = (Ok x, w2) \<and> w_db w' = w_db w2"
  by (auto elim!: transaction_OkE)

lemma create_row_Ok:
  assumes ok: "db_ok (w_db w)" and call: "transaction E (CreateService E (row_of m s)) w = (Ok i, w')"
  shows "(m, s) \<notin> abs_services (w_db w) \<and>
         abs_services (w_db w') = insert (m, s) (abs_services (w_db w)) \<and> db_ok (w_db w')"
proof -
  obtain w1 w2 where w1: "w_db w1 = w_db w" and c: "CreateService E (row_of m s) w1 = (Ok i, w2)"
    and w2: "w_db w' = w_db w2" using transaction_db [OF call] by blast
  have "db_ok (w_db w1)" using ok w1 by simp
  with svc.add_ok [OF this c] svc.add_inv [OF this c] w1 w2 show ?thesis by simp
qed

lemma delete_row_Ok:
  assumes ok: "db_ok (w_db w)" and call: "transaction E (DeleteService E m s) w = (Ok u, w')"
  shows "(m, s) \<in> abs_services (w_db w) \<and>
         abs_services (w_db w') = abs_services (w_db w) - {(m, s)} \<and> db_ok (w_db w')"
proof -
  obtain w1 w2 where w1: "w_db w1 = w_db w" and c: "DeleteService E m s w1 = (Ok u, w2)"
    and w2: "w_db w' = w_db w2" using transaction_db [OF call] by blast
  have "db_ok (w_db w1)" using ok w1 by simp
  with svc.del_ok [OF this] svc.del_inv [OF this c] c w1 w2 show ?thesis by simp
qed

text \<open>The effects of the service itself leave the tables alone.\<close>

lemma start_service_db: "start_service E srv c w = (r, w') \<Longrightarrow> w_db w' = w_db w"
  by (rule keepsD [OF dbf.keeps_start_stop(1) refl])

lemma stop_service_db: "stop_service E srv b w = (r, w') \<Longrightarrow> w_db w' = w_db w"
  by (rule keepsD [OF dbf.keeps_start_stop(2) refl])

lemma GenerateEnvironment_db: "GenerateEnvironment E w = (r, w') \<Longrightarrow> w_db w' = w_db w"
  by (rule keepsD [OF dbf.keeps_GenerateEnvironment refl])

lemma np_transaction_delete [np_rules]: "no_panic (transaction E (DeleteService E m s))"
  by (intro np_rules)

lemma start_or_rollback_cases:
  assumes call: "start_or_rollback E srv c w = (r, w')"
  obtains (Started) "start_service E srv c w = (Ok (), w')" and "r = Ok ()"
  | (Undone) e w1 u where "start_service E srv c w = (Er e, w1)"
      and "transaction E (DeleteService E (e_name E) srv) w1 = (Ok u, w')" and "r = Er e"
  | (Stuck) e w1 d where "start_service E srv c w = (Er e, w1)"
      and "transaction E (DeleteService E (e_name E) srv) w1 = (Er d, w')" and "r = Er (ErrJoin [e, d])"
  | (Crashed) m where "start_service E srv c w = (Panic m, w')" and "r = Panic m"
proof (cases "start_service E srv c" w rule: io_cases)
  case (Ok u w1)
  then have "start_or_rollback E srv c w = (Ok (), w1)" by (simp add: start_or_rollback_def run)
  with call have "r = Ok ()" "w' = w1" by simp_all
  with Ok show ?thesis using Started by simp
next
  case (Panic m w1)
  then have "start_or_rollback E srv c w = (Panic m, w1)" by (simp add: start_or_rollback_def run)
  with call have "r = Panic m" "w' = w1" by simp_all
  with Panic show ?thesis using Crashed by simp
next
  case e: (Er e w1)
  show ?thesis
  proof (cases "transaction E (DeleteService E (e_name E) srv)" w1 rule: io_cases)
    case (Ok u w2)
    with e have "start_or_rollback E srv c w = (Er e, w2)" by (simp add: start_or_rollback_def run)
    with call have "r = Er e" "w' = w2" by simp_all
    with Ok show ?thesis using Undone [OF e] by simp
  next
    case (Er d w2)
    with e have "start_or_rollback E srv c w = (Er (ErrJoin [e, d]), w2)"
      by (simp add: start_or_rollback_def run)
    with call have "r = Er (ErrJoin [e, d])" "w' = w2" by simp_all
    with Er show ?thesis using Stuck [OF e] by simp
  next
    case (Panic m w2)
    then show ?thesis using np_transaction_delete no_panicD by blast
  qed
qed

text \<open>How a call of \<open>EnableService\<close> goes: refused, not created, stuck without environment, or run.\<close>

lemma EnableService_cases:
  assumes call: "EnableService E srv c w = (r, w')" and ok: "db_ok (w_db w)"
  obtains (Refused) e where "r = Er e" and "w_db w' = w_db w"
  | (NoEnv) i w1 w2 e where "(e_name E, srv) \<notin> abs_services (w_db w)" and "w_db w1 = w_db w"
      and "transaction E (CreateService E (row_of (e_name E) srv)) w1 = (Ok i, w2)"
      and "GenerateEnvironment E w2 = (Er e, w')"
      and "r = Er (wrapf ''failed to regenerate environment file after enabling central service: '' e)"
  | (Run) i w1 w2 w3 where "CheckValidService srv" and "w_db w1 = w_db w"
      and "transaction E (CreateService E (row_of (e_name E) srv)) w1 = (Ok i, w2)"
      and "GenerateEnvironment E w2 = (Ok (), w3)" and "start_or_rollback E srv c w3 = (r, w')"
proof (cases "HasServiceActive E srv" "with_log (enable_entry E srv) w" rule: io_cases)
  case (Er e w1)
  then have "w_db w1 = w_db w" by (rule keepsD [OF dbv.keeps_node_reads(2) with_log_simps(1)])
  moreover from Er call have "r = Er e" "w' = w1" by (simp_all add: EnableService_logged run)
  ultimately show ?thesis using Refused by simp
next
  case (Panic m w1)
  then show ?thesis using np_node(2) no_panicD by blast
next
  case h: (Ok b w1)
  have w1: "w_db w1 = w_db w" and b: "b \<longleftrightarrow> (e_name E, srv) \<in> abs_services (w_db w)"
    using HasServiceActive_Ok [OF h] by simp_all
  show ?thesis
  proof (cases "b \<or> \<not> CheckValidService srv")
    case True
    with h call have "\<exists>e. r = Er e" "w' = w1" by (auto simp: EnableService_logged run split: if_splits)
    with w1 show ?thesis using Refused by blast
  next
    case False
    let ?t = "transaction E (CreateService E (row_of (e_name E) srv))"
    show ?thesis
    proof (cases ?t w1 rule: io_cases)
      case (Er e w2)
      with call h False have "r = Er e" "w' = w2" by (simp_all add: EnableService_logged run)
      with Refused transaction_fails_db(1) [OF Er] w1 show ?thesis by simp
    next
      case (Panic m w2)
      have "no_panic ?t" by (intro np_rules)
      with Panic show ?thesis by (auto dest: no_panicD)
    next
      case t: (Ok i w2)
      show ?thesis
      proof (cases "GenerateEnvironment E" w2 rule: io_cases)
        case (Ok u w3)
        have g: "on_err f (GenerateEnvironment E) w2 = (Ok (), w3)" for f
          using Ok by (simp add: run_on_err(1) [where m = "GenerateEnvironment E"])
        have "andthen (on_err f (GenerateEnvironment E)) k w2 = k w3" for f and k :: "unit io"
          using g [of f] by (rule run_andthen(1))
        with t h False have "EnableService E srv c w = start_or_rollback E srv c w3"
          by (simp add: EnableService_logged bind_def [where m = "HasServiceActive E srv"]
              bind_def [where m = "transaction E (CreateService E (row_of (e_name E) srv))"])
        with call have "start_or_rollback E srv c w3 = (r, w')" by simp
        with Ok False show ?thesis using Run [OF _ w1 t] by simp
      next
        case (Er e w3)
        have g: "on_err f (GenerateEnvironment E) w2 = (Er (f e), w3)" for f
          using Er by (simp add: run_on_err(2) [where m = "GenerateEnvironment E"])
        have "andthen (on_err f (GenerateEnvironment E)) k w2 = (Er (f e), w3)" for f and k :: "unit io"
          using g [of f] by (rule run_andthen(2))
        with t h False have "EnableService E srv c w =
            (Er (wrapf ''failed to regenerate environment file after enabling central service: '' e), w3)"
          by (simp add: EnableService_logged bind_def [where m = "HasServiceActive E srv"]
              bind_def [where m = "transaction E (CreateService E (row_of (e_name E) srv))"])
        with call have "w' = w3"
          "r = Er (wrapf ''failed to regenerate environment file after enabling central service: '' e)"
          by simp_all
        with Er False b show ?thesis using NoEnv [OF _ w1 t] by simp
      next
        case (Panic m w3)
        then show ?thesis using np_environment(4) no_panicD by blast
      qed
    qed
  qed
qed

lemma EnableService_Ok:
  assumes ok: "db_ok (w_db w)" and call: "EnableService E srv c w = (Ok u, w')"
  shows "CheckValidService srv \<and> (e_name E, srv) \<notin> abs_services (w_db w) \<and>
         abs_services (w_db w') = insert (e_name E, srv) (abs_services (w_db w))"
  using call ok
proof (cases rule: EnableService_cases)
  case (Run i w1 w2 w3)
  have ok1: "db_ok (w_db w1)" using ok Run(2) by simp
  from Run(5) have "start_service E srv c w3 = (Ok (), w')"
    by (cases rule: start_or_rollback_cases) auto
  with create_row_Ok [OF ok1 Run(3)] Run(1,2) GenerateEnvironment_db [OF Run(4)] start_service_db
  show ?thesis by simp
qed auto

lemma DisableService_Ok:
  assumes ok: "db_ok (w_db w)" and call: "DisableService E srv b w = (Ok u, w')"
  shows "(e_name E, srv) \<in> abs_services (w_db w) \<and>
         abs_services (w_db w') = abs_services (w_db w) - {(e_name E, srv)} \<and>
         (srv = SrvCentral \<longrightarrow> \<not> b \<longrightarrow> length (members_with SrvCentral (w_db w)) \<noteq> 1)"
proof -
  obtain w1 l w2 w3 where h: "HasServiceActive E srv (with_log (disable_entry E srv) w) = (Ok True, w1)"
    and c: "check_last_central E srv b w1 = (Ok l, w2)"
    and d: "transaction E (DeleteService E (e_name E) srv) w2 = (Ok (), w3)"
    and s: "stop_service E srv l w3 = (Ok u, w')"
    using call unfolding DisableService_logged
    by (elim bind_OkE) (auto split: if_splits elim!: bind_OkE andthen_OkE)
  have w1: "w_db w1 = w_db w" using HasServiceActive_Ok [OF h] by simp
  have w2: "w_db w2 = w_db w1" by (rule keepsD [OF dbv.keeps_check_last refl c])
  have "db_ok (w_db w2)" using ok w1 w2 by simp
  from delete_row_Ok [OF this d] stop_service_db [OF s] w1 w2
  have "(e_name E, srv) \<in> abs_services (w_db w)"
    "abs_services (w_db w') = abs_services (w_db w) - {(e_name E, srv)}" by simp_all
  moreover have "srv = SrvCentral \<longrightarrow> \<not> b \<longrightarrow> length (members_with SrvCentral (w_db w)) \<noteq> 1"
    using c w1 unfolding check_last_central_def
    by (auto elim!: bind_OkE dest!: FindService_Ok split: if_splits)
  ultimately show ?thesis by simp
qed

text \<open>The tables after a failed call.\<close>

lemma transaction_db_panic: "transaction E m w = (Panic s, w') \<Longrightarrow> w_db w' = w_db w"
  by (rule transaction_fails_db(2))

lemma EnableService_Er:
  assumes ok: "db_ok (w_db w)" and call: "EnableService E srv c w = (Er e, w')"
  shows "abs_services (w_db w') = abs_services (w_db w) \<or>
     (e_name E, srv) \<notin> abs_services (w_db w) \<and>
     abs_services (w_db w') = insert (e_name E, srv) (abs_services (w_db w)) \<and>
     ((\<exists>w1 x. GenerateEnvironment E w1 = (Er x, w')) \<or>
      (\<exists>w1 x. transaction E (DeleteService E (e_name E) srv) w1 = (Er x, w')))"
  using call ok
proof (cases rule: EnableService_cases)
  case (Refused x)
  then show ?thesis by simp
next
  case (NoEnv i w1 w2 x)
  have "db_ok (w_db w1)" using ok NoEnv(2) by simp
  from create_row_Ok [OF this NoEnv(3)] NoEnv(2,4) GenerateEnvironment_db [OF NoEnv(4)]
  show ?thesis by auto
next
  case (Run i w1 w2 w3)
  have ok1: "db_ok (w_db w1)" using ok Run(2) by simp
  note row = create_row_Ok [OF ok1 Run(3)]
  have w3: "w_db w3 = w_db w2" by (rule GenerateEnvironment_db [OF Run(4)])
  from Run(5) show ?thesis
  proof (cases rule: start_or_rollback_cases)
    case (Undone x w4 u)
    have w4: "w_db w4 = w_db w3" by (rule start_service_db [OF Undone(1)])
    have "db_ok (w_db w4)" using row w3 w4 by simp
    from delete_row_Ok [OF this Undone(2)] row w3 w4 Run(2) show ?thesis by auto
  next
    case (Stuck x w4 d)
    have "w_db w4 = w_db w3" by (rule start_service_db [OF Stuck(1)])
    with transaction_fails_db(1) [OF Stuck(2)] row w3 Run(2) Stuck(2) show ?thesis by auto
  qed simp_all
qed

lemma DisableService_Er:
  assumes ok: "db_ok (w_db w)" and call: "DisableService E srv b w = (Er e, w')"
  shows "abs_services (w_db w') = abs_services (w_db w) \<or>
     srv = SrvBgp \<and> abs_services (w_db w') = abs_services (w_db w) - {(e_name E, srv)}"
proof -
  let ?k = "\<lambda>l. andthen (transaction E (DeleteService E (e_name E) srv)) (stop_service E srv l)"
  have nostop: "stop_service E srv l w1 = (Er x, w2) \<Longrightarrow> srv = SrvBgp" for l w1 x w2
  proof (rule ccontr)
    assume run: "stop_service E srv l w1 = (Er x, w2)" and "srv \<noteq> SrvBgp"
    have "total_io (deactivateService E s True)" for s
      unfolding deactivateService_def by (intro tot_rules np_rules)
    then have "total_io (stop_service E srv l)"
      using \<open>srv \<noteq> SrvBgp\<close> unfolding stop_service_def leaveCentral_def leaveChassis_def wait_removed_def
      by (auto intro!: tot_rules np_rules)
    then show False using run by (auto elim!: total_ioE [where w = w1])
  qed
  show ?thesis
  proof (cases "HasServiceActive E srv" "with_log (disable_entry E srv) w" rule: io_cases)
    case (Er x w1)
    then have "w_db w1 = w_db w" by (rule keepsD [OF dbv.keeps_node_reads(2) with_log_simps(1)])
    then show ?thesis using call Er by (simp add: DisableService_logged run)
  next
    case (Panic m w1)
    then show ?thesis using np_node(2) no_panicD by blast
  next
    case h: (Ok a w1)
    have w1: "w_db w1 = w_db w" using HasServiceActive_Ok [OF h] by simp
    show ?thesis
    proof (cases a)
      case False
      with call h w1 show ?thesis by (simp add: DisableService_logged run)
    next
      case True
      show ?thesis
      proof (cases "check_last_central E srv b" w1 rule: io_cases)
        case (Er x w2)
        then have "w_db w2 = w_db w1" by (rule keepsD [OF dbv.keeps_check_last refl])
        then show ?thesis using call h True Er w1 by (simp add: DisableService_logged run)
      next
        case (Panic m w2)
        then show ?thesis using np_node(12) no_panicD by blast
      next
        case c: (Ok l w2)
        have w2: "w_db w2 = w_db w1" by (rule keepsD [OF dbv.keeps_check_last refl c])
        have k: "?k l w2 = (Er e, w')" using call h True c by (simp add: DisableService_logged run)
        show ?thesis
        proof (cases "transaction E (DeleteService E (e_name E) srv)" w2 rule: io_cases)
          case (Er x w3)
          with k have "w' = w3" by (simp add: run)
          with transaction_fails_db(1) [OF Er] w1 w2 show ?thesis by simp
        next
          case (Panic m w3)
          then show ?thesis using np_transaction_delete no_panicD by blast
        next
          case d: (Ok u w3)
          with k have s: "stop_service E srv l w3 = (Er e, w')" by (simp add: run)
          have "db_ok (w_db w2)" using ok w1 w2 by simp
          from delete_row_Ok [OF this d] stop_service_db [OF s] nostop [OF s] w1 w2 show ?thesis by simp
        qed
      qed
    qed
  qed
qed

section \<open>The contract of the service manager\<close>

text \<open>What the callers of this package rely on: a successful call adds or removes exactly the row of the
  local member.\<close>

locale service_manager =
  fixes view :: "world \<Rightarrow> ('m \<times> 'v) set" and inv :: "world \<Rightarrow> bool" and me :: 'm
    and enable :: "'v \<Rightarrow> unit io" and disable :: "'v \<Rightarrow> unit io"
  assumes enable_ok: "inv w \<Longrightarrow> enable v w = (Ok u, w') \<Longrightarrow>
      (me, v) \<notin> view w \<and> view w' = insert (me, v) (view w)"
    and disable_ok: "inv w \<Longrightarrow> disable v w = (Ok u, w') \<Longrightarrow>
      (me, v) \<in> view w \<and> view w' = view w - {(me, v)}"
    and enable_inv: "inv w \<Longrightarrow> enable v w = (r, w') \<Longrightarrow> inv w'"
    and disable_inv: "inv w \<Longrightarrow> disable v w = (r, w') \<Longrightarrow> inv w'"
begin

lemma enable_then_disable:
  assumes "inv w" and "enable v w = (Ok u, w1)" and "disable v w1 = (Ok u', w2)"
  shows "view w2 = view w"
  using enable_ok [OF assms(1,2)] disable_ok [OF enable_inv [OF assms(1,2)] assms(3)] by auto

lemma enable_all:
  assumes "inv w" and "for_each enable vs w = (Ok u, w')"
  shows "inv w' \<and> distinct vs \<and> view w \<inter> {me} \<times> set vs = {} \<and> view w' = view w \<union> {me} \<times> set vs"
  using assms
proof (induction vs arbitrary: w)
  case (Cons v vs)
  then obtain u1 w1 where e: "enable v w = (Ok u1, w1)" and r: "for_each enable vs w1 = (Ok u, w')"
    by (auto elim: andthen_OkE)
  from enable_ok [OF Cons.prems(1) e] Cons.IH [OF enable_inv [OF Cons.prems(1) e] r] show ?case by auto
qed simp

end

text \<open>A manager that refuses to remove the last instance of one service.\<close>

locale last_guard = service_manager +
  fixes special :: 'b
  assumes guarded: "inv w \<Longrightarrow> disable special w = (Ok u, w') \<Longrightarrow> \<exists>m. m \<noteq> me \<and> (m, special) \<in> view w"
begin

lemma never_empties:
  assumes "inv w" and "disable v w = (Ok u, w')" and "\<exists>m. (m, special) \<in> view w"
  shows "\<exists>m. (m, special) \<in> view w'"
proof (cases "v = special")
  case True
  with guarded [OF assms(1)] disable_ok [OF assms(1,2)] assms(2) show ?thesis by blast
next
  case False
  with disable_ok [OF assms(1,2)] assms(3) show ?thesis by auto
qed

end

interpretation mgr: service_manager "\<lambda>w. abs_services (w_db w)" "\<lambda>w. db_ok (w_db w)" "e_name E"
  "\<lambda>s. EnableService E s c" "\<lambda>s. DisableService E s b" for E c b
  by unfold_locales
     (auto dest: EnableService_Ok DisableService_Ok keepsD [OF keeps_services_ok(1)]
        keepsD [OF keeps_services_ok(2)])

lemma in_members_with: "(a, s) \<in> abs_services d \<longleftrightarrow> (\<exists>m \<in> set (members_with s d). m_name m = a)"
  by (auto simp: members_with_def in_abs_services)

lemma another_member:
  assumes ok: "db_ok d" and me: "(a, s) \<in> abs_services d" and n: "length (members_with s d) \<noteq> 1"
  shows "\<exists>m. m \<noteq> a \<and> (m, s) \<in> abs_services d"
proof -
  obtain x where x: "x \<in> set (members_with s d)" "m_name x = a"
    using me unfolding in_members_with by blast
  have dist: "distinct (map m_name (members_with s d))"
    using ok by (auto simp: db_ok_def members_keys_def members_with_def distinct_map_filter)
  have "\<not> set (members_with s d) \<subseteq> {x}"
  proof
    assume sub: "set (members_with s d) \<subseteq> {x}"
    have "length (members_with s d) = card (set (members_with s d))"
      using dist by (simp add: distinct_map distinct_card)
    also have "set (members_with s d) = {x}" using sub x(1) by auto
    finally show False using n by simp
  qed
  then obtain y where y: "y \<in> set (members_with s d)" "y \<noteq> x" by auto
  have "m_name y \<noteq> a"
    using dist x y by (auto simp: distinct_map inj_on_def)
  with y(1) show ?thesis unfolding in_members_with by blast
qed

interpretation guard: last_guard "\<lambda>w. abs_services (w_db w)" "\<lambda>w. db_ok (w_db w)" "e_name E"
  "\<lambda>s. EnableService E s c" "\<lambda>s. DisableService E s False" SrvCentral for E c
proof
  fix w w' u assume ok: "db_ok (w_db w)" and call: "DisableService E SrvCentral False w = (Ok u, w')"
  from DisableService_Ok [OF ok call] another_member [OF ok]
  show "\<exists>m. m \<noteq> e_name E \<and> (m, SrvCentral) \<in> abs_services (w_db w)" by blast
qed

lemma central_survives:
  assumes ok: "db_ok (w_db w)" and call: "DisableService E srv False w = (r, w')"
    and some: "\<exists>m. (m, SrvCentral) \<in> abs_services (w_db w)"
  shows "\<exists>m. (m, SrvCentral) \<in> abs_services (w_db w')"
proof (cases r)
  case (Ok u)
  with guard.never_empties [OF ok _ some] call show ?thesis by blast
next
  case (Er e)
  with DisableService_Er [OF ok] call some show ?thesis by (fastforce simp: srv_defs)
next
  case (Panic m)
  with call np_node(13) show ?thesis by (blast dest: no_panicD)
qed

section \<open>Properties\<close>

text \<open>C2: \<open>EnableService\<close> either succeeds for a known service that was not enabled and adds exactly its
  row, or fails and leaves the registry as it was, except when the environment file could not be
  written or the rollback itself failed; it never panics when a configuration struct is given.\<close>

theorem EnableService_outcome:
  assumes ok: "db_ok (w_db w)" and call: "EnableService E srv (Some cfg) w = (r, w')"
  shows "db_ok (w_db w') \<and> (case r of
      Ok _ \<Rightarrow> CheckValidService srv \<and> (e_name E, srv) \<notin> abs_services (w_db w) \<and>
        abs_services (w_db w') = insert (e_name E, srv) (abs_services (w_db w))
    | Er _ \<Rightarrow> abs_services (w_db w') = abs_services (w_db w) \<or>
        abs_services (w_db w') = insert (e_name E, srv) (abs_services (w_db w)) \<and>
        ((\<exists>w1 x. GenerateEnvironment E w1 = (Er x, w')) \<or>
         (\<exists>w1 x. transaction E (DeleteService E (e_name E) srv) w1 = (Er x, w')))
    | Panic _ \<Rightarrow> False)"
proof -
  have "db_ok (w_db w')" by (rule keepsD [OF keeps_services_ok(1) ok call])
  then show ?thesis
    using ok call EnableService_Ok [of w E srv "Some cfg"] EnableService_Er [of w E srv "Some cfg"]
      np_EnableService [of E srv cfg]
    by (auto split: res.splits dest: no_panicD)
qed

text \<open>When the environment file cannot be written the row of the new service stays although the
  service was never started, and a second attempt is refused as already enabled.\<close>

theorem EnableService_keeps_row_without_environment:
  assumes ok: "db_ok (w_db w)"
    and call: "EnableService E srv c w =
      (Er (wrapf ''failed to regenerate environment file after enabling central service: '' e), w')"
    and created: "abs_services (w_db w') \<noteq> abs_services (w_db w)"
    and again: "EnableService E srv c w' = (r2, w2)"
  shows "(e_name E, srv) \<in> abs_services (w_db w') \<and> (\<exists>e2. r2 = Er e2) \<and>
         abs_services (w_db w2) = abs_services (w_db w')"
proof -
  have ok': "db_ok (w_db w')" by (rule keepsD [OF keeps_services_ok(1) ok call])
  have row: "(e_name E, srv) \<in> abs_services (w_db w')"
    using EnableService_Er [OF ok call] created by auto
  from again ok' show ?thesis
  proof (cases rule: EnableService_cases)
    case (Refused e2)
    with row show ?thesis by simp
  next
    case (NoEnv i w3 w4 e2)
    with row show ?thesis by simp
  next
    case (Run i w3 w4 w5)
    have "db_ok (w_db w3)" using ok' Run(2) by simp
    from create_row_Ok [OF this Run(3)] Run(2) row show ?thesis by simp
  qed
qed

text \<open>C3: \<open>DisableService\<close> never panics and keeps the schema; when it succeeds it removed exactly the row
  of the local member, and the last central only with explicit confirmation; when it fails the
  registry is as before, except that a BGP service whose teardown fails is no longer registered.\<close>

theorem DisableService_outcome:
  assumes ok: "db_ok (w_db w)" and call: "DisableService E srv allowLast w = (r, w')"
  shows "db_ok (w_db w') \<and> (case r of
      Ok _ \<Rightarrow> (e_name E, srv) \<in> abs_services (w_db w) \<and>
        abs_services (w_db w') = abs_services (w_db w) - {(e_name E, srv)} \<and>
        (srv = SrvCentral \<and> \<not> allowLast \<longrightarrow> (\<exists>m. (m, SrvCentral) \<in> abs_services (w_db w')))
    | Er _ \<Rightarrow> abs_services (w_db w') = abs_services (w_db w) \<or>
        srv = SrvBgp \<and> abs_services (w_db w') = abs_services (w_db w) - {(e_name E, srv)}
    | Panic _ \<Rightarrow> False)"
proof (cases r)
  case (Ok u)
  have D: "(e_name E, srv) \<in> abs_services (w_db w)"
    "abs_services (w_db w') = abs_services (w_db w) - {(e_name E, srv)}"
    using DisableService_Ok [OF ok call [unfolded Ok]] by (blast, blast)
  have "db_ok (w_db w')" by (rule keepsD [OF keeps_services_ok(2) ok call])
  moreover have "\<exists>m. (m, SrvCentral) \<in> abs_services (w_db w')" if c: "srv = SrvCentral" and a: "\<not> allowLast"
  proof -
    have "DisableService E srv False w = (r, w')" using call a by simp
    from central_survives [OF ok this] show ?thesis using D(1) c by blast
  qed
  ultimately show ?thesis unfolding Ok res.case using D by blast
next
  case (Er e)
  with DisableService_Er [OF ok call [unfolded Er]] keepsD [OF keeps_services_ok(2) ok call]
  show ?thesis by simp
next
  case (Panic m)
  with call np_node(13) show ?thesis by (blast dest: no_panicD)
qed

text \<open>C4: \<open>DisableAllServices\<close> always returns, and if the cluster has a central it still has one
  afterwards.\<close>

theorem DisableAllServices_keeps_central:
  assumes ok: "db_ok (w_db w)" and some: "\<exists>m. (m, SrvCentral) \<in> abs_services (w_db w)"
  shows "\<exists>w'. DisableAllServices E w = (Ok (), w') \<and> db_ok (w_db w') \<and>
           (\<exists>m. (m, SrvCentral) \<in> abs_services (w_db w'))"
proof -
  let ?P = "\<lambda>w. db_ok (w_db w) \<and> (\<exists>m. (m, SrvCentral) \<in> abs_services (w_db w))"
  have "total_io (DisableAllServices E)"
    unfolding DisableAllServices_def by (intro tot_rules np_node)
  then obtain u w' where "DisableAllServices E w = (Ok u, w')" by (rule total_ioE)
  then have call: "DisableAllServices E w = (Ok (), w')" by simp
  have "keeps ?P (DisableService E srv False)" for srv
    by (rule keepsI) (use central_survives keepsD [OF keeps_services_ok(2)] in blast)
  then have "keeps ?P (DisableAllServices E)"
    unfolding DisableAllServices_def by (intro keeps_rules)
  from keepsD [OF this _ call] ok some call show ?thesis by blast
qed

text \<open>The warnings reported are those of the number of members that run the central service.\<close>

theorem ServiceWarnings_exact:
  assumes call: "ServiceWarnings E w = (Ok ws, w')"
  shows "w_db w' = w_db w \<and>
    (let n = length (members_with SrvCentral (w_db w)) in
       (EvenCentral ws \<longleftrightarrow> 0 < n \<and> even n) \<and> (FewCentral ws \<longleftrightarrow> 0 < n \<and> n < 3))"
  using call unfolding ServiceWarnings_def
  by (auto elim!: bind_OkE dest!: FindService_Ok simp: no_warnings_def Let_def even_iff_mod_2_eq_zero
      split: if_splits)

section \<open>The properties at a concrete input\<close>

lemmas node_evals [evals] = srv_defs HasServiceActive_def EnableService_def CheckValidService_def ServiceNames_def
  start_or_rollback_def start_service_def activateService_def Start_def FindService_def ServiceWarnings_def
  no_warnings_def DisableService_def check_last_central_def

text \<open>A machine on which the central service is enabled.\<close>

definition world_with_central :: world where
  "world_with_central = sample_world\<lparr>w_db := sample_db\<lparr>services :=
     [\<lparr>sr_id = 1, sr_member = 1, sr_service = SrvCentral\<rparr>], next_service := 2\<rparr>\<rparr>"

lemma db_ok_central [simp]: "db_ok (w_db world_with_central)"
  by (simp_all add: world_with_central_def sample_world_def sample_db_def db_ok_def
      members_keys_def services_schema_def config_schema_def)

lemma central_there: "\<exists>m. (m, SrvCentral) \<in> abs_services (w_db world_with_central)"
  by (simp add: world_with_central_def sample_world_def sample_db_def abs_services_def)

lemma enable_runs: "fst (EnableService sample_env SrvSwitch (Some None) world_with_env) = Ok ()"
  by (simp add: evals world_with_env_def)

lemma enable_stuck:
  "fst (EnableService sample_env SrvSwitch c sample_world) =
     Er (wrapf ''failed to regenerate environment file after enabling central service: ''
       (wrapf ''couldn't open ovn.env: '' (ErrS ''open /c/data/env/ovn.env: no such file or directory'')))"
  "abs_services (w_db (snd (EnableService sample_env SrvSwitch c sample_world))) = {(''n1'', SrvSwitch)}"
  "abs_services (w_db sample_world) = {}"
  by (simp_all add: evals abs_services_def)

theorem EnableService_outcome_witness:
  "db_ok (w_db (snd (EnableService sample_env SrvSwitch (Some None) world_with_env))) \<and>
   abs_services (w_db (snd (EnableService sample_env SrvSwitch (Some None) world_with_env))) =
     insert (''n1'', SrvSwitch) (abs_services (w_db world_with_env))"
  using EnableService_outcome [of world_with_env sample_env SrvSwitch None, OF _ prod.collapse [symmetric]]
  by (simp add: enable_runs) (simp add: sample_env_def)

theorem EnableService_keeps_row_without_environment_witness:
  "(''n1'', SrvSwitch) \<in> abs_services (w_db (snd (EnableService sample_env SrvSwitch None sample_world))) \<and>
   (\<exists>e. fst (EnableService sample_env SrvSwitch None (snd (EnableService sample_env SrvSwitch None sample_world)))
      = Er e)"
proof -
  let ?w = "snd (EnableService sample_env SrvSwitch None sample_world)"
  have "EnableService sample_env SrvSwitch None sample_world = (Er (wrapf
      ''failed to regenerate environment file after enabling central service: ''
      (wrapf ''couldn't open ovn.env: '' (ErrS ''open /c/data/env/ovn.env: no such file or directory''))), ?w)"
    by (rule prod_eqI) (simp_all add: enable_stuck(1))
  from EnableService_keeps_row_without_environment [OF db_ok_sample(1) this _ prod.collapse [symmetric]]
  show ?thesis by (simp add: enable_stuck)
qed

theorem DisableService_outcome_witness:
  "abs_services (w_db (snd (DisableService sample_env SrvCentral False world_with_central))) =
     abs_services (w_db world_with_central)"
proof -
  let ?c = "DisableService sample_env SrvCentral False world_with_central"
  have "\<exists>e. fst ?c = Er e"
    by (simp add: evals world_with_central_def find_members.simps)
  then obtain e where "?c = (Er e, snd ?c)" by (metis prod.collapse)
  from DisableService_outcome [OF db_ok_central this] show ?thesis by (simp add: srv_defs)
qed

theorem DisableAllServices_witness:
  "\<exists>w'. DisableAllServices sample_env world_with_central = (Ok (), w') \<and> db_ok (w_db w') \<and>
     (\<exists>m. (m, SrvCentral) \<in> abs_services (w_db w'))"
  by (rule DisableAllServices_keeps_central [OF db_ok_central central_there])

theorem ServiceWarnings_witness:
  "\<exists>w'. ServiceWarnings sample_env world_with_central = (Ok \<lparr>EvenCentral = False, FewCentral = True\<rparr>, w') \<and>
     w_db w' = w_db world_with_central"
proof -
  let ?c = "ServiceWarnings sample_env world_with_central"
  have "fst ?c = Ok \<lparr>EvenCentral = False, FewCentral = True\<rparr>"
    by (simp add: evals world_with_central_def find_members.simps)
  then have run: "?c = (Ok \<lparr>EvenCentral = False, FewCentral = True\<rparr>, snd ?c)" by (metis prod.collapse)
  from ServiceWarnings_exact [OF this] run show ?thesis by blast
qed

end
