(* ===== verification/CommandLog.thy ===== *)
theory CommandLog
  imports Client Node
begin

text \<open>
  Which commands a part of the program can run. A predicate on the world that survives every database
  statement, request, pause and every allowed command is kept by the parts that run only such commands.
\<close>

text \<open>A step with its error handling, in terms of the result of the step itself.\<close>

named_theorems seq \<open>how a sequence goes on after a step\<close>

lemma seq_on_err [seq]: "bind (on_err f m) k w = (case m w of (Ok x, w') \<Rightarrow> k x w'
    | (Er e, w') \<Rightarrow> (Er (f e), w') | (Panic s, w') \<Rightarrow> (Panic s, w'))"
  by (simp add: bind_def on_err_def attempt_def ret_def fail_def split: prod.splits res.splits)

lemma seq_attempt [seq]: "bind (attempt m) k w = (case m w of (Ok x, w') \<Rightarrow> k (Inr x) w'
    | (Er e, w') \<Rightarrow> k (Inl e) w' | (Panic s, w') \<Rightarrow> (Panic s, w'))"
  by (simp add: bind_def attempt_def split: prod.splits res.splits)

lemma seq_then [seq]: "andthen m k w = (case m w of (Ok x, w') \<Rightarrow> k w'
    | (Er e, w') \<Rightarrow> (Er e, w') | (Panic s, w') \<Rightarrow> (Panic s, w'))"
  by (simp add: andthen_def bind_def)

locale cmd_log =
  fixes P :: "world \<Rightarrow> bool" and allowed :: "string list \<Rightarrow> bool"
  assumes sql: "P w \<Longrightarrow> P (w\<lparr>w_trace := Sql s # w_trace w\<rparr>)"
    and request: "P w \<Longrightarrow> P (w\<lparr>w_trace := Http c m p # w_trace w\<rparr>)"
    and pause: "P w \<Longrightarrow> P (w\<lparr>w_trace := Sleep n # w_trace w\<rparr>)"
    and command: "P w \<Longrightarrow> allowed argv \<Longrightarrow> P (w\<lparr>w_trace := Cmd argv # w_trace w\<rparr>)"
    and tables: "P (w\<lparr>w_db := d\<rparr>) = P w"
    and os_call: "P w \<Longrightarrow> P (w\<lparr>w_trace := Os op p # w_trace w\<rparr>)"
    and files: "P (w\<lparr>w_fs := f\<rparr>) = P w"
    and audit: "P w \<Longrightarrow> P (w\<lparr>w_trace := Audit msg ctx # w_trace w\<rparr>)"
begin

lemma keeps_Log: "keeps P (Log E cat evt extra format args)"
  by (simp add: keeps_def Log_def Let_def audit run)

lemma keeps_step_os: "keeps P (step E (Os op p))"
  by (simp add: keeps_def step_def os_call)

lemma keeps_fs_op: "keeps P (fs_op E op p f)"
  unfolding fs_op_def
  by (intro keeps_rules keeps_step_os) (auto simp: keeps_def files split: sum.splits)

lemma keeps_os: "keeps P (os_MkdirAll E p)" "keeps P (os_Mkdir E p)" "keeps P (os_Rename E p q)"
  "keeps P (os_RemoveAll E p)"
  unfolding os_defs by (intro keeps_fs_op)+

lemma keeps_paths: "keeps P (CreatePaths E)" "keeps P (CleanupPaths E)"
  unfolding CreatePaths_def CleanupPaths_def gather_def join_errs_def by (intro keeps_rules keeps_os)+

lemma keeps_step_sql: "keeps P (step E (Sql s))"
  by (simp add: keeps_def step_def sql)

lemma keeps_http: "keeps P (http E c m p b)"
  by (simp add: keeps_def http_def request)

lemma keeps_sleep: "keeps P (sleep n)"
  by (simp add: keeps_def sleep_def pause)

lemma keeps_run_cmd: "allowed argv \<Longrightarrow> keeps P (run_cmd E argv)"
  by (simp add: keeps_def run_cmd_def command)

lemma keeps_transaction: "keeps P m \<Longrightarrow> keeps P (transaction E m)"
proof (rule keepsI)
  fix w r w' assume m: "keeps P m" and w: "P w" and call: "transaction E m w = (r, w')"
  let ?m = "bind (step E (Sql ''BEGIN'')) (\<lambda>_. bind m (\<lambda>x. andthen (step E (Sql ''COMMIT'')) (ret x)))"
  have "keeps P ?m" by (intro keeps_rules keeps_step_sql m)
  then have "P (snd (?m w))" using w by (simp add: keeps_def)
  with call show "P w'" by (auto simp: transaction_def tables split: prod.splits res.splits)
qed

lemma keeps_reading: "keeps P (prepare E n)" "keeps P (query_stmt E n q)"
  unfolding prepare_def query_stmt_def by (intro keeps_rules keeps_step_sql)+

lemma keeps_pick_stmt: "keeps P (pick_stmt E n f)"
  unfolding pick_stmt_def by (intro keeps_rules keeps_reading keeps_step_sql)

lemma keeps_services: "keeps P (GetServices E fs)" "keeps P (ServiceExists E m s)"
  unfolding GetServices_def getServices_def ServiceExists_def GetServiceID_def
  by (intro keeps_rules keeps_reading keeps_pick_stmt)+

lemma keeps_find_members: "keeps P (find_members E srv ms found)"
  by (induction ms arbitrary: found) (auto intro!: keeps_rules keeps_services)

lemma keeps_registry: "keeps P (FindService E srv)" "keeps P (HasServiceActive E srv)" "keeps P (ListServices E)"
  unfolding FindService_def HasServiceActive_def ListServices_def query_members_def rows_err_def
  by (intro keeps_rules keeps_transaction keeps_reading keeps_services keeps_find_members keeps_step_sql)+

lemma keeps_query: "keeps P (query E c m p b dec)"
  unfolding query_def by (intro keeps_rules keeps_http)

end

definition ran :: "string list \<Rightarrow> world \<Rightarrow> bool" where
  "ran argv w \<longleftrightarrow> Cmd argv \<in> set (w_trace w)"

interpretation never: cmd_log "\<lambda>w. \<not> ran c w" "\<lambda>argv. argv \<noteq> c" for c
  by unfold_locales (auto simp: ran_def)

text \<open>The commands run so far, newest first.\<close>

fun commands :: "event list \<Rightarrow> string list list" where
  "commands [] = []"
| "commands (Cmd argv # t) = argv # commands t"
| "commands (Sql s # t) = commands t"
| "commands (Os op p # t) = commands t"
| "commands (Http c m p # t) = commands t"
| "commands (Sleep n # t) = commands t"
| "commands (Print s # t) = commands t"
| "commands (Audit m c # t) = commands t"

interpretation quiet: cmd_log "\<lambda>w. commands (w_trace w) = cs" "\<lambda>argv. False" for cs
  by unfold_locales auto

end
