(* ===== verification/Rest.thy ===== *)
theory Rest
  imports CommandLog
begin

text \<open>
  What the handlers of the REST endpoints share: the values of package \<open>response\<close> they return, the
  early return with an error response, and \<open>Query\<close> on all clients of the cluster. A request is its
  notification mark, its decoded body (or the error of the decoder) and the variables of its path.
\<close>

datatype 'a response =
    SyncResponse bool 'a
  | BadRequest goerr
  | NotFound goerr
  | InternalError goerr
  | SmartError goerr

text \<open>\<open>x, err := m(); if err != nil { return f(err) }; k(x)\<close>\<close>

definition or_resp :: "(goerr \<Rightarrow> 'b response) \<Rightarrow> 'a io \<Rightarrow> ('a \<Rightarrow> 'b response io) \<Rightarrow> 'b response io" where
  "or_resp f m k = bind (attempt m) (\<lambda>r. case r of Inl e \<Rightarrow> ret (f e) | Inr x \<Rightarrow> k x)"

text \<open>\<open>if err := x; err != nil { return f(err) }\<close> for a value that may be a nil error.\<close>

definition check_resp :: "(goerr \<Rightarrow> 'b response) \<Rightarrow> goerr option \<Rightarrow> 'b response io \<Rightarrow> 'b response io" where
  "check_resp f e k = (case e of Some e \<Rightarrow> ret (f e) | None \<Rightarrow> k)"

definition internal_error :: "'a response" where
  "internal_error = InternalError (ErrS ''internal server error'')"

lemma internal_error_neq [simp]: "internal_error \<noteq> SyncResponse ok x" "SyncResponse ok x \<noteq> internal_error"
  by (simp_all add: internal_error_def)

text \<open>\<open>json.NewDecoder(r.Body).Decode(&x)\<close>\<close>

definition decode :: "(json \<Rightarrow> goerr + 'a) \<Rightarrow> goerr + json \<Rightarrow> goerr + 'a" where
  "decode dec body = (case body of Inl e \<Rightarrow> Inl e | Inr j \<Rightarrow> dec j)"

text \<open>\<open>url.PathUnescape\<close>, and the handlers' use of it on a variable of the path.\<close>

fun path_unescape :: "string \<Rightarrow> string option" where
  "path_unescape [] = Some []"
| "path_unescape (c # s) =
     (if c = CHR ''%'' then
        (case s of
           a # b # rest \<Rightarrow>
             (case (hex_val a, hex_val b) of
                (Some x, Some y) \<Rightarrow> map_option (Cons (char_of (16 * x + y))) (path_unescape rest)
              | _ \<Rightarrow> None)
         | _ \<Rightarrow> None)
      else map_option (Cons c) (path_unescape s))"

definition path_var :: "string \<Rightarrow> (string \<Rightarrow> 'a response io) \<Rightarrow> 'a response io" where
  "path_var raw k = (case path_unescape raw of None \<Rightarrow> ret internal_error | Some s \<Rightarrow> k s)"

lemma path_unescape_plain: "CHR ''%'' \<notin> set s \<Longrightarrow> path_unescape s = Some s"
  by (induction s) auto

lemma keeps_path_var [keeps_rules]: "(\<And>s. keeps P (k s)) \<Longrightarrow> keeps P (path_var raw k)"
  unfolding path_var_def by (intro keeps_rules)

lemma np_path_var [np_rules]: "(\<And>s. no_panic (k s)) \<Longrightarrow> no_panic (path_var raw k)"
  unfolding path_var_def by (intro np_rules)

lemma seq_or_resp [seq]: "or_resp f m k w = (case m w of (Ok x, w') \<Rightarrow> k x w'
    | (Er e, w') \<Rightarrow> (Ok (f e), w') | (Panic s, w') \<Rightarrow> (Panic s, w'))"
  by (simp add: or_resp_def seq_attempt ret_def split: prod.splits res.splits)

lemma keeps_or_resp [keeps_rules]: "keeps P m \<Longrightarrow> (\<And>x. keeps P (k x)) \<Longrightarrow> keeps P (or_resp f m k)"
  unfolding or_resp_def by (intro keeps_rules)

lemma keeps_check_resp [keeps_rules]: "keeps P k \<Longrightarrow> keeps P (check_resp f e k)"
  unfolding check_resp_def by (intro keeps_rules)

lemma np_or_resp [np_rules]: "no_panic m \<Longrightarrow> (\<And>x. no_panic (k x)) \<Longrightarrow> no_panic (or_resp f m k)"
  unfolding or_resp_def by (intro np_rules)

lemma np_check_resp [np_rules]: "no_panic k \<Longrightarrow> no_panic (check_resp f e k)"
  unfolding check_resp_def by (intro np_rules)

lemma tot_or_resp [tot_rules]: "no_panic m \<Longrightarrow> (\<And>x. total_io (k x)) \<Longrightarrow> total_io (or_resp f m k)"
  unfolding or_resp_def by (intro tot_rules)

lemma or_resp_OkE [ok_elims]:
  assumes "or_resp f m k w = (Ok y, w')"
  obtains x w1 where "m w = (Ok x, w1)" and "k x w1 = (Ok y, w')"
  | e where "m w = (Er e, w')" and "y = f e"
  using assms by (cases m w rule: io_cases) (auto simp: seq)

lemma run_peers: "peers E n w = (case e_peers E (w_trace w) n of Inl e \<Rightarrow> (Er e, w) | Inr ps \<Rightarrow> (Ok ps, w))"
  by (simp add: peers_def bind_def reads_def of_sum_def ret_def fail_def split: sum.splits)

lemma run_leader: "leader E w = (case e_leader E (w_trace w) of Inl e \<Rightarrow> (Er e, w) | Inr c \<Rightarrow> (Ok c, w))"
  by (simp add: leader_def bind_def reads_def of_sum_def ret_def fail_def split: sum.splits)

lemmas rest_evals [evals] = or_resp_def check_resp_def

end
