(* ===== verification/BgpApi.thy ===== *)
theory BgpApi
  imports Rest
begin

text \<open>
  Package \<open>bgpapi\<close> (api/bgp/endpoints.go): the cluster-wide set-up of BGP, and enabling BGP on a member
  from the cluster configuration or from the external IDs of its bridges.
\<close>

section \<open>Checking an interface\<close>

definition interfaceExists :: "env \<Rightarrow> string \<Rightarrow> bool io" where
  "interfaceExists E name = bind (attempt (outside_NotExist E (''/sys/class/net/'' @ name)))
     (\<lambda>r. ret (case r of Inl _ \<Rightarrow> False | Inr missing \<Rightarrow> \<not> missing))"

definition checkInterfaceHandler :: "env \<Rightarrow> string \<Rightarrow> (string \<times> bool) list response io" where
  "checkInterfaceHandler E ifaceName =
     (if ifaceName = [] then ret (BadRequest (ErrS ''missing 'name' query parameter''))
      else bind (interfaceExists E ifaceName) (\<lambda>b. ret (SyncResponse True [(''exists'', b)])))"

text \<open>\<open>item, _ := config.GetConfig(...)\<close>: on an error the item is nil.\<close>

definition get_or_nil :: "env \<Rightarrow> string \<Rightarrow> config_item option io" where
  "get_or_nil E key = bind (attempt (GetConfig E key)) (\<lambda>r. ret (case r of Inl _ \<Rightarrow> None | Inr x \<Rightarrow> x))"

definition value_of :: "config_item option \<Rightarrow> string" where
  "value_of item = (case item of None \<Rightarrow> [] | Some i \<Rightarrow> ci_value i)"

definition CheckBgpInterfaceFromClusterConfig :: "env \<Rightarrow> unit io" where
  "CheckBgpInterfaceFromClusterConfig E =
     bind (get_or_nil E BgpConfigKeyInterface) (\<lambda>ifaceItem.
     if value_of ifaceItem \<noteq> [] then
       bind (interfaceExists E (value_of ifaceItem)) (\<lambda>ok.
       if \<not> ok then fail (ErrS (''required BGP interface '' @ squoted (value_of ifaceItem) @ '' not found on this node''))
       else ret ())
     else
       bind (get_or_nil E BgpConfigKeyBridge) (\<lambda>brItem.
       if value_of brItem \<noteq> [] then
         bind (interfaceExists E (value_of brItem)) (\<lambda>ok.
         if \<not> ok then fail (ErrS (''required BGP bridge '' @ squoted (value_of brItem) @ '' not found on this node''))
         else ret ())
       else fail (ErrS ''no BGP interface or bridge configured in cluster setup'')))"

section \<open>Enabling BGP on one member\<close>

definition EnableBgpOnNodeFromClusterConfig :: "env \<Rightarrow> unit io" where
  "EnableBgpOnNodeFromClusterConfig E =
     bind (on_err (wrapf ''failed to read BGP interface config: '') (GetConfig E BgpConfigKeyInterface)) (\<lambda>ifaceItem.
     bind (on_err (wrapf ''failed to read BGP bridge config: '') (GetConfig E BgpConfigKeyBridge)) (\<lambda>brItem.
     bind (get_or_nil E BgpConfigKeyAsn) (\<lambda>asnItem.
     bind (get_or_nil E BgpConfigKeyAsnRange) (\<lambda>asnRangeItem.
     let bgpConfig = empty_bgp\<lparr>ExternalConnection := value_of ifaceItem, Bridge := value_of brItem,
                               Asn := value_of asnItem\<rparr> in
     bind (case asnRangeItem of
         None \<Rightarrow> ret bgpConfig
       | Some i \<Rightarrow> on_err (wrapf ''failed to parse ASN range from cluster config: '')
                    (of_sum (FromMap bgpConfig [(''asn_range'', ci_value i)]))) (\<lambda>bgpConfig.
     EnableService E SrvBgp (Some (Some bgpConfig)))))))"

definition ovsBgpEnabledKey :: string where "ovsBgpEnabledKey = ''microovn-bgp-enabled''"
definition ovsBgpVrfKey :: string where "ovsBgpVrfKey = ''microovn-bgp-vrf''"
definition ovsBgpAsnKey :: string where "ovsBgpAsnKey = ''microovn-bgp-asn''"
definition ovsBgpAsnRangeKey :: string where "ovsBgpAsnRangeKey = ''microovn-bgp-asn-range''"

definition find_bridge_args :: "string \<Rightarrow> string \<Rightarrow> string list" where
  "find_bridge_args key val = [''--bare'', ''--columns'', ''name'', ''find'', ''bridge'',
     ''external-ids:'' @ key @ ''='' @ val]"

definition bridge_names :: "string \<Rightarrow> string list" where
  "bridge_names output = filter (\<lambda>l. l \<noteq> []) (map trim_space (split_on (CHR 0x0A) (trim_space output)))"

definition findBridgesByExternalID :: "env \<Rightarrow> string \<Rightarrow> string \<Rightarrow> string list io" where
  "findBridgesByExternalID E key val =
     bind (VSCtl E (find_bridge_args key val)) (\<lambda>output. ret (bridge_names output))"

text \<open>One external ID of a bridge.\<close>

definition bridge_id :: "env \<Rightarrow> string \<Rightarrow> string \<Rightarrow> string io" where
  "bridge_id E bridgeName key =
     on_err (wrapf (''failed to read '' @ key @ '' on bridge '' @ bridgeName @ '': ''))
       (VsctlGetIfExists E ''Bridge'' bridgeName ''external-ids'' key)"

definition bridge_config :: "env \<Rightarrow> string \<Rightarrow> ExtraBgpConfig io" where
  "bridge_config E bridgeName =
     bind (bridge_id E bridgeName ovsBgpVrfKey) (\<lambda>vrf.
     bind (bridge_id E bridgeName ovsBgpAsnKey) (\<lambda>asn.
     let bgpConfig = empty_bgp\<lparr>Bridge := bridgeName, Vrf := vrf\<rparr> in
     if asn \<noteq> [] then ret (bgpConfig\<lparr>Asn := asn\<rparr>)
     else
       bind (bridge_id E bridgeName ovsBgpAsnRangeKey) (\<lambda>asnRange.
       if asnRange \<noteq> [] then
         bind (on_err (wrapf (''invalid '' @ ovsBgpAsnRangeKey @ '' on bridge '' @ bridgeName @ '': ''))
           (of_sum (ParseAsnRange asnRange))) (\<lambda>parsed. ret (bgpConfig\<lparr>AsnRange := parsed\<rparr>))
       else ret bgpConfig)))"

definition enable_on_bridge :: "env \<Rightarrow> string \<Rightarrow> unit io" where
  "enable_on_bridge E bridgeName =
     bind (bridge_config E bridgeName) (\<lambda>bgpConfig.
     on_err (wrapf (''failed to enable BGP from OVS external IDs on bridge '' @ bridgeName @ '': ''))
       (EnableService E SrvBgp (Some (Some bgpConfig))))"

definition EnableBgpFromOVSExternalIDs :: "env \<Rightarrow> unit io" where
  "EnableBgpFromOVSExternalIDs E =
     bind (on_err (wrapf ''failed to check switch service status: '') (HasServiceActive E SrvSwitch)) (\<lambda>switchActive.
     if \<not> switchActive then ret ()
     else
       bind (on_err (wrapf ''failed to look up BGP-enabled OVS bridges: '')
         (findBridgesByExternalID E ovsBgpEnabledKey ''true'')) (\<lambda>bridgeNames.
       for_each (enable_on_bridge E) bridgeNames))"

section \<open>The set-up of the whole cluster\<close>

text \<open>The keys a request stores, in the order of the writes, with the message of a failing write.\<close>

definition setup_entries :: "SetupBgpRequest \<Rightarrow> ((string \<times> string) \<times> string) list" where
  "setup_entries req =
     [((BgpConfigKeyCluster, ''true''), ''failed to save BGP cluster config: '')] @
     [(if ExternalConnection req \<noteq> [] then (BgpConfigKeyInterface, ExternalConnection req)
       else (BgpConfigKeyBridge, Bridge req), ''failed to save BGP interface/bridge config: '')] @
     (if Asn req \<noteq> [] then [((BgpConfigKeyAsn, Asn req), ''failed to save BGP ASN config: '')] else []) @
     (if fst (AsnRange req) \<noteq> 0 \<or> snd (AsnRange req) \<noteq> 0
      then [((BgpConfigKeyAsnRange, show_range (AsnRange req)), ''failed to save BGP ASN range config: '')] else []) @
     (if ConnectionIP4Range req \<noteq> []
      then [((BgpConfigKeyConnectionIP4Range, ConnectionIP4Range req),
             ''failed to save BGP connection IP range config: '')] else [])"

fun save_entries :: "env \<Rightarrow> ((string \<times> string) \<times> string) list \<Rightarrow> 'a response io \<Rightarrow> 'a response io" where
  "save_entries E [] k = k"
| "save_entries E (((key, val), msg) # es) k =
     or_resp (\<lambda>e. InternalError (wrapf msg e)) (SetConfig E key val) (\<lambda>_. save_entries E es k)"

text \<open>The two queries to every member; each appends to a list of errors and never fails.\<close>

definition dec_exists :: "json \<Rightarrow> goerr + (string \<times> bool) list" where
  "dec_exists = dec_map dec_bool"

definition check_member :: "env \<Rightarrow> string \<Rightarrow> peer \<Rightarrow> string list \<Rightarrow> string list io" where
  "check_member E ifaceName c errs =
     bind (attempt (query E (p_url c) ''GET'' (''bgp/check-interface?name='' @ ifaceName) JNull dec_exists)) (\<lambda>r.
     ret (case r of
        Inl e \<Rightarrow> errs @ [p_url c @ '': failed to check interface: '' @ err_text e]
      | Inr result \<Rightarrow>
          if map_of (rev result) ''exists'' \<noteq> Some True
          then errs @ [p_url c @ '': interface/bridge '' @ squoted ifaceName @ '' not found''] else errs))"

definition empty_setup :: SetupBgpRequest where
  "empty_setup = \<lparr>ExternalConnection = [], Bridge = [], Vrf = [], Asn = [], AsnRange = (0, 0),
     ManualBgpdConfig = False, ConnectionIP4Range = []\<rparr>"

definition setup_member :: "env \<Rightarrow> peer \<Rightarrow> string list \<Rightarrow> string list io" where
  "setup_member E c errs =
     bind (attempt (c_SetupBgp E (p_url c) empty_setup)) (\<lambda>r.
     ret (case r of
        Inl e \<Rightarrow> errs @ [''node '' @ p_url c @ '': '' @ err_text e]
      | Inr result \<Rightarrow>
          if \<not> Setup_Success result
          then errs @ map (\<lambda>e. ''node '' @ p_url c @ '': '' @ e) (Setup_Errors result) else errs))"

definition setup_here :: "env \<Rightarrow> string list \<Rightarrow> SetupBgpResponse response io" where
  "setup_here E errs =
     bind (attempt (EnableBgpOnNodeFromClusterConfig E)) (\<lambda>r.
     let errs = (case r of Inl e \<Rightarrow> errs @ [''node '' @ e_name E @ '': '' @ err_text e] | Inr _ \<Rightarrow> errs) in
     ret (SyncResponse True
       (if errs \<noteq> []
        then \<lparr>Setup_Success = False,
              Setup_Message = ''BGP setup completed with '' @ show_nat (length errs) @ '' error(s)'', Setup_Errors = errs\<rparr>
        else \<lparr>Setup_Success = True, Setup_Message = ''BGP setup completed on all nodes'', Setup_Errors = errs\<rparr>)))"

definition setup_iface :: "SetupBgpRequest \<Rightarrow> string" where
  "setup_iface req = (if Bridge req \<noteq> [] then Bridge req else ExternalConnection req)"

definition setup_cluster :: "env \<Rightarrow> SetupBgpRequest \<Rightarrow> SetupBgpResponse response io" where
  "setup_cluster E req =
     or_resp (\<lambda>e. InternalError (wrapf ''failed to get cluster clients: '' e)) (peers E True) (\<lambda>cluster.
     bind (fold_io (check_member E (setup_iface req)) cluster []) (\<lambda>interfaceErrors.
     if interfaceErrors \<noteq> []
     then ret (SyncResponse False \<lparr>Setup_Success = False,
       Setup_Message = ''Interface/bridge check failed on some nodes'', Setup_Errors = interfaceErrors\<rparr>)
     else bind (fold_io (setup_member E) cluster []) (setup_here E)))"

definition setupBgpHandler :: "env \<Rightarrow> bool \<Rightarrow> goerr + json \<Rightarrow> SetupBgpResponse response io" where
  "setupBgpHandler E notification body =
     (if \<not> notification then
        (case decode dec_SetupBgpRequest body of
           Inl _ \<Rightarrow> ret (BadRequest (ErrS ''failed to decode request body''))
         | Inr req \<Rightarrow> check_resp BadRequest (SetupBgpRequest_Validate req)
             (save_entries E (setup_entries req) (setup_cluster E req)))
      else setup_here E [])"

section \<open>Frame lemmas\<close>

context trace_blind
begin

lemma keeps_interface [keeps_rules]: "keeps P (interfaceExists E n)" "keeps P (checkInterfaceHandler E n)"
  unfolding interfaceExists_def checkInterfaceHandler_def by (intro keeps_rules keeps_outside)+

lemma keeps_get_or_nil [keeps_rules]: "keeps P (get_or_nil E k)"
  unfolding get_or_nil_def by (intro keeps_rules keeps_GetConfig)

lemma keeps_bgp_reads [keeps_rules]:
  "keeps P (CheckBgpInterfaceFromClusterConfig E)" "keeps P (findBridgesByExternalID E k v)"
  "keeps P (bridge_config E b)" "keeps P (check_member E i c errs)" "keeps P (setup_member E c errs)"
proof -
  have b: "keeps P (bridge_id E b k)" for b k
    unfolding bridge_id_def VsctlGetIfExists_def Let_def by (intro keeps_rules keeps_ctl)
  show "keeps P (CheckBgpInterfaceFromClusterConfig E)" "keeps P (findBridgesByExternalID E k v)"
    "keeps P (bridge_config E b)" "keeps P (check_member E i c errs)" "keeps P (setup_member E c errs)"
    unfolding CheckBgpInterfaceFromClusterConfig_def findBridgesByExternalID_def bridge_config_def Let_def
      check_member_def setup_member_def
    by (intro keeps_rules keeps_get_or_nil keeps_interface keeps_ctl b keeps_query keeps_client)+
qed

end

lemma np_bgp_api [np_rules]:
  "no_panic (interfaceExists E n)" "no_panic (checkInterfaceHandler E n)" "no_panic (get_or_nil E k)"
  "no_panic (CheckBgpInterfaceFromClusterConfig E)" "no_panic (EnableBgpOnNodeFromClusterConfig E)"
  "no_panic (findBridgesByExternalID E k v)" "no_panic (bridge_config E b)" "no_panic (enable_on_bridge E b)"
  "no_panic (EnableBgpFromOVSExternalIDs E)"
proof -
  show i: "no_panic (interfaceExists E n)" "no_panic (checkInterfaceHandler E n)" for n
    unfolding interfaceExists_def checkInterfaceHandler_def by (intro np_rules)+
  show g: "no_panic (get_or_nil E k)" for k unfolding get_or_nil_def by (intro np_rules)
  show "no_panic (CheckBgpInterfaceFromClusterConfig E)" "no_panic (EnableBgpOnNodeFromClusterConfig E)"
    "no_panic (findBridgesByExternalID E k v)"
    unfolding CheckBgpInterfaceFromClusterConfig_def EnableBgpOnNodeFromClusterConfig_def
      findBridgesByExternalID_def Let_def
    by (intro np_rules g i)+
  show b: "no_panic (bridge_config E b)" for b
    unfolding bridge_config_def bridge_id_def VsctlGetIfExists_def Let_def by (intro np_rules)
  show e: "no_panic (enable_on_bridge E b)" for b
    unfolding enable_on_bridge_def by (intro np_rules b)
  show "no_panic (EnableBgpFromOVSExternalIDs E)"
    unfolding EnableBgpFromOVSExternalIDs_def findBridgesByExternalID_def by (intro np_rules e)
qed

text \<open>What enabling BGP keeps, whatever the outcome.\<close>

lemma keeps_enable_bgp:
  "keeps (\<lambda>w. db_ok (w_db w)) (EnableBgpOnNodeFromClusterConfig E)"
  "keeps (\<lambda>w. configs (w_db w) = cs) (EnableBgpOnNodeFromClusterConfig E)"
  "keeps (\<lambda>w. db_ok (w_db w)) (EnableBgpFromOVSExternalIDs E)"
  "keeps (\<lambda>w. configs (w_db w) = cs) (EnableBgpFromOVSExternalIDs E)"
  unfolding EnableBgpOnNodeFromClusterConfig_def EnableBgpFromOVSExternalIDs_def enable_on_bridge_def Let_def
  by (intro keeps_rules invv.keeps_GetConfig invv.keeps_get_or_nil invv.keeps_bgp_reads invv.keeps_node_reads
      keeps_services_ok keeps_services_configs)+

section \<open>Enabling BGP on one member\<close>

lemma enable_on_bridge_Ok:
  assumes ok: "db_ok (w_db w)" and call: "enable_on_bridge E b w = (Ok u, w')"
  shows "(e_name E, SrvBgp) \<notin> abs_services (w_db w) \<and> db_ok (w_db w') \<and>
         abs_services (w_db w') = insert (e_name E, SrvBgp) (abs_services (w_db w))"
proof -
  obtain c w1 where c: "bridge_config E b w = (Ok c, w1)"
    and e: "EnableService E SrvBgp (Some (Some c)) w1 = (Ok u, w')"
    using call unfolding enable_on_bridge_def by (elim bind_OkE on_err_OkE)
  have w1: "w_db w1 = w_db w" by (rule keepsD [OF dbv.keeps_bgp_reads(3) refl c])
  with ok have "db_ok (w_db w1)" by simp
  from mgr.enable_ok [OF this e] mgr.enable_inv [OF this e] w1 show ?thesis by auto
qed

lemma EnableBgpOnNode_Ok:
  assumes ok: "db_ok (w_db w)" and call: "EnableBgpOnNodeFromClusterConfig E w = (Ok u, w')"
  shows "(e_name E, SrvBgp) \<notin> abs_services (w_db w) \<and>
         abs_services (w_db w') = insert (e_name E, SrvBgp) (abs_services (w_db w))"
proof -
  obtain c w1 where w1: "w_db w1 = w_db w" and e: "EnableService E SrvBgp (Some (Some c)) w1 = (Ok u, w')"
  proof -
    obtain i w2 b w3 a w4 g w5 c w6 where
      "GetConfig E BgpConfigKeyInterface w = (Ok i, w2)" "GetConfig E BgpConfigKeyBridge w2 = (Ok b, w3)"
      "get_or_nil E BgpConfigKeyAsn w3 = (Ok a, w4)" "get_or_nil E BgpConfigKeyAsnRange w4 = (Ok g, w5)"
      and c: "(case g of None \<Rightarrow> ret (empty_bgp\<lparr>ExternalConnection := value_of i, Bridge := value_of b, Asn := value_of a\<rparr>)
        | Some x \<Rightarrow> on_err (wrapf ''failed to parse ASN range from cluster config: '')
           (of_sum (FromMap (empty_bgp\<lparr>ExternalConnection := value_of i, Bridge := value_of b, Asn := value_of a\<rparr>)
              [(''asn_range'', ci_value x)]))) w5 = (Ok c, w6)"
      and e: "EnableService E SrvBgp (Some (Some c)) w6 = (Ok u, w')"
      using call unfolding EnableBgpOnNodeFromClusterConfig_def Let_def by (elim bind_OkE on_err_OkE)
    then have "w_db w2 = w_db w" "w_db w3 = w_db w2" "w_db w4 = w_db w3" "w_db w5 = w_db w4"
      by (auto intro: keepsD [OF dbv.keeps_GetConfig refl] keepsD [OF dbv.keeps_get_or_nil refl])
    moreover have "w6 = w5" using c
      by (auto elim!: on_err_OkE simp: of_sum_def split: option.splits sum.splits)
    ultimately show ?thesis using that [of w6 c] e by simp
  qed
  from ok w1 have "db_ok (w_db w1)" by simp
  from mgr.enable_ok [OF this e] w1 show ?thesis by simp
qed

lemma retried_Ok: "retried E argv w (Ok out) w' \<Longrightarrow> \<exists>tr. e_cmd E tr argv = Inr out"
proof -
  assume "retried E argv w (Ok out) w'"
  then obtain k where "case e_cmd E (replicate k (Cmd argv) @ w_trace w) argv of
      Inr out' \<Rightarrow> Ok out = Ok out' | Inl e \<Rightarrow> k = 2 \<and> Ok out = Er e"
    unfolding retried_def Let_def by blast
  then show ?thesis by (auto split: sum.splits)
qed

lemma findBridges_Ok:
  assumes "findBridgesByExternalID E k v w = (Ok names, w')"
  shows "\<exists>tr out. e_cmd E tr (''ovs-vsctl'' # default_timeout (find_bridge_args k v)) = Inr out \<and>
           names = bridge_names out"
proof -
  obtain out where o: "VSCtl E (find_bridge_args k v) w = (Ok out, w')" and n: "names = bridge_names out"
    using assms unfolding findBridgesByExternalID_def by (auto elim: bind_OkE)
  have "VSCtl E (find_bridge_args k v) w =
      andthen (wait_connected E OvsdbTypeSwitchLocal) (try3 E (''ovs-vsctl'' # default_timeout (find_bridge_args k v))) w"
    using vs.ctl_unfold by metis
  with o obtain u w1 where "try3 E (''ovs-vsctl'' # default_timeout (find_bridge_args k v)) w1 = (Ok out, w')"
    by (auto elim: andthen_OkE)
  from retried_Ok [OF try3_retried [OF this]] n show ?thesis by blast
qed

section \<open>Storing the request\<close>

lemma map_add_first: "m ++ (Map.empty(k \<mapsto> v) ++ n) = m(k \<mapsto> v) ++ n"
  by (rule ext) (simp add: map_add_def split: option.splits)

lemma save_entries_stored:
  assumes "db_ok (w_db w)" and "save_entries E es k w = (Ok resp, w')" and "\<forall>e. resp \<noteq> InternalError e"
  shows "\<exists>w1. db_ok (w_db w1) \<and> abs_config (w_db w1) = abs_config (w_db w) ++ map_of (rev (map fst es)) \<and>
     k w1 = (Ok resp, w')"
  using assms
proof (induction es arbitrary: w)
  case (Cons e es)
  obtain key val msg where e: "e = ((key, val), msg)" by (metis prod.collapse)
  with Cons.prems obtain w1 where s: "SetConfig E key val w = (Ok (), w1)"
    and r: "save_entries E es k w1 = (Ok resp, w')" by (auto elim: or_resp_OkE)
  from Cons.IH [OF cfg.set_inv [OF Cons.prems(1) s] r Cons.prems(3)] obtain w2 where
    "db_ok (w_db w2)" "abs_config (w_db w2) = abs_config (w_db w1) ++ map_of (rev (map fst es))" "k w2 = (Ok resp, w')"
    by blast
  with cfg.set_ok [OF Cons.prems(1) s] e show ?case
    by (intro exI [of _ w2]) (simp add: map_add_first)
qed auto

lemma EnableBgpFromOVSExternalIDs_Ok:
  assumes ok: "db_ok (w_db w)" and call: "EnableBgpFromOVSExternalIDs E w = (Ok (), w')"
  shows "(e_name E, SrvSwitch) \<notin> abs_services (w_db w) \<and> w_db w' = w_db w \<or>
    (\<exists>tr out. e_cmd E tr (''ovs-vsctl'' # default_timeout (find_bridge_args ovsBgpEnabledKey ''true'')) = Inr out \<and>
      (bridge_names out = [] \<and> w_db w' = w_db w \<or>
       (\<exists>b. bridge_names out = [b]) \<and> (e_name E, SrvBgp) \<notin> abs_services (w_db w) \<and>
       abs_services (w_db w') = insert (e_name E, SrvBgp) (abs_services (w_db w))))"
proof -
  obtain active w1 where h: "HasServiceActive E SrvSwitch w = (Ok active, w1)"
    and rest: "(if \<not> active then ret () else
       bind (on_err (wrapf ''failed to look up BGP-enabled OVS bridges: '')
         (findBridgesByExternalID E ovsBgpEnabledKey ''true'')) (\<lambda>names. for_each (enable_on_bridge E) names)) w1 = (Ok (), w')"
    using call unfolding EnableBgpFromOVSExternalIDs_def by (elim bind_OkE on_err_OkE)
  from HasServiceActive_Ok [OF h] have a: "active \<longleftrightarrow> (e_name E, SrvSwitch) \<in> abs_services (w_db w)"
    and w1: "w_db w1 = w_db w" by simp_all
  show ?thesis
  proof (cases active)
    case False
    with rest a w1 show ?thesis by simp
  next
    case True
    with rest obtain names w2 where f: "findBridgesByExternalID E ovsBgpEnabledKey ''true'' w1 = (Ok names, w2)"
      and l: "for_each (enable_on_bridge E) names w2 = (Ok (), w')" by (auto elim!: bind_OkE on_err_OkE)
    have w2: "w_db w2 = w_db w" using keepsD [OF dbv.keeps_bgp_reads(2) refl f] w1 by simp
    from findBridges_Ok [OF f] obtain tr out where
      out: "e_cmd E tr (''ovs-vsctl'' # default_timeout (find_bridge_args ovsBgpEnabledKey ''true'')) = Inr out"
      "names = bridge_names out" by blast
    have "names = [] \<and> w_db w' = w_db w \<or> (\<exists>b. names = [b]) \<and> (e_name E, SrvBgp) \<notin> abs_services (w_db w) \<and>
        abs_services (w_db w') = insert (e_name E, SrvBgp) (abs_services (w_db w))"
    proof (cases names)
      case Nil
      with l w2 show ?thesis by simp
    next
      case (Cons b bs)
      with l obtain u w3 where e: "enable_on_bridge E b w2 = (Ok u, w3)"
        and m: "for_each (enable_on_bridge E) bs w3 = (Ok (), w')" by (auto elim: andthen_OkE)
      have "db_ok (w_db w2)" using ok w2 by simp
      note first = enable_on_bridge_Ok [OF this e]
      have "bs = []"
      proof (rule ccontr)
        assume "bs \<noteq> []"
        with m obtain b2 u2 w4 where "enable_on_bridge E b2 w3 = (Ok u2, w4)"
          by (cases bs) (auto elim: andthen_OkE)
        from enable_on_bridge_Ok [OF _ this] first show False by simp
      qed
      with m Cons first w2 show ?thesis by simp
    qed
    with out show ?thesis by blast
  qed
qed

lemma keeps_setup_here:
  "keeps (\<lambda>w. db_ok (w_db w)) (setup_here E errs)" "keeps (\<lambda>w. configs (w_db w) = cs) (setup_here E errs)"
  unfolding setup_here_def Let_def by (intro keeps_rules keeps_enable_bgp)+

lemma keeps_setup_cluster:
  "keeps (\<lambda>w. db_ok (w_db w)) (setup_cluster E req)" "keeps (\<lambda>w. configs (w_db w) = cs) (setup_cluster E req)"
  unfolding setup_cluster_def by (intro keeps_rules keeps_setup_here invv.keeps_bgp_reads)+

lemma abs_config_configs: "configs d = configs d' \<Longrightarrow> abs_config d = abs_config d'"
  by (simp add: abs_config_def)

lemma bridge_shadows:
  assumes "ParseBridge c \<noteq> []"
  shows "EnableBgp E (Some (c\<lparr>ExternalConnection := x\<rparr>)) = EnableBgp E (Some c)"
proof -
  let ?d = "c\<lparr>ExternalConnection := x\<rparr>"
  have b: "ParseBridge ?d = ParseBridge c" by (simp add: ParseBridge_def)
  from this assms have v: "Validate ?d = Validate c" by (simp add: Validate_def)
  have sel: "Vrf ?d = Vrf c" "Asn ?d = Asn c" "AsnRange ?d = AsnRange c" "ManualBgpdConfig ?d = ManualBgpdConfig c"
    by simp_all
  show ?thesis unfolding EnableBgp_def option.case sel b v using assms by (simp only: if_False)
qed

section \<open>Properties\<close>

text \<open>When BGP is enabled from the external IDs of the bridges with success, the switch is not enabled or
  no bridge asks for BGP and nothing changed, or exactly one bridge asks for it and the service of the
  member was added: with two or more such bridges the call cannot succeed.\<close>

theorem EnableBgpFromOVSExternalIDs_one_bridge:
  assumes ok: "db_ok (w_db w)" and call: "EnableBgpFromOVSExternalIDs E w = (Ok (), w')"
  shows "(e_name E, SrvSwitch) \<notin> abs_services (w_db w) \<and> w_db w' = w_db w \<or>
    (\<exists>tr out. e_cmd E tr (''ovs-vsctl'' # default_timeout (find_bridge_args ovsBgpEnabledKey ''true'')) = Inr out \<and>
      (bridge_names out = [] \<and> w_db w' = w_db w \<or>
       (\<exists>b. bridge_names out = [b]) \<and> (e_name E, SrvBgp) \<notin> abs_services (w_db w) \<and>
       abs_services (w_db w') = insert (e_name E, SrvBgp) (abs_services (w_db w))))"
  by (rule EnableBgpFromOVSExternalIDs_Ok [OF ok call])

lemma setup_cluster_success:
  assumes "db_ok (w_db w)" and "setup_cluster E req w = (Ok (SyncResponse ok r), w')" and "Setup_Success r"
  shows "(e_name E, SrvBgp) \<in> abs_services (w_db w')"
proof -
  obtain errs w1 where w1: "db_ok (w_db w1)" and h: "setup_here E errs w1 = (Ok (SyncResponse ok r), w')"
  proof -
    obtain cs w2 es w3 where p: "peers E True w = (Ok cs, w2)"
      and c: "fold_io (check_member E (setup_iface req)) cs [] w2 = (Ok es, w3)"
      and k: "(if es \<noteq> [] then ret (SyncResponse False \<lparr>Setup_Success = False,
           Setup_Message = ''Interface/bridge check failed on some nodes'', Setup_Errors = es\<rparr>)
         else bind (fold_io (setup_member E) cs []) (setup_here E)) w3 = (Ok (SyncResponse ok r), w')"
      using assms(2) unfolding setup_cluster_def by (elim or_resp_OkE bind_OkE) simp_all
    have "es = []" using k assms(3) by (auto split: if_splits)
    with k obtain fs w4 where m: "fold_io (setup_member E) cs [] w3 = (Ok fs, w4)"
      and h: "setup_here E fs w4 = (Ok (SyncResponse ok r), w')" by (auto elim: bind_OkE)
    have "keeps (\<lambda>w. db_ok (w_db w)) (peers E True)"
      "keeps (\<lambda>w. db_ok (w_db w)) (fold_io (check_member E (setup_iface req)) cs [])"
      "keeps (\<lambda>w. db_ok (w_db w)) (fold_io (setup_member E) cs [])"
      by (intro keeps_rules invv.keeps_bgp_reads)+
    from keepsD [OF this(3) keepsD [OF this(2) keepsD [OF this(1) assms(1) p] c] m] h show ?thesis by (rule that)
  qed
  then obtain w2 where "EnableBgpOnNodeFromClusterConfig E w1 = (Ok (), w2)" "w' = w2"
    using assms(3) unfolding setup_here_def Let_def
    by (auto elim!: bind_OkE attempt_OkE split: sum.splits if_splits)
  with EnableBgpOnNode_Ok [OF w1] show ?thesis by auto
qed

lemma override_if:
  "(case if b then Some x else m of None \<Rightarrow> d | Some y \<Rightarrow> Some y) =
     (if b then Some x else case m of None \<Rightarrow> d | Some y \<Rightarrow> Some y)"
  by simp

lemma map_of_last_if:
  "map_of (rev (xs @ (if b then [(key, v)] else []))) k = (if k = key \<and> b then Some v else map_of (rev xs) k)"
  "map_of (rev (xs @ [if b then (key, v) else (key', v')])) k =
     (if k = key \<and> b then Some v else if k = key' \<and> \<not> b then Some v' else map_of (rev xs) k)"
  "map_of (rev [(key, v)]) k = (if k = key then Some v else None)"
  by simp_all

lemma setup_entries_lookup:
  "map_of (rev (map fst (setup_entries req))) k =
     (if k = BgpConfigKeyConnectionIP4Range \<and> ConnectionIP4Range req \<noteq> [] then Some (ConnectionIP4Range req)
      else if k = BgpConfigKeyAsnRange \<and> AsnRange req \<noteq> (0, 0)
      then Some (show_nat (unat (fst (AsnRange req))) @ ''-'' @ show_nat (unat (snd (AsnRange req))))
      else if k = BgpConfigKeyAsn \<and> Asn req \<noteq> [] then Some (Asn req)
      else if k = BgpConfigKeyInterface \<and> ExternalConnection req \<noteq> [] then Some (ExternalConnection req)
      else if k = BgpConfigKeyBridge \<and> \<not> ExternalConnection req \<noteq> [] then Some (Bridge req)
      else if k = BgpConfigKeyCluster then Some ''true'' else None)"
proof -
  have "fst (AsnRange req) \<noteq> 0 \<or> snd (AsnRange req) \<noteq> 0 \<longleftrightarrow> AsnRange req \<noteq> (0, 0)"
    by (cases "AsnRange req") auto
  then have "map fst (setup_entries req) = ((([(BgpConfigKeyCluster, ''true'')] @
      [if ExternalConnection req \<noteq> [] then (BgpConfigKeyInterface, ExternalConnection req)
       else (BgpConfigKeyBridge, Bridge req)]) @
      (if Asn req \<noteq> [] then [(BgpConfigKeyAsn, Asn req)] else [])) @
      (if AsnRange req \<noteq> (0, 0) then [(BgpConfigKeyAsnRange, show_range (AsnRange req))] else [])) @
      (if ConnectionIP4Range req \<noteq> [] then [(BgpConfigKeyConnectionIP4Range, ConnectionIP4Range req)] else [])"
    by (simp add: setup_entries_def)
  then show ?thesis
    by (simp only: map_of_last_if show_range_def)
qed

text \<open>C36: a valid set-up request that is not answered with an internal error is stored over the former
  configuration, also when the check of the interfaces then fails: that there is a set-up, the interface, or else the bridge, under its own key, and the AS number, the range of AS numbers
  and the range of addresses when the request gives them; every other option keeps its former value. An
  answer that reports a success was given by a member that now runs the service.\<close>

theorem setup_stores_request:
  assumes ok: "db_ok (w_db w)" and body: "dec_SetupBgpRequest j = Inr req" "SetupBgpRequest_Validate req = None"
    and call: "setupBgpHandler E False (Inr j) w = (Ok resp, w')" and good: "\<forall>e. resp \<noteq> InternalError e"
  shows "db_ok (w_db w') \<and>
    abs_config (w_db w') = (\<lambda>k.
      if k = ''microovn-bgp-arg-connection-ip4-range'' \<and> ConnectionIP4Range req \<noteq> [] then Some (ConnectionIP4Range req)
      else if k = ''microovn-bgp-arg-asn_range'' \<and> AsnRange req \<noteq> (0, 0)
      then Some (show_nat (unat (fst (AsnRange req))) @ ''-'' @ show_nat (unat (snd (AsnRange req))))
      else if k = ''microovn-bgp-arg-asn'' \<and> Asn req \<noteq> [] then Some (Asn req)
      else if k = ''microovn-bgp-arg-interface'' \<and> ExternalConnection req \<noteq> [] then Some (ExternalConnection req)
      else if k = ''microovn-bgp-arg-br'' \<and> \<not> ExternalConnection req \<noteq> [] then Some (Bridge req)
      else if k = ''microovn-bgp-cluster'' then Some ''true''
      else abs_config (w_db w) k) \<and>
    (\<forall>ok r. resp = SyncResponse ok r \<longrightarrow> Setup_Success r \<longrightarrow> (e_name E, ''bgp'') \<in> abs_services (w_db w'))"
    (is "_ \<and> _ = ?new \<and> _")
proof (intro conjI)
  from call body have "save_entries E (setup_entries req) (setup_cluster E req) w = (Ok resp, w')"
    by (simp add: setupBgpHandler_def decode_def check_resp_def)
  from save_entries_stored [OF ok this good] obtain w1 where ok1: "db_ok (w_db w1)"
    and c: "abs_config (w_db w1) = abs_config (w_db w) ++ map_of (rev (map fst (setup_entries req)))"
    and k: "setup_cluster E req w1 = (Ok resp, w')" by blast
  show "db_ok (w_db w')" by (rule keepsD [OF keeps_setup_cluster(1) ok1 k])
  have "abs_config (w_db w') = abs_config (w_db w1)"
    by (rule abs_config_configs) (rule keepsD [OF keeps_setup_cluster(2) refl k])
  also have "\<dots> = (\<lambda>k. case map_of (rev (map fst (setup_entries req))) k of
      None \<Rightarrow> abs_config (w_db w) k | Some v \<Rightarrow> Some v)"
    unfolding c map_add_def ..
  also have "\<dots> = ?new"
    by (simp only: setup_entries_lookup override_if option.case bgp_key_defs)
  finally show "abs_config (w_db w') = ?new" .
  show "\<forall>ok r. resp = SyncResponse ok r \<longrightarrow> Setup_Success r \<longrightarrow> (e_name E, ''bgp'') \<in> abs_services (w_db w')"
    using setup_cluster_success [OF ok1] k by (auto simp: srv_defs)
qed

text \<open>A stored bridge always decides: when the configuration holds a bridge, enabling BGP on a member is the
  same whatever interface is stored, so a later set-up with an interface has no effect.\<close>

theorem stored_bridge_wins:
  assumes reads: "GetConfig E BgpConfigKeyInterface w = (Ok ifaceItem, w1)" "GetConfig E BgpConfigKeyBridge w1 = (Ok (Some br), w2)"
    "get_or_nil E BgpConfigKeyAsn w2 = (Ok asnItem, w3)" "get_or_nil E BgpConfigKeyAsnRange w3 = (Ok None, w4)"
    and bridge: "ParseBridge (empty_bgp\<lparr>Bridge := ci_value br\<rparr>) \<noteq> []"
  shows "EnableBgpOnNodeFromClusterConfig E w = EnableService E SrvBgp (Some (Some
    (empty_bgp\<lparr>ExternalConnection := x, Bridge := ci_value br, Asn := value_of asnItem\<rparr>))) w4"
proof -
  let ?c = "\<lambda>i. empty_bgp\<lparr>ExternalConnection := i, Bridge := ci_value br, Asn := value_of asnItem\<rparr>"
  have "ParseBridge (?c []) \<noteq> []" using bridge by (simp add: ParseBridge_def)
  from bridge_shadows [OF this, of E i for i] have "EnableBgp E (Some (?c i)) = EnableBgp E (Some (?c []))" for i
    by (simp add: empty_bgp_def)
  then have "EnableBgp E (Some (?c i)) = EnableBgp E (Some (?c x))" for i by metis
  then have eq: "start_service E SrvBgp (Some (Some (?c i))) = start_service E SrvBgp (Some (Some (?c x)))" for i
    by (simp add: start_service_def)
  have "EnableService E SrvBgp (Some (Some (?c i))) = EnableService E SrvBgp (Some (Some (?c x)))" for i
    unfolding EnableService_def start_or_rollback_def eq [of i] by (rule refl)
  moreover have "EnableBgpOnNodeFromClusterConfig E w = EnableService E SrvBgp (Some (Some (?c (value_of ifaceItem)))) w4"
    using reads by (simp add: EnableBgpOnNodeFromClusterConfig_def seq bind_def [of "get_or_nil E k" for k]
        value_of_def [of "Some br"] Let_def)
  ultimately show ?thesis by metis
qed

section \<open>The properties at a concrete input\<close>

lemmas bgp_api_evals [evals] = EnableBgpFromOVSExternalIDs_def setupBgpHandler_def decode_def setup_cluster_def
  EnableBgpOnNodeFromClusterConfig_def get_or_nil_def value_of_def setup_entries_def

text \<open>A request for one interface, and a cluster in which a bridge was set up before.\<close>

definition iface_request :: SetupBgpRequest where
  "iface_request = empty_setup\<lparr>ExternalConnection := ''eth1''\<rparr>"

definition world_with_bridge :: world where
  "world_with_bridge = sample_world\<lparr>w_db := sample_db\<lparr>configs :=
     [\<lparr>cr_id = 1, cr_key = BgpConfigKeyBridge, cr_value = ''br0''\<rparr>], next_config := 2\<rparr>\<rparr>"

text \<open>A member with the switch service on which no bridge is marked.\<close>

definition world_with_switch :: world where
  "world_with_switch = sample_world\<lparr>w_db := sample_db\<lparr>services :=
     [\<lparr>sr_id = 1, sr_member = 1, sr_service = SrvSwitch\<rparr>], next_service := 2\<rparr>\<rparr>"

theorem EnableBgpFromOVSExternalIDs_witness:
  "w_db (snd (EnableBgpFromOVSExternalIDs sample_env world_with_switch)) = w_db world_with_switch"
proof -
  let ?c = "EnableBgpFromOVSExternalIDs sample_env world_with_switch"
  have ok: "db_ok (w_db world_with_switch)"
    by (simp add: world_with_switch_def sample_db_def db_ok_def members_keys_def services_schema_def config_schema_def)
  have "fst ?c = Ok ()"
    by (simp add: evals world_with_switch_def findBridgesByExternalID_def bridge_names_def trim_by_def VSCtl_def
        WaitForDBState_def NewOvsdbSpec_def find_bridge_args_def default_timeout_def try3_def numeral_3_eq_3)
  then have "?c = (Ok (), snd ?c)" by (metis prod.collapse)
  note EnableBgpFromOVSExternalIDs_one_bridge [OF ok this]
  moreover have "(''n1'', SrvSwitch) \<in> abs_services (w_db world_with_switch)"
    by (simp add: world_with_switch_def sample_db_def abs_services_def)
  moreover have "bridge_names [] = []" by (simp add: bridge_names_def trim_by_def)
  ultimately show ?thesis by (auto simp: sample_env_def)
qed

definition two_member_env :: env where
  "two_member_env = sample_env\<lparr>e_peers := (\<lambda>t n. Inr [\<lparr>p_url = ''u2'', p_host = ''h2'', p_port = ''1''\<rparr>])\<rparr>"

theorem setup_stores_request_witness:
  "abs_config (w_db (snd (setupBgpHandler two_member_env False (Inr (enc_SetupBgpRequest iface_request)) sample_world)))
     ''microovn-bgp-arg-interface'' = Some ''eth1''"
proof -
  let ?c = "setupBgpHandler two_member_env False (Inr (enc_SetupBgpRequest iface_request)) sample_world"
  have d: "dec_SetupBgpRequest (enc_SetupBgpRequest iface_request) = Inr iface_request" by (simp add: setup_wire.roundtrip)
  have v: "SetupBgpRequest_Validate iface_request = None"
    by (simp add: SetupBgpRequest_Validate_def iface_request_def empty_setup_def)
  have e: "setup_entries iface_request = [((BgpConfigKeyCluster, ''true''), ''failed to save BGP cluster config: ''),
      ((BgpConfigKeyInterface, ''eth1''), ''failed to save BGP interface/bridge config: '')]"
    by (simp add: setup_entries_def iface_request_def empty_setup_def)
  have "\<exists>r. fst ?c = Ok (SyncResponse False r)"
    by (simp add: setupBgpHandler_def decode_def d v e check_resp_def seq two_member_env_def)
       (simp add: evals bgp_key_defs check_member_def query_def dec_exists_def dec_map_def)
  then obtain r where "?c = (Ok (SyncResponse False r), snd ?c)" by (metis prod.collapse)
  from setup_stores_request [OF db_ok_sample(1) d v this] show ?thesis
    by (simp add: iface_request_def empty_setup_def)
qed

theorem stored_bridge_wins_witness:
  "\<exists>w4. EnableBgpOnNodeFromClusterConfig sample_env world_with_bridge = EnableService sample_env SrvBgp (Some (Some
    (empty_bgp\<lparr>ExternalConnection := ''eth1'', Bridge := ''br0'', Asn := []\<rparr>))) w4"
proof -
  let ?E = sample_env and ?w = world_with_bridge
  let ?g1 = "GetConfig ?E BgpConfigKeyInterface ?w"
  let ?g2 = "GetConfig ?E BgpConfigKeyBridge (snd ?g1)"
  let ?g3 = "get_or_nil ?E BgpConfigKeyAsn (snd ?g2)"
  let ?g4 = "get_or_nil ?E BgpConfigKeyAsnRange (snd ?g3)"
  have "fst ?g1 = Ok None" by (simp add: evals world_with_bridge_def bgp_key_defs)
  then have 1: "?g1 = (Ok None, snd ?g1)" by (metis prod.collapse)
  have "fst ?g2 = Ok (Some \<lparr>ci_id = 1, ci_key = BgpConfigKeyBridge, ci_value = ''br0''\<rparr>)"
    by (simp add: evals world_with_bridge_def bgp_key_defs)
  then have 2: "?g2 = (Ok (Some \<lparr>ci_id = 1, ci_key = BgpConfigKeyBridge, ci_value = ''br0''\<rparr>), snd ?g2)"
    by (metis prod.collapse)
  have "fst ?g3 = Ok None" by (simp add: evals world_with_bridge_def bgp_key_defs)
  then have 3: "?g3 = (Ok None, snd ?g3)" by (metis prod.collapse)
  have "fst ?g4 = Ok None" by (simp add: evals world_with_bridge_def bgp_key_defs)
  then have 4: "?g4 = (Ok None, snd ?g4)" by (metis prod.collapse)
  show ?thesis
    using stored_bridge_wins [OF 1 2 3 4, of "''eth1''"]
    by (auto simp: ParseBridge_def trim_by_def is_space_def value_of_def)
qed

end
