(* ===== verification/Upgrade.thy ===== *)
theory Upgrade
  imports CommandLog
begin

text \<open>
  Package \<open>ovsdb\<close> (ovn/ovsdb/ovsdb.go): the coordinated upgrade of the schema of a clustered database.
  Every member with the central service runs the loop of \<open>UpgradeCentralDB\<close>; one of them, the leader,
  converts the database once every member ships the expected schema. The loop may run forever, so it
  is a partial function: not returning is \<open>None\<close>.
\<close>

definition backOffMsInitial :: nat where "backOffMsInitial = 100"
definition backOffMsMax :: nat where "backOffMsMax = 2000"
definition backOffMultiplier :: nat where "backOffMultiplier = 2"

lemmas back_off_defs = backOffMsInitial_def backOffMsMax_def backOffMultiplier_def

record schemaStatus =
  LocalVersion :: string
  TargetVersion :: string
  UpgradeRequired :: bool

section \<open>Versions\<close>

definition ExpectedOvsdbSchemaVersion :: "env \<Rightarrow> OvsdbSpec \<Rightarrow> string io" where
  "ExpectedOvsdbSchemaVersion E dbSpec =
     bind (on_err (\<lambda>e. ErrS (''failed to get DB schema version from file '' @ squoted (Schema dbSpec) @ '': '' @
                             squoted (err_text e)))
       (run_cmd E [''ovsdb-tool'', ''schema-version'', Schema dbSpec])) (\<lambda>v. ret (trim_space v))"

definition compare_cmd :: "string \<Rightarrow> string \<Rightarrow> string list" where
  "compare_cmd localV targetV = [''ovsdb-tool'', ''compare-versions'', localV, ''=='', targetV]"

definition getLiveSchemaStatus :: "env \<Rightarrow> OvsdbSpec \<Rightarrow> schemaStatus io" where
  "getLiveSchemaStatus E dbSpec =
     bind (on_err (\<lambda>e. ErrS (''failed to get local DB schema version: '' @ squoted (err_text e)))
       (OvsdbClient E dbSpec 10 5 [''get-schema-version'', SocketURL dbSpec, DbName dbSpec])) (\<lambda>out.
     let localDbVersion = trim_space out in
     bind (on_err (\<lambda>e. ErrS (''failed to get expected DB schema version: '' @ squoted (err_text e)))
       (ExpectedOvsdbSchemaVersion E dbSpec)) (\<lambda>targetDbVersion.
     bind (attempt (run_cmd E (compare_cmd localDbVersion targetDbVersion))) (\<lambda>cmp.
     ret \<lparr>LocalVersion = localDbVersion, TargetVersion = targetDbVersion,
          UpgradeRequired = (case cmp of Inl _ \<Rightarrow> True | Inr _ \<Rightarrow> False)\<rparr>)))"

section \<open>The leader\<close>

definition isNodeUpgradeLeader :: "env \<Rightarrow> bool io" where
  "isNodeUpgradeLeader E =
     bind (on_err (\<lambda>e. ErrS (''failed to determine which member is OVSDB cluster upgrade leader: '' @
                             squoted (err_text e)))
       (FindService E ''central'')) (\<lambda>membersWithCentral.
     case sort_key m_id membersWithCentral of
       [] \<Rightarrow> panic ''index out of range [0] with length 0''
     | upgradeLeader # _ \<Rightarrow> ret (e_name E = m_name upgradeLeader))"

text \<open>The request to one member: its answer is recorded under its URL, or the query fails.\<close>

definition ask_version :: "env \<Rightarrow> OvsdbSpec \<Rightarrow> peer \<Rightarrow> goerr option \<times> (string \<times> string) list \<Rightarrow>
    (goerr option \<times> (string \<times> string) list) io" where
  "ask_version E dbSpec c s =
     bind (c_GetExpectedOvsdbSchemaVersion E (p_url c) dbSpec) (\<lambda>(result, errType).
     if errType \<noteq> SchemaErrorNone
     then ret (case fst s of None \<Rightarrow> Some (ErrS (''failed to contact '' @ p_url c)) | Some e \<Rightarrow> Some e, snd s)
     else ret (fst s, AList.update (p_url c) result (snd s)))"

definition isClusterUpgradeReady :: "env \<Rightarrow> OvsdbSpec \<Rightarrow> string \<Rightarrow> bool io" where
  "isClusterUpgradeReady E dbSpec targetVersion =
     bind (on_err (wrapf ''failed to get a client for every cluster member: '') (peers E False)) (\<lambda>clusterClient.
     bind (fold_io (ask_version E dbSpec) clusterClient (None, [])) (\<lambda>(err, results).
     case err of
       Some e \<Rightarrow> fail (ErrS (''failed to assess overall cluster readiness for OVN cluster DB upgrade: '' @
                           squoted (err_text e)))
     | None \<Rightarrow> ret (\<forall>(host, status) \<in> set results. status = targetVersion)))"

section \<open>The loop\<close>

definition next_backoff :: "nat \<Rightarrow> nat" where
  "next_backoff b = (let b' = (if b < backOffMsMax then b * backOffMultiplier else b)
                     in if b' > backOffMsMax then backOffMsMax else b')"

definition convert_cmd :: "OvsdbSpec \<Rightarrow> string list" where
  "convert_cmd dbSpec = [''ovsdb-client'', ''-t'', show_nat 60, ''convert'', SocketURL dbSpec, Schema dbSpec]"

text \<open>One pass of the loop: it ends the loop, or the loop goes on after a pause.\<close>

datatype pass = Finished | TryAgain

definition upgrade_pass :: "env \<Rightarrow> OvsdbSpec \<Rightarrow> pass io" where
  "upgrade_pass E dbSpec =
     bind (attempt (getLiveSchemaStatus E dbSpec)) (\<lambda>status. case status of
       Inl _ \<Rightarrow> ret TryAgain
     | Inr dbStatus \<Rightarrow>
       if \<not> UpgradeRequired dbStatus then ret Finished
       else
         bind (attempt (isNodeUpgradeLeader E)) (\<lambda>upgradeLeader. case upgradeLeader of
           Inl _ \<Rightarrow> ret TryAgain
         | Inr lead \<Rightarrow>
           if \<not> lead then ret TryAgain
           else
             bind (attempt (isClusterUpgradeReady E dbSpec (TargetVersion dbStatus))) (\<lambda>upgradeReady.
             case upgradeReady of
               Inl _ \<Rightarrow> ret TryAgain
             | Inr ready \<Rightarrow>
               if \<not> ready then ret TryAgain
               else bind (OvsdbClient E dbSpec 10 60 [''convert'', SocketURL dbSpec, Schema dbSpec])
                      (\<lambda>_. ret Finished))))"

partial_function (option) upgrade_loop :: "env \<Rightarrow> OvsdbSpec \<Rightarrow> nat \<Rightarrow> world \<Rightarrow> (unit res \<times> world) option" where
  "upgrade_loop E dbSpec backOffMs w = (case upgrade_pass E dbSpec w of
       (Ok Finished, w') \<Rightarrow> Some (Ok (), w')
     | (Ok TryAgain, w') \<Rightarrow> upgrade_loop E dbSpec (next_backoff backOffMs) (snd (sleep backOffMs w'))
     | (Er e, w') \<Rightarrow> Some (Er e, w')
     | (Panic s, w') \<Rightarrow> Some (Panic s, w'))"

text \<open>What comes before the loop: \<open>True\<close> when the loop is to run.\<close>

definition upgrade_guard :: "env \<Rightarrow> OvsdbType \<Rightarrow> (OvsdbSpec \<times> bool) io" where
  "upgrade_guard E dbType =
     bind (on_err (\<lambda>e. ErrS (''failed create DB specification: '' @ squoted (err_text e)))
       (of_sum (NewOvsdbSpec E dbType))) (\<lambda>dbSpec.
     if \<not> IsCentral dbSpec
     then fail (ErrS ''MicroOVN handles upgrades only for Northbound and Southbound clustered DBs'')
     else bind (on_err (errf ''failed to query local services: '') (HasServiceActive E ''central'')) (\<lambda>centralActive.
       ret (dbSpec, centralActive)))"

definition UpgradeCentralDB :: "env \<Rightarrow> OvsdbType \<Rightarrow> world \<Rightarrow> (unit res \<times> world) option" where
  "UpgradeCentralDB E dbType w = (case upgrade_guard E dbType w of
       (Ok (dbSpec, centralActive), w') \<Rightarrow>
         if \<not> centralActive then Some (Ok (), w') else upgrade_loop E dbSpec backOffMsInitial w'
     | (Er e, w') \<Rightarrow> Some (Er e, w')
     | (Panic s, w') \<Rightarrow> Some (Panic s, w'))"

section \<open>Frame lemmas\<close>

lemma np_upgrade [np_rules]:
  "no_panic (getLiveSchemaStatus E db)" "no_panic (isClusterUpgradeReady E db v)" "no_panic (upgrade_guard E ty)"
proof -
  have a: "no_panic (ask_version E db c s)" for c s
    unfolding ask_version_def client_defs by (intro np_rules)
  show "no_panic (getLiveSchemaStatus E db)" "no_panic (isClusterUpgradeReady E db v)" "no_panic (upgrade_guard E ty)"
    unfolding getLiveSchemaStatus_def ExpectedOvsdbSchemaVersion_def isClusterUpgradeReady_def upgrade_guard_def Let_def
    by (intro np_rules a)+
qed

context trace_blind
begin

lemma keeps_upgrade [keeps_rules]:
  "keeps P (getLiveSchemaStatus E db)" "keeps P (isNodeUpgradeLeader E)" "keeps P (isClusterUpgradeReady E db v)"
  "keeps P (upgrade_pass E db)"
proof -
  have a: "keeps P (ask_version E db c s)" for c s
    unfolding ask_version_def by (intro keeps_rules keeps_client)
  show s: "keeps P (getLiveSchemaStatus E db)"
    unfolding getLiveSchemaStatus_def ExpectedOvsdbSchemaVersion_def Let_def
    by (intro keeps_rules keeps_ctl keeps_run_cmd)
  show l: "keeps P (isNodeUpgradeLeader E)"
    unfolding isNodeUpgradeLeader_def by (intro keeps_rules keeps_node_reads)
  show r: "keeps P (isClusterUpgradeReady E db v)" for v
    unfolding isClusterUpgradeReady_def by (intro keeps_rules a)
  show "keeps P (upgrade_pass E db)"
    unfolding upgrade_pass_def by (intro keeps_rules s l r keeps_ctl)
qed

end

section \<open>Who leads\<close>

text \<open>The member with the least number among those that run the central service.\<close>

definition leads :: "string \<Rightarrow> db \<Rightarrow> bool" where
  "leads n d \<longleftrightarrow> (\<exists>m \<in> set (members_with ''central'' d). m_name m = n \<and>
     (\<forall>x \<in> set (members_with ''central'' d). m_id m \<le> m_id x))"

lemma hd_sort_key: "xs \<noteq> [] \<Longrightarrow> hd (sort_key f xs) \<in> set xs \<and> (\<forall>x \<in> set xs. f (hd (sort_key f xs)) \<le> f x)"
proof -
  assume ne: "xs \<noteq> []"
  let ?s = "sort_key f xs"
  from ne have "?s \<noteq> []" by (metis length_0_conv length_sort)
  then obtain y ys where s: "?s = y # ys" by (cases ?s) auto
  have "sorted (map f ?s)" by (rule sorted_sort_key)
  with s have "\<forall>x \<in> set (y # ys). f y \<le> f x" by auto
  with s show ?thesis by (metis list.sel(1) list.set_intros(1) set_sort)
qed

lemma least_unique:
  assumes ok: "db_ok d" and m: "m \<in> set (members_with s d)" "\<forall>x \<in> set (members_with s d). m_id m \<le> m_id x"
    and n: "n \<in> set (members_with s d)" "\<forall>x \<in> set (members_with s d). m_id n \<le> m_id x"
  shows "m = n"
proof -
  have "m_id m = m_id n" using m n by (meson order.antisym)
  moreover have "members_keys d" using ok by (simp add: db_ok_def)
  moreover have "m \<in> set (members d)" "n \<in> set (members d)" using m(1) n(1) by (auto simp: members_with_def)
  ultimately show ?thesis using m_id_inj by blast
qed

lemma isNodeUpgradeLeader_cases:
  assumes ok: "db_ok (w_db w)" and call: "isNodeUpgradeLeader E w = (r, w')"
  shows "w_db w' = w_db w \<and> (case r of
      Ok b \<Rightarrow> (b \<longleftrightarrow> leads (e_name E) (w_db w)) \<and> members_with ''central'' (w_db w) \<noteq> []
    | Er e \<Rightarrow> True
    | Panic s \<Rightarrow> members_with ''central'' (w_db w) = [])"
proof -
  let ?F = "FindService E ''central''"
  let ?m = "members_with ''central'' (w_db w)"
  have db: "w_db w' = w_db w" by (rule keepsD [OF dbv.keeps_upgrade(2) refl call])
  show ?thesis
  proof (cases ?F w rule: io_cases)
    case (Ok ms w1)
    with FindService_Ok have ms: "ms = ?m" by blast
    have call': "(case sort_key m_id ms of [] \<Rightarrow> panic ''index out of range [0] with length 0''
        | x # _ \<Rightarrow> ret (e_name E = m_name x)) w1 = (r, w')"
      using call by (simp add: isNodeUpgradeLeader_def seq Ok)
    show ?thesis
    proof (cases "ms = []")
      case True
      with call' db ms show ?thesis by auto
    next
      case False
      then obtain y ys where s: "sort_key m_id ms = y # ys"
        by (metis length_0_conv length_sort neq_Nil_conv)
      have y: "y \<in> set ?m" "\<forall>x \<in> set ?m. m_id y \<le> m_id x"
        using hd_sort_key [OF False, of m_id] s ms by auto
      have r: "r = Ok (e_name E = m_name y)" using call' s by simp
      have "leads (e_name E) (w_db w) \<longleftrightarrow> e_name E = m_name y"
      proof
        assume "leads (e_name E) (w_db w)"
        then obtain m where m: "m \<in> set ?m" "\<forall>x \<in> set ?m. m_id m \<le> m_id x" and n: "m_name m = e_name E"
          unfolding leads_def by metis
        from least_unique [OF ok m y] n show "e_name E = m_name y" by simp
      next
        assume "e_name E = m_name y"
        with y show "leads (e_name E) (w_db w)" unfolding leads_def by metis
      qed
      with False ms db show ?thesis unfolding r res.case by blast
    qed
  next
    case (Er e w1)
    have "\<exists>e. r = Er e" using call by (auto simp: isNodeUpgradeLeader_def seq Er)
    with db show ?thesis by auto
  next
    case (Panic s w1)
    then show ?thesis using np_node(3) no_panicD by blast
  qed
qed

section \<open>What a pass that converts has seen\<close>

text \<open>Every answer that was recorded is an answer of a member at that URL.\<close>

definition answered :: "env \<Rightarrow> OvsdbSpec \<Rightarrow> string \<Rightarrow> string \<Rightarrow> bool" where
  "answered E dbSpec url v \<longleftrightarrow> (\<exists>w w'. c_GetExpectedOvsdbSchemaVersion E url dbSpec w = (Ok (v, SchemaErrorNone), w'))"

lemma ask_version_Ok:
  assumes "ask_version E db c s w = (Ok (None, res), w')"
  shows "fst s = None \<and> (\<exists>v. answered E db (p_url c) v \<and> res = AList.update (p_url c) v (snd s))"
  using assms unfolding ask_version_def answered_def
  by (auto elim!: bind_OkE split: prod.splits if_splits option.splits) blast

lemma set_update: "set (AList.update k v al) \<subseteq> insert (k, v) (set al)"
  by (induction al) auto

lemma fold_ask_version:
  assumes "fold_io (ask_version E db) cs s w = (Ok (None, res), w')"
    and "\<forall>(u, v) \<in> set (snd s). answered E db u v"
  shows "fst s = None \<and> (\<forall>(u, v) \<in> set res. answered E db u v) \<and>
         fst ` set (snd s) \<union> p_url ` set cs \<subseteq> fst ` set res"
  using assms
proof (induction cs arbitrary: s w)
  case (Cons c cs)
  then obtain s1 w1 where a: "ask_version E db c s w = (Ok s1, w1)"
    and r: "fold_io (ask_version E db) cs s1 w1 = (Ok (None, res), w')" by (auto elim: bind_OkE)
  show ?case
  proof (cases "fst s1")
    case None
    then have "s1 = (None, snd s1)" by (simp add: prod_eq_iff)
    with a have "ask_version E db c s w = (Ok (None, snd s1), w1)" by simp
    from ask_version_Ok [OF this] obtain v where none: "fst s = None" and v: "answered E db (p_url c) v"
      and s1: "snd s1 = AList.update (p_url c) v (snd s)" by blast
    have "\<forall>(u, v) \<in> set (snd s1). answered E db u v"
      using v Cons.prems(2) set_update [of "p_url c" v "snd s"] unfolding s1 by auto
    from Cons.IH [OF r this] have IH: "\<forall>(u, v) \<in> set res. answered E db u v"
      "fst ` set (snd s1) \<union> p_url ` set cs \<subseteq> fst ` set res" by simp_all
    have "fst ` set (snd s1) = insert (p_url c) (fst ` set (snd s))"
      unfolding s1 by (simp add: dom_update)
    with IH none show ?thesis by auto
  next
    case (Some e)
    have "fold_io (ask_version E db) cs (Some e, x) w = (Ok (None, res), w') \<Longrightarrow> False" for x w
      by (induction cs arbitrary: x w)
         (fastforce elim!: bind_OkE simp: ask_version_def split: prod.splits if_splits)+
    with r Some show ?thesis by (metis prod.collapse)
  qed
qed simp

lemma isClusterUpgradeReady_Ok:
  assumes "isClusterUpgradeReady E db t w = (Ok True, w')"
  shows "\<exists>cs tr. e_peers E tr False = Inr cs \<and> (\<forall>c \<in> set cs. answered E db (p_url c) t)"
proof -
  from assms obtain cs w1 err res where p: "peers E False w = (Ok cs, w1)"
    and f: "fold_io (ask_version E db) cs (None, []) w1 = (Ok (err, res), w')"
    and e: "err = None" and t: "\<forall>(u, v) \<in> set res. v = t"
    unfolding isClusterUpgradeReady_def
    by (auto elim!: bind_OkE on_err_OkE split: option.splits)
  from p have cs: "\<exists>tr. e_peers E tr False = Inr cs"
    unfolding peers_def by (auto elim!: bind_OkE simp: of_sum_def split: sum.splits)
  have "\<forall>c \<in> set cs. answered E db (p_url c) t"
  proof
    fix c assume c: "c \<in> set cs"
    from f e have f': "fold_io (ask_version E db) cs (None, []) w1 = (Ok (None, res), w')" by simp
    from fold_ask_version [OF f'] c have "p_url c \<in> fst ` set res" "\<forall>(u, v) \<in> set res. answered E db u v" by auto
    with t show "answered E db (p_url c) t" by fastforce
  qed
  with cs show ?thesis by blast
qed

text \<open>What the live status is based on.\<close>

lemma getLiveSchemaStatus_Ok:
  assumes "getLiveSchemaStatus E db w = (Ok st, w')"
  shows "(\<exists>tr out. e_cmd E tr [''ovsdb-tool'', ''schema-version'', Schema db] = Inr out \<and>
            TargetVersion st = trim_space out) \<and>
         (UpgradeRequired st \<longleftrightarrow> (\<exists>tr e. e_cmd E tr (compare_cmd (LocalVersion st) (TargetVersion st)) = Inl e \<and>
            w_trace w' = Cmd (compare_cmd (LocalVersion st) (TargetVersion st)) # tr))"
  using assms unfolding getLiveSchemaStatus_def ExpectedOvsdbSchemaVersion_def Let_def
  by (auto elim!: bind_OkE on_err_OkE attempt_OkE simp: run_cmd_def split: sum.splits) blast+

text \<open>The command that converts a database, and what else a pass runs.\<close>

context cmd_log
begin

lemma keeps_ovsdb:
  "(\<And>t st. allowed [''ovsdb-client'', ''--timeout'', show_nat t, ''wait'', SocketURL db, DbName db, st]) \<Longrightarrow>
   allowed ([''ovsdb-client'', ''-t'', show_nat r] @ args) \<Longrightarrow> keeps P (OvsdbClient E db c r args)"
  unfolding OvsdbClient_def WaitForDBState_def by (intro keeps_rules keeps_run_cmd; simp)

end

lemma not_convert [simp]:
  "[''ovsdb-client'', ''--timeout'', t, ''wait'', u, n, st] \<noteq> convert_cmd db"
  "[''ovsdb-client'', ''-t'', r, ''get-schema-version'', u, n] \<noteq> convert_cmd db"
  "[''ovsdb-tool'', a, b] \<noteq> convert_cmd db" "compare_cmd l t \<noteq> convert_cmd db"
  by (simp_all add: convert_cmd_def compare_cmd_def)

lemma no_convert:
  "keeps (\<lambda>w. \<not> ran (convert_cmd db) w) (getLiveSchemaStatus E db)"
  "keeps (\<lambda>w. \<not> ran (convert_cmd db) w) (isNodeUpgradeLeader E)"
  "keeps (\<lambda>w. \<not> ran (convert_cmd db) w) (isClusterUpgradeReady E db t)"
  "keeps (\<lambda>w. \<not> ran (convert_cmd db) w) (sleep n)"
proof -
  have a: "keeps (\<lambda>w. \<not> ran (convert_cmd db) w) (ask_version E db c s)" for c s
    unfolding ask_version_def c_GetExpectedOvsdbSchemaVersion_def getOvsdbSchemaVersion_def
    by (intro keeps_rules never.keeps_query)
  show "keeps (\<lambda>w. \<not> ran (convert_cmd db) w) (getLiveSchemaStatus E db)"
    unfolding getLiveSchemaStatus_def ExpectedOvsdbSchemaVersion_def Let_def
    by (intro keeps_rules never.keeps_ovsdb never.keeps_run_cmd) simp_all
  show "keeps (\<lambda>w. \<not> ran (convert_cmd db) w) (isNodeUpgradeLeader E)"
    unfolding isNodeUpgradeLeader_def by (intro keeps_rules never.keeps_registry)
  show "keeps (\<lambda>w. \<not> ran (convert_cmd db) w) (isClusterUpgradeReady E db t)"
    unfolding isClusterUpgradeReady_def by (intro keeps_rules a)
  show "keeps (\<lambda>w. \<not> ran (convert_cmd db) w) (sleep n)" by (rule never.keeps_sleep)
qed

section \<open>The loop as a transition system\<close>

text \<open>
  A state is the pause to come and the world. \<open>again\<close> is one turn of the loop, \<open>others\<close> is a change
  of the tables by another member while the loop sleeps.
\<close>

inductive loop_step :: "env \<Rightarrow> OvsdbSpec \<Rightarrow> nat \<times> world \<Rightarrow> nat \<times> world \<Rightarrow> bool" for E dbSpec where
  again: "upgrade_pass E dbSpec w = (Ok TryAgain, w') \<Longrightarrow>
    loop_step E dbSpec (b, w) (next_backoff b, snd (sleep b w'))"

inductive shared_step :: "env \<Rightarrow> OvsdbSpec \<Rightarrow> nat \<times> world \<Rightarrow> nat \<times> world \<Rightarrow> bool" for E dbSpec where
  own: "loop_step E dbSpec s s' \<Longrightarrow> shared_step E dbSpec s s'"
| others: "db_ok d \<Longrightarrow> shared_step E dbSpec (b, w) (b, w\<lparr>w_db := d\<rparr>)"

inductive_simps loop_step_iff: "loop_step E dbSpec (b, w) s"
inductive_cases shared_stepE: "shared_step E dbSpec (b, w) s"

text \<open>The pass after which the loop ends.\<close>

definition last_pass :: "env \<Rightarrow> OvsdbSpec \<Rightarrow> world \<Rightarrow> unit res \<Rightarrow> world \<Rightarrow> bool" where
  "last_pass E dbSpec w r w' = (case upgrade_pass E dbSpec w of
       (Ok Finished, w1) \<Rightarrow> r = Ok () \<and> w' = w1
     | (Ok TryAgain, w1) \<Rightarrow> False
     | (Er e, w1) \<Rightarrow> r = Er e \<and> w' = w1
     | (Panic s, w1) \<Rightarrow> r = Panic s \<and> w' = w1)"

lemma upgrade_loop_last: "last_pass E db w r w' \<Longrightarrow> upgrade_loop E db b w = Some (r, w')"
  by (subst upgrade_loop.simps) (auto simp: last_pass_def split: prod.splits res.splits pass.splits)

lemma upgrade_loop_again:
  "upgrade_pass E db w = (Ok TryAgain, w1) \<Longrightarrow>
   upgrade_loop E db b w = upgrade_loop E db (next_backoff b) (snd (sleep b w1))"
  by (subst upgrade_loop.simps) simp

text \<open>The loop returns exactly when a last pass is reached, and with its result.\<close>

lemma upgrade_loop_reaches:
  "upgrade_loop E db b w = Some y \<Longrightarrow>
   \<exists>b1 w1. (loop_step E db)\<^sup>*\<^sup>* (b, w) (b1, w1) \<and> last_pass E db w1 (fst y) (snd y)"
proof (rule upgrade_loop.raw_induct [where P =
      "\<lambda>E db b w y. \<exists>b1 w1. (loop_step E db)\<^sup>*\<^sup>* (b, w) (b1, w1) \<and> last_pass E db w1 (fst y) (snd y)"])
  fix loop E db b w y
  assume IH: "\<And>E db b w y. loop E db b w = Some y \<Longrightarrow>
      \<exists>b1 w1. (loop_step E db)\<^sup>*\<^sup>* (b, w) (b1, w1) \<and> last_pass E db w1 (fst y) (snd y)"
    and y: "(case upgrade_pass E db w of
         (Ok Finished, w') \<Rightarrow> Some (Ok (), w')
       | (Ok TryAgain, w') \<Rightarrow> loop E db (next_backoff b) (snd (sleep b w'))
       | (Er e, w') \<Rightarrow> Some (Er e, w')
       | (Panic s, w') \<Rightarrow> Some (Panic s, w')) = Some y"
  obtain p w1 where p: "upgrade_pass E db w = (p, w1)" by fastforce
  show "\<exists>b1 w1. (loop_step E db)\<^sup>*\<^sup>* (b, w) (b1, w1) \<and> last_pass E db w1 (fst y) (snd y)"
  proof (cases "p = Ok TryAgain")
    case True
    with y p have "loop E db (next_backoff b) (snd (sleep b w1)) = Some y" by simp
    from IH [OF this] obtain b2 w2 where
      r: "(loop_step E db)\<^sup>*\<^sup>* (next_backoff b, snd (sleep b w1)) (b2, w2)" and l: "last_pass E db w2 (fst y) (snd y)"
      by blast
    moreover have "loop_step E db (b, w) (next_backoff b, snd (sleep b w1))"
      using p True by (simp add: loop_step_iff)
    ultimately show ?thesis by (meson converse_rtranclp_into_rtranclp)
  next
    case False
    with y p have "last_pass E db w (fst y) (snd y)"
      by (cases p) (auto simp: last_pass_def split: pass.splits)
    then show ?thesis by blast
  qed
qed

lemma loop_step_upgrade_loop:
  "loop_step E db (b, w) (b', w') \<Longrightarrow> upgrade_loop E db b w = upgrade_loop E db b' w'"
  by (auto simp: loop_step_iff intro: upgrade_loop_again)

lemma loop_reaches_back:
  "(loop_step E db)\<^sup>*\<^sup>* s t \<Longrightarrow> upgrade_loop E db (fst s) (snd s) = upgrade_loop E db (fst t) (snd t)"
  by (induction rule: rtranclp_induct) (auto simp: loop_step_upgrade_loop)

section \<open>What every run keeps\<close>

text \<open>
  The database is not at the version of the local schema file, and every member that was asked answered
  with that version.
\<close>

definition cleared :: "env \<Rightarrow> OvsdbSpec \<Rightarrow> bool" where
  "cleared E dbSpec \<longleftrightarrow> (\<exists>t1 t2 t3 out current e cs.
     e_cmd E t1 [''ovsdb-tool'', ''schema-version'', Schema dbSpec] = Inr out \<and>
     e_cmd E t2 (compare_cmd current (trim_space out)) = Inl e \<and>
     e_peers E t3 False = Inr cs \<and> (\<forall>c \<in> set cs. answered E dbSpec (p_url c) (trim_space out)))"

lemma pass_without_convert:
  assumes call: "upgrade_pass E db w = (p, w')" and no: "\<not> ran (convert_cmd db) w" and ok: "db_ok (w_db w)"
  shows "\<not> ran (convert_cmd db) w' \<or> p \<noteq> Ok TryAgain \<and> leads (e_name E) (w_db w) \<and>
    cleared E db"
proof (cases "getLiveSchemaStatus E db" w rule: io_cases)
  case (Panic s w1)
  then show ?thesis using np_upgrade(1) no_panicD by blast
next
  case (Er e w1)
  with call have "w' = w1" by (simp add: upgrade_pass_def seq)
  with keepsD [OF no_convert(1) no Er] show ?thesis by simp
next
  case live: (Ok st w1)
  note no1 = keepsD [OF no_convert(1) no live]
  have db1: "w_db w1 = w_db w" by (rule keepsD [OF dbv.keeps_upgrade(1) refl live])
  show ?thesis
  proof (cases "UpgradeRequired st")
    case False
    with call live no1 show ?thesis by (simp add: upgrade_pass_def seq)
  next
    case req: True
    show ?thesis
    proof (cases "isNodeUpgradeLeader E" w1 rule: io_cases)
      case (Panic s w2)
      with call live req keepsD [OF no_convert(2) no1 Panic] show ?thesis by (simp add: upgrade_pass_def seq)
    next
      case (Er e w2)
      with call live req keepsD [OF no_convert(2) no1 Er] show ?thesis by (simp add: upgrade_pass_def seq)
    next
      case lead: (Ok b w2)
      note no2 = keepsD [OF no_convert(2) no1 lead]
      show ?thesis
      proof (cases b)
        case False
        with call live req lead no2 show ?thesis by (simp add: upgrade_pass_def seq)
      next
        case True
        with isNodeUpgradeLeader_cases [OF _ lead] ok db1 have l: "leads (e_name E) (w_db w)" by simp
        show ?thesis
        proof (cases "isClusterUpgradeReady E db (TargetVersion st)" w2 rule: io_cases)
          case (Panic s w3)
          then show ?thesis using np_upgrade(2) no_panicD by blast
        next
          case (Er e w3)
          with call live req lead True keepsD [OF no_convert(3) no2 Er] show ?thesis
            by (simp add: upgrade_pass_def seq)
        next
          case rdy: (Ok rd w3)
          note no3 = keepsD [OF no_convert(3) no2 rdy]
          show ?thesis
          proof (cases rd)
            case False
            with call live req lead True rdy no3 show ?thesis by (simp add: upgrade_pass_def seq)
          next
            case rd: True
            with call live req lead True rdy have "bind (OvsdbClient E db 10 60
                [''convert'', SocketURL db, Schema db]) (\<lambda>_. ret Finished) w3 = (p, w')"
              by (simp add: upgrade_pass_def seq)
            then have p: "p \<noteq> Ok TryAgain" by (auto elim: bind_OkE)
            moreover from rdy rd have "isClusterUpgradeReady E db (TargetVersion st) w2 = (Ok True, w3)" by simp
            from isClusterUpgradeReady_Ok [OF this] obtain cs t3 where "e_peers E t3 False = Inr cs"
              "\<forall>c \<in> set cs. answered E db (p_url c) (TargetVersion st)" by blast
            moreover from getLiveSchemaStatus_Ok [OF live] req obtain t1 out t2 e where
              "e_cmd E t1 [''ovsdb-tool'', ''schema-version'', Schema db] = Inr out"
              "TargetVersion st = trim_space out"
              "e_cmd E t2 (compare_cmd (LocalVersion st) (TargetVersion st)) = Inl e" by blast
            ultimately have "cleared E db" unfolding cleared_def by metis
            with l p show ?thesis by blast
          qed
        qed
      qed
    qed
  qed
qed

lemma shared_invariant:
  assumes "(shared_step E db)\<^sup>*\<^sup>* s t" and "\<not> ran (convert_cmd db) (snd s)" and "db_ok (w_db (snd s))"
  shows "\<not> ran (convert_cmd db) (snd t) \<and> db_ok (w_db (snd t))"
  using assms
proof (induction rule: rtranclp_induct)
  case (step t u)
  then have no: "\<not> ran (convert_cmd db) (snd t)" and ok: "db_ok (w_db (snd t))" by simp_all
  from step(2) show ?case
  proof cases
    case own
    then obtain b w w' where t: "t = (b, w)" and p: "upgrade_pass E db w = (Ok TryAgain, w')"
      and u: "u = (next_backoff b, snd (sleep b w'))" by (auto elim: loop_step.cases)
    have "\<not> ran (convert_cmd db) w'" using pass_without_convert [OF p] no ok t by auto
    moreover have "w_db w' = w_db w" by (rule keepsD [OF dbv.keeps_upgrade(4) refl p])
    ultimately show ?thesis using ok t u by (simp add: sleep_def ran_def)
  next
    case (others d b w)
    with no show ?thesis by (simp add: ran_def)
  qed
qed simp

lemma leads_unique: "db_ok d \<Longrightarrow> leads a d \<Longrightarrow> leads b d \<Longrightarrow> a = b"
  unfolding leads_def using least_unique by blast

lemma back_off_closed: "next_backoff (min 2000 (100 * 2 ^ n)) = min 2000 (100 * 2 ^ Suc n)"
  by (auto simp: next_backoff_def back_off_defs Let_def min_def)

section \<open>Properties\<close>

text \<open>After \<open>n\<close> turns the pause to come has doubled \<open>n\<close> times from 100 ms, up to 2 s, and the last thing
  a turn did was to sleep for the pause before.\<close>

theorem back_off_doubles:
  assumes "(loop_step E db ^^ n) (backOffMsInitial, w) (b, w')"
  shows "b = min 2000 (100 * 2 ^ n) \<and>
         (0 < n \<longrightarrow> hd (w_trace w') = Sleep (min 2000 (100 * 2 ^ (n - 1))))"
  using assms
proof (induction n arbitrary: b w')
  case (Suc n)
  then obtain b1 w1 where r: "(loop_step E db ^^ n) (backOffMsInitial, w) (b1, w1)"
    and s: "loop_step E db (b1, w1) (b, w')" by auto
  from Suc.IH [OF r] have b1: "b1 = min 2000 (100 * 2 ^ n)" by blast
  from s have "b = next_backoff b1" "hd (w_trace w') = Sleep b1" by (auto simp: loop_step_iff sleep_def)
  with b1 back_off_closed [of n] show ?case by simp
qed (simp add: back_off_defs)

text \<open>A pass that ends the loop, in terms of what it finds out: the live schema is at the expected version; or an
  upgrade is required and nobody leads it; or this member leads it, every member is ready, and the
  conversion was run.\<close>

lemma last_pass_iff:
  assumes ok: "db_ok (w_db w)"
  shows "last_pass E db w r w' \<longleftrightarrow> (\<exists>st w1. getLiveSchemaStatus E db w = (Ok st, w1) \<and>
     (if \<not> UpgradeRequired st then r = Ok () \<and> w' = w1
      else (\<exists>s. isNodeUpgradeLeader E w1 = (Panic s, w') \<and> r = Panic s \<and> members_with ''central'' (w_db w) = []) \<or>
        (\<exists>w2 w3 q. leads (e_name E) (w_db w) \<and> isNodeUpgradeLeader E w1 = (Ok True, w2) \<and>
           isClusterUpgradeReady E db (TargetVersion st) w2 = (Ok True, w3) \<and>
           OvsdbClient E db 10 60 [''convert'', SocketURL db, Schema db] w3 = (q, w') \<and>
           r = (case q of Ok _ \<Rightarrow> Ok () | Er e \<Rightarrow> Er e | Panic s \<Rightarrow> Panic s))))"
proof (cases "getLiveSchemaStatus E db" w rule: io_cases)
  case (Panic s w1)
  then show ?thesis using np_upgrade(1) no_panicD by blast
next
  case (Er e w1)
  then show ?thesis by (simp add: last_pass_def upgrade_pass_def seq run)
next
  case live: (Ok st w1)
  have ok1: "db_ok (w_db w1)" "w_db w1 = w_db w"
    using ok keepsD [OF dbv.keeps_upgrade(1) refl live] by simp_all
  show ?thesis
  proof (cases "UpgradeRequired st")
    case False
    with live show ?thesis by (simp add: last_pass_def upgrade_pass_def seq run)
  next
    case req: True
    show ?thesis
    proof (cases "isNodeUpgradeLeader E" w1 rule: io_cases)
      case (Panic s w2)
      with isNodeUpgradeLeader_cases [OF ok1(1) Panic] ok1(2) live req show ?thesis
        by (auto simp: last_pass_def upgrade_pass_def seq)
    next
      case (Er e w2)
      with live req show ?thesis by (simp add: last_pass_def upgrade_pass_def seq run)
    next
      case lead: (Ok b w2)
      note l = isNodeUpgradeLeader_cases [OF ok1(1) lead]
      show ?thesis
      proof (cases b)
        case False
        with live req lead show ?thesis by (simp add: last_pass_def upgrade_pass_def seq run)
      next
        case b: True
        show ?thesis
        proof (cases "isClusterUpgradeReady E db (TargetVersion st)" w2 rule: io_cases)
          case (Panic s w3)
          then show ?thesis using np_upgrade(2) no_panicD by blast
        next
          case (Er e w3)
          with live req lead b show ?thesis by (simp add: last_pass_def upgrade_pass_def seq run)
        next
          case rdy: (Ok rd w3)
          obtain q w4 where q: "OvsdbClient E db 10 60 [''convert'', SocketURL db, Schema db] w3 = (q, w4)" by fastforce
          from l b ok1(2) have "leads (e_name E) (w_db w)" by simp
          with live req lead b rdy q show ?thesis
            by (cases rd; cases q) (auto simp: last_pass_def upgrade_pass_def seq run bind_def)
        qed
      qed
    qed
  qed
qed

lemma loop_step_db: "(loop_step E db)\<^sup>*\<^sup>* s t \<Longrightarrow> w_db (snd t) = w_db (snd s)"
proof (induction rule: rtranclp_induct)
  case (step t u)
  then show ?case using keepsD [OF dbv.keeps_upgrade(4) refl] by (auto elim!: loop_step.cases simp: sleep_def)
qed simp

text \<open>C11: The upgrade loop, started with a pause of 100 ms, returns exactly when after some number \<open>n\<close> of turns, with
  the pause doubled \<open>n\<close> times up to 2 s, the member reads the live schema and finds it at the expected version; or
  finds that an upgrade is required while no member runs the central service, which is a panic; or that one is
  required, this member leads and every member is ready, and then the result is the one of the conversion it runs.
  In every other case, so on a member that does not lead as long as the schema is old, it runs for ever.\<close>

theorem upgrade_loop_returns_iff:
  assumes ok: "db_ok (w_db w)"
  shows "upgrade_loop E db 100 w = Some (r, w') \<longleftrightarrow>
   (\<exists>n w1 st w2. (loop_step E db ^^ n) (100, w) (min 2000 (100 * 2 ^ n), w1) \<and>
     getLiveSchemaStatus E db w1 = (Ok st, w2) \<and>
     (if \<not> UpgradeRequired st then r = Ok () \<and> w' = w2
      else (\<exists>s. isNodeUpgradeLeader E w2 = (Panic s, w') \<and> r = Panic s \<and> members_with ''central'' (w_db w) = []) \<or>
        (\<exists>w3 w4 q. leads (e_name E) (w_db w) \<and> isNodeUpgradeLeader E w2 = (Ok True, w3) \<and>
           isClusterUpgradeReady E db (TargetVersion st) w3 = (Ok True, w4) \<and>
           OvsdbClient E db 10 60 [''convert'', SocketURL db, Schema db] w4 = (q, w') \<and>
           r = (case q of Ok _ \<Rightarrow> Ok () | Er e \<Rightarrow> Er e | Panic s \<Rightarrow> Panic s))))"
    (is "_ \<longleftrightarrow> (\<exists>n w1 st w2. ?steps n w1 \<and> ?last w1 st w2)")
proof
  have same: "w_db w1 = w_db w" if "(loop_step E db)\<^sup>*\<^sup>* (100, w) (b1, w1)" for b1 w1
    using loop_step_db [OF that] by simp
  have ends: "last_pass E db w1 r w' \<longleftrightarrow> (\<exists>st w2. ?last w1 st w2)" if "w_db w1 = w_db w" for w1
    by (rule last_pass_iff [of w1 E db r w', unfolded that, OF ok])
  {
    assume "upgrade_loop E db 100 w = Some (r, w')"
    from upgrade_loop_reaches [OF this] obtain b1 w1 where steps: "(loop_step E db)\<^sup>*\<^sup>* (100, w) (b1, w1)"
      and last: "last_pass E db w1 r w'" by auto
    then obtain n where n: "(loop_step E db ^^ n) (100, w) (b1, w1)" by (auto dest: rtranclp_imp_relpowp)
    with back_off_doubles [of n E db w b1 w1] have "?steps n w1" by (simp add: back_off_defs)
    moreover have "\<exists>st w2. ?last w1 st w2"
      using last unfolding ends [OF same [OF steps]] .
    ultimately show "\<exists>n w1 st w2. ?steps n w1 \<and> ?last w1 st w2" by blast
  next
    assume "\<exists>n w1 st w2. ?steps n w1 \<and> ?last w1 st w2"
    then obtain n w1 where n: "?steps n w1" and last: "\<exists>st w2. ?last w1 st w2" by blast
    from n have steps: "(loop_step E db)\<^sup>*\<^sup>* (100, w) (min 2000 (100 * 2 ^ n), w1)" by (rule relpowp_imp_rtranclp)
    from last have "last_pass E db w1 r w'"
      unfolding ends [OF same [OF steps]] .
    from loop_reaches_back [OF steps] upgrade_loop_last [OF this] show "upgrade_loop E db 100 w = Some (r, w')" by simp
  }
qed

text \<open>C12: However the tables change between the passes, a member converts the database only in a pass in
  which it is the central member with the least number, the database is not at the version of the local
  schema, and every member the cluster library names has answered with that version; and that pass is
  the last one.\<close>

theorem convert_guarded:
  assumes start: "db_ok (w_db w)" "\<not> ran (convert_cmd db) w"
    and steps: "(shared_step E db)\<^sup>*\<^sup>* (backOffMsInitial, w) (b, w1)"
    and pass: "upgrade_pass E db w1 = (p, w')" and convert: "ran (convert_cmd db) w'"
  shows "leads (e_name E) (w_db w1) \<and> (\<forall>n. leads n (w_db w1) \<longrightarrow> n = e_name E) \<and> cleared E db \<and>
         p \<noteq> Ok TryAgain"
proof -
  from shared_invariant [OF steps] start have inv: "\<not> ran (convert_cmd db) w1" "db_ok (w_db w1)" by simp_all
  from pass_without_convert [OF pass inv] convert have "p \<noteq> Ok TryAgain" "leads (e_name E) (w_db w1)" "cleared E db"
    by simp_all
  with leads_unique [OF inv(2)] show ?thesis by blast
qed

text \<open>The leader is the first of a list that may be empty: when an upgrade is required and by then no member of
  the cluster runs the central service, it ends in a panic.\<close>

theorem upgrade_panics_without_central:
  assumes live: "getLiveSchemaStatus E db w = (Ok st, w1)" and req: "UpgradeRequired st"
    and found: "FindService E ''central'' w1 = (Ok ms, w2)" and none: "members_with ''central'' (w_db w) = []"
  shows "upgrade_loop E db b w = Some (Panic ''index out of range [0] with length 0'', w2)"
proof -
  have "w_db w1 = w_db w" by (rule keepsD [OF dbv.keeps_upgrade(1) refl live])
  with FindService_Ok [OF found] none have ms: "ms = []" by simp
  have "isNodeUpgradeLeader E w1 = (Panic ''index out of range [0] with length 0'', w2)"
    using found ms by (simp add: isNodeUpgradeLeader_def seq)
  then have "upgrade_pass E db w = (Panic ''index out of range [0] with length 0'', w2)"
    using live req by (simp add: upgrade_pass_def seq)
  then show ?thesis by (intro upgrade_loop_last) (simp add: last_pass_def)
qed

section \<open>The properties at a concrete input\<close>

text \<open>An old database, and a machine on which no command works.\<close>

definition old_db_env :: env where
  "old_db_env = sample_env\<lparr>e_cmd := (\<lambda>t argv. if length argv = 5 then Inl (ErrS ''1'') else Inr ''2'')\<rparr>"

definition dead_env :: env where
  "dead_env = sample_env\<lparr>e_cmd := (\<lambda>t argv. Inl (ErrS ''not found''))\<rparr>"

definition tiny_spec :: OvsdbSpec where
  "tiny_spec = \<lparr>SocketURL = ''u'', DbName = ''d'', ShortName = ''nb'', FriendlyName = ''n'', Schema = ''s'', IsCentral = True\<rparr>"

lemmas upgrade_evals [evals] = old_db_env_def dead_env_def tiny_spec_def upgrade_pass_def getLiveSchemaStatus_def
  ExpectedOvsdbSchemaVersion_def OvsdbClient_def WaitForDBState_def isNodeUpgradeLeader_def isClusterUpgradeReady_def
  compare_cmd_def convert_cmd_def ran_def

lemma dead_turn: "loop_step dead_env tiny_spec (b, w) (next_backoff b, snd (sleep b (snd (upgrade_pass dead_env tiny_spec w))))"
proof -
  have "fst (upgrade_pass dead_env tiny_spec w) = Ok TryAgain" by (simp add: evals)
  then show ?thesis by (intro loop_step.again) (simp add: prod_eq_iff)
qed

theorem upgrade_loop_returns_iff_witness:
  "\<exists>w'. upgrade_loop old_db_env tiny_spec 100 world_with_central = Some (Ok (), w') \<and> ran (convert_cmd tiny_spec) w'"
proof -
  let ?l = "getLiveSchemaStatus old_db_env tiny_spec world_with_central"
  let ?i = "isNodeUpgradeLeader old_db_env (snd ?l)"
  let ?c = "isClusterUpgradeReady old_db_env tiny_spec ''2'' (snd ?i)"
  let ?o = "OvsdbClient old_db_env tiny_spec 10 60 [''convert'', SocketURL tiny_spec, Schema tiny_spec] (snd ?c)"
  have "fst ?l = Ok \<lparr>LocalVersion = ''2'', TargetVersion = ''2'', UpgradeRequired = True\<rparr>"
    by (simp add: evals trim_by_def is_space_def)
  then have l: "?l = (Ok \<lparr>LocalVersion = ''2'', TargetVersion = ''2'', UpgradeRequired = True\<rparr>, snd ?l)"
    by (metis prod.collapse)
  have "fst ?i = Ok True" by (simp add: evals world_with_central_def find_members.simps)
  then have i: "?i = (Ok True, snd ?i)" by (metis prod.collapse)
  have "fst ?c = Ok True" by (simp add: evals)
  then have c: "?c = (Ok True, snd ?c)" by (metis prod.collapse)
  have "\<exists>x. fst ?o = Ok x" "ran (convert_cmd tiny_spec) (snd ?o)" by (simp_all add: evals)
  then obtain x where o: "?o = (Ok x, snd ?o)" and ran: "ran (convert_cmd tiny_spec) (snd ?o)" by (metis prod.collapse)
  have lead: "leads (e_name old_db_env) (w_db world_with_central)"
    using isNodeUpgradeLeader_cases [OF _ i] db_ok_central keepsD [OF dbv.keeps_upgrade(1) refl l] by simp
  have "upgrade_loop old_db_env tiny_spec 100 world_with_central = Some (Ok (), snd ?o)"
  proof (unfold upgrade_loop_returns_iff [OF db_ok_central], intro exI conjI)
    show "(loop_step old_db_env tiny_spec ^^ 0) (100, world_with_central) (min 2000 (100 * 2 ^ 0), world_with_central)"
      by simp
    show "getLiveSchemaStatus old_db_env tiny_spec world_with_central =
        (Ok \<lparr>LocalVersion = ''2'', TargetVersion = ''2'', UpgradeRequired = True\<rparr>, snd ?l)" by (rule l)
  qed (use i c o lead in \<open>fastforce\<close>)
  with ran show ?thesis by blast
qed

theorem back_off_doubles_witness:
  "\<exists>w'. (loop_step dead_env tiny_spec ^^ 2) (backOffMsInitial, sample_world) (400, w') \<and>
     hd (w_trace w') = Sleep 200"
proof -
  obtain b w' where r: "(loop_step dead_env tiny_spec ^^ 2) (backOffMsInitial, sample_world) (b, w')"
    using dead_turn by (simp add: numeral_2_eq_2 relcompp.simps) blast
  from back_off_doubles [OF this] r show ?thesis by auto
qed

theorem convert_guarded_witness: "leads ''n1'' (w_db world_with_central) \<and> cleared old_db_env tiny_spec"
proof -
  let ?c = "upgrade_pass old_db_env tiny_spec world_with_central"
  have "ran (convert_cmd tiny_spec) (snd ?c)" by (simp add: evals world_with_central_def find_members.simps)
  moreover have "\<not> ran (convert_cmd tiny_spec) world_with_central"
    by (simp add: ran_def world_with_central_def sample_world_def)
  ultimately have "leads (e_name old_db_env) (w_db world_with_central) \<and> cleared old_db_env tiny_spec"
    using convert_guarded [OF db_ok_central _ rtranclp.rtrancl_refl prod.collapse [symmetric]] by blast
  then show ?thesis by (simp add: old_db_env_def sample_env_def)
qed

theorem upgrade_panics_without_central_witness:
  "\<exists>w'. upgrade_loop old_db_env tiny_spec 100 sample_world = Some (Panic ''index out of range [0] with length 0'', w')"
proof -
  let ?l = "getLiveSchemaStatus old_db_env tiny_spec sample_world"
  let ?f = "FindService old_db_env ''central'' (snd ?l)"
  have "fst ?l = Ok \<lparr>LocalVersion = ''2'', TargetVersion = ''2'', UpgradeRequired = True\<rparr>"
    by (simp add: evals trim_by_def is_space_def)
  then have l: "?l = (Ok \<lparr>LocalVersion = ''2'', TargetVersion = ''2'', UpgradeRequired = True\<rparr>, snd ?l)"
    by (metis prod.collapse)
  have "fst ?f = Ok []" by (simp add: evals find_members.simps)
  then have f: "?f = (Ok [], snd ?f)" by (metis prod.collapse)
  have "members_with ''central'' (w_db sample_world) = []"
    by (simp add: members_with_def sample_world_def sample_db_def abs_services_def)
  from upgrade_panics_without_central [OF l _ f this] show ?thesis by auto
qed

end
