(* ===== verification/Dpu.thy ===== *)
theory Dpu
  imports CommandLog "HOL-Library.Multiset"
begin

text \<open>
  Package \<open>dpu\<close> (ovn/dpu/dpu.go): finding out whether the machine is a DPU and publishing its serial
  number. Go walks the map of ports in an order of its own: the order is the argument \<open>order\<close>.
\<close>

section \<open>The ports devlink lists\<close>

record DevlinkPort =
  Flavour :: string
  Controller :: int

definition dec_int :: "json \<Rightarrow> goerr + int" where
  "dec_int j = (case j of JNum n \<Rightarrow> if n < 2 ^ 63 then Inr (int n) else bad_json | _ \<Rightarrow> bad_json)"

definition dec_DevlinkPort :: "json \<Rightarrow> goerr + DevlinkPort" where
  "dec_DevlinkPort j = (if j = JNull then Inr \<lparr>Flavour = [], Controller = 0\<rparr>
     else andfield (andfield (Inr (\<lambda>f c. \<lparr>Flavour = f, Controller = c\<rparr>))
       (dec_field ''flavour'' dec_str [] j)) (dec_field ''controller'' dec_int 0 j))"

text \<open>A Go map keeps the last value of a repeated key.\<close>

definition go_map :: "(string \<times> 'a) list \<Rightarrow> (string \<times> 'a) list" where
  "go_map xs = AList.clearjunk (rev xs)"

definition dec_DevlinkJSON :: "json \<Rightarrow> goerr + (string \<times> DevlinkPort) list" where
  "dec_DevlinkJSON j = (case dec_field ''port'' (dec_map dec_DevlinkPort) [] j of
     Inl e \<Rightarrow> Inl e | Inr ps \<Rightarrow> Inr (go_map ps))"

definition dpu_port :: "DevlinkPort \<Rightarrow> bool" where
  "dpu_port port \<longleftrightarrow> (Controller port = 1 \<and> Flavour port = ''pcipf'') \<or> Flavour port = ''pcivf''"

definition findDPUDevlink :: "(string \<times> DevlinkPort) list \<Rightarrow> string io" where
  "findDPUDevlink devlinkOutput = (case find (\<lambda>(key, port). dpu_port port) devlinkOutput of
       None \<Rightarrow> ret []
     | Some (key, port) \<Rightarrow> (case split_on (CHR ''/'') key of
         _ # pci # _ \<Rightarrow> ret pci
       | _ \<Rightarrow> panic ''index out of range [1] with length 1''))"

definition detectDPU :: "env \<Rightarrow> ((string \<times> DevlinkPort) list \<Rightarrow> (string \<times> DevlinkPort) list) \<Rightarrow> string io" where
  "detectDPU E order =
     bind (on_err (wrapf ''failed to run devlink: '') (run_cmd E [''devlink'', ''port'', ''show'', ''-jp''])) (\<lambda>out.
     bind (on_err (wrapf ''failed to parse devlink JSON: '')
       (of_sum (case e_json_unmarshal E out of Inl e \<Rightarrow> Inl e | Inr j \<Rightarrow> dec_DevlinkJSON j))) (\<lambda>devlink.
     findDPUDevlink (order devlink)))"

section \<open>The serial number\<close>

definition sn_prefix :: string where "sn_prefix = ''[SN] Serial number:''"

fun serial_in :: "string list \<Rightarrow> string" where
  "serial_in [] = []"
| "serial_in (l # ls) =
     (let line = trim_space l in
      if prefix sn_prefix line
      then (case cut (CHR '':'') line of Some (_, serial) \<Rightarrow> trim_space serial | None \<Rightarrow> [])
      else serial_in ls)"

definition parseLspciSerial :: "string \<Rightarrow> string" where
  "parseLspciSerial lspciOutput = serial_in (split_on (CHR 0x0A) lspciOutput)"

definition getDPUSerial :: "env \<Rightarrow> string \<Rightarrow> string io" where
  "getDPUSerial E pci =
     bind (on_err (wrapf (''failed to run lspci -vvv -s '' @ pci @ '': ''))
       (run_cmd E [''lspci'', ''-vvv'', ''-s'', pci])) (\<lambda>out.
     let serial = parseLspciSerial out in
     if serial \<noteq> [] then ret serial
     else fail (ErrS (''serial number not found for DPU at PCI '' @ pci)))"

definition cms_option :: "string \<Rightarrow> string" where
  "cms_option serial = ''ovn-cms-options=card-serial-number='' @ serial"

definition serial_ids :: "string \<Rightarrow> string \<Rightarrow> string" where
  "serial_ids out serial = (if out \<noteq> [] then join '','' [out, cms_option serial] else cms_option serial)"

definition set_args :: "string \<Rightarrow> string \<Rightarrow> string list" where
  "set_args out serial = [''set'', ''Open_vSwitch'', ''.'', ''external-ids:'' @ serial_ids out serial]"

definition get_args :: "string list" where
  "get_args = [''get'', ''Open_vSwitch'', ''.'', ''external-ids:ovn-cms-options'']"

definition setOVNDPUSerial :: "env \<Rightarrow> string \<Rightarrow> unit io" where
  "setOVNDPUSerial E serial =
     bind (attempt (VSCtl E get_args)) (\<lambda>r.
     bind (case r of
         Inl e \<Rightarrow> if contains (err_text e) ''ovs-vsctl: no key'' then ret [] else fail e
       | Inr out \<Rightarrow> ret out) (\<lambda>out.
     bind (on_err (wrapf ''ovs-vsctl failed: '') (VSCtl E (set_args out serial))) (\<lambda>_. ret ())))"

definition DPUSetup :: "env \<Rightarrow> ((string \<times> DevlinkPort) list \<Rightarrow> (string \<times> DevlinkPort) list) \<Rightarrow> unit io" where
  "DPUSetup E order =
     bind (attempt (detectDPU E order)) (\<lambda>r. case r of
       Inl e \<Rightarrow>
         if contains (err_text e) ''executable file not found'' then ret ()
         else if contains (err_text e) ''Failed to connect to devlink Netlink'' then ret ()
         else fail e
     | Inr pci \<Rightarrow>
         if pci = [] then ret ()
         else bind (getDPUSerial E pci) (\<lambda>sn. setOVNDPUSerial E sn))"

section \<open>Lemmas\<close>

context trace_blind
begin

lemma keeps_dpu [keeps_rules]: "keeps P (DPUSetup E order)"
  unfolding DPUSetup_def detectDPU_def findDPUDevlink_def getDPUSerial_def setOVNDPUSerial_def Let_def
  by (intro keeps_rules keeps_run_cmd keeps_ctl)

end

text \<open>The device of a port, when its key has one.\<close>

definition pci_of :: "string \<Rightarrow> string option" where
  "pci_of key = (case split_on (CHR ''/'') key of _ # pci # _ \<Rightarrow> Some pci | _ \<Rightarrow> None)"

definition outcome_of :: "string option \<Rightarrow> string res" where
  "outcome_of p = (case p of None \<Rightarrow> Panic ''index out of range [1] with length 1'' | Some s \<Rightarrow> Ok s)"

lemma find_dpu: "findDPUDevlink ps w = ((case find (\<lambda>(key, port). dpu_port port) ps of
    None \<Rightarrow> Ok [] | Some (key, port) \<Rightarrow> outcome_of (pci_of key)), w)"
  by (simp add: findDPUDevlink_def pci_of_def outcome_of_def run split: option.splits list.splits)

lemma pci_of_None: "pci_of key = None \<longleftrightarrow> CHR ''/'' \<notin> set key"
proof
  assume none: "pci_of key = None"
  show "CHR ''/'' \<notin> set key"
  proof
    assume "CHR ''/'' \<in> set key"
    then obtain a b where "key = a @ CHR ''/'' # b" "CHR ''/'' \<notin> set a" by (metis split_list_first)
    then have "split_on (CHR ''/'') key = a # split_on (CHR ''/'') b" by (simp add: split_on_append_sep)
    with none show False by (auto simp: pci_of_def split: list.splits)
  qed
qed (simp add: pci_of_def split_on_no_sep)

lemma outcome_inj: "outcome_of a = outcome_of b \<longleftrightarrow> a = b"
  by (auto simp: outcome_of_def split: option.splits)

lemma find_first: "P x \<Longrightarrow> find P (x # xs) = Some x"
  by simp

lemma mset_to_front: "x \<in> set xs \<Longrightarrow> \<exists>ys. mset (x # ys) = mset xs"
proof -
  assume "x \<in> set xs"
  then obtain a b where "xs = a @ x # b" by (meson split_list)
  then have "mset (x # a @ b) = mset xs" by simp
  then show ?thesis by blast
qed

section \<open>Properties\<close>

text \<open>The device that is found does not depend on the order in which Go walks the map exactly when all
  ports that look like those of a DPU are on one device.\<close>

theorem findDPUDevlink_deterministic_iff:
  "(\<forall>qs. mset qs = mset ps \<longrightarrow> fst (findDPUDevlink qs w) = fst (findDPUDevlink ps w)) \<longleftrightarrow>
   (\<forall>(k, p) \<in> set ps. \<forall>(l, q) \<in> set ps. dpu_port p \<longrightarrow> dpu_port q \<longrightarrow> pci_of k = pci_of l)"
  (is "?same \<longleftrightarrow> ?one")
proof
  assume same: ?same
  have "fst (findDPUDevlink ps w) = outcome_of (pci_of k)" if p: "(k, p) \<in> set ps" "dpu_port p" for k p
  proof -
    obtain ys where ys: "mset ((k, p) # ys) = mset ps" using mset_to_front [OF p(1)] by blast
    with same have "fst (findDPUDevlink ((k, p) # ys) w) = fst (findDPUDevlink ps w)" by blast
    with p(2) show ?thesis by (simp add: find_dpu)
  qed
  then have "pci_of k = pci_of l" if "(k, p) \<in> set ps" "(l, q) \<in> set ps" "dpu_port p" "dpu_port q" for k l p q
    using that by (metis outcome_inj)
  then show ?one by blast
next
  assume one: ?one
  show ?same
  proof (intro allI impI)
    fix qs assume m: "mset qs = mset ps"
    then have s: "set qs = set ps" by (metis set_mset_mset)
    show "fst (findDPUDevlink qs w) = fst (findDPUDevlink ps w)"
    proof (cases "find (\<lambda>(key, port). dpu_port port) ps")
      case None
      then have "find (\<lambda>(key, port). dpu_port port) qs = None" using s by (simp add: find_None_iff)
      with None show ?thesis by (simp add: find_dpu)
    next
      case (Some kp)
      with find_SomeD [OF Some] s have "find (\<lambda>(key, port). dpu_port port) qs \<noteq> None"
        by (cases kp) (auto simp: find_None_iff)
      then obtain lq where q: "find (\<lambda>(key, port). dpu_port port) qs = Some lq" by blast
      from find_SomeD [OF Some] find_SomeD [OF q] s one have "pci_of (fst kp) = pci_of (fst lq)"
        by (auto simp: case_prod_beta)
      with Some q show ?thesis by (simp add: find_dpu case_prod_beta)
    qed
  qed
qed

text \<open>The key that \<open>set\<close> assigns in an argument \<open>external-ids:key=value\<close>.\<close>

definition assigned_key :: "string \<Rightarrow> string option" where
  "assigned_key arg = (case cut (CHR '':'') arg of None \<Rightarrow> None
     | Some (_, rest) \<Rightarrow> map_option fst (cut (CHR ''='') rest))"

text \<open>How \<open>ovs-vsctl get\<close> prints a value: bare when it has no special character, else quoted.\<close>

definition printed_value :: "string \<Rightarrow> bool" where
  "printed_value out \<longleftrightarrow> out \<noteq> [] \<and> (CHR ''='' \<notin> set out \<or> hd out = CHR 0x22)"

lemma cut_eq: "cut c s = (if c \<in> set s then Some (takeWhile (\<lambda>x. x \<noteq> c) s, tl (dropWhile (\<lambda>x. x \<noteq> c) s)) else None)"
  by (induction s) (auto split: option.splits)

lemma assigned_key_ids: "assigned_key (''external-ids:'' @ x) = map_option fst (cut (CHR ''='') x)"
  by (simp add: assigned_key_def)

lemma last_set_args: "last (set_args out serial) = ''external-ids:'' @ serial_ids out serial"
  by (simp add: set_args_def)

lemma cms_option_key: "cut (CHR ''='') (cms_option serial) = Some (''ovn-cms-options'', ''card-serial-number='' @ serial)"
  by (simp add: cms_option_def)

text \<open>The serial number is published under the key ovn-cms-options only when the key had no value: with
  a value in place the argument given to ovs-vsctl assigns another key.\<close>

theorem serial_published_iff_no_value:
  assumes "out = [] \<or> printed_value out"
  shows "assigned_key (last (set_args out serial)) = Some ''ovn-cms-options'' \<longleftrightarrow> out = []"
proof (cases "out = []")
  case True
  then have "serial_ids out serial = cms_option serial" by (simp add: serial_ids_def)
  with True show ?thesis by (simp only: last_set_args assigned_key_ids cms_option_key) simp
next
  case False
  with assms have out: "CHR ''='' \<notin> set out \<or> hd out = CHR 0x22" by (simp add: printed_value_def)
  let ?x = "out @ CHR '','' # cms_option serial"
  have "CHR ''='' \<in> set ?x" by (simp add: cms_option_def)
  moreover have "serial_ids out serial = ?x" using False by (simp add: serial_ids_def)
  ultimately have key: "assigned_key (last (set_args out serial)) = Some (takeWhile (\<lambda>x. x \<noteq> CHR ''='') ?x)"
    by (simp only: last_set_args assigned_key_ids cut_eq) simp
  have "takeWhile (\<lambda>x. x \<noteq> CHR ''='') ?x \<noteq> ''ovn-cms-options''"
  proof (cases "CHR ''='' \<in> set out")
    case True
    with out False show ?thesis by (cases out) auto
  next
    case no: False
    then have "takeWhile (\<lambda>x. x \<noteq> CHR ''='') ?x = out @ '',ovn-cms-options''"
      by (subst takeWhile_append2) (auto simp: cms_option_def)
    moreover have "CHR '','' \<notin> set ''ovn-cms-options''" by simp
    ultimately show ?thesis by (metis in_set_conv_decomp append_Cons)
  qed
  with key False show ?thesis by simp
qed

text \<open>A machine without devlink or without a DPU port starts as if there were no DPU support: the setup
  succeeds and runs no command but devlink's.\<close>

theorem DPUSetup_without_dpu:
  assumes out: "e_cmd E (w_trace w) [''devlink'', ''port'', ''show'', ''-jp''] = res"
    and none: "case res of Inl e \<Rightarrow> contains (err_text e) ''executable file not found''
      | Inr out \<Rightarrow> (\<exists>j ps. e_json_unmarshal E out = Inr j \<and> dec_DevlinkJSON j = Inr ps \<and>
           (\<forall>(k, p) \<in> set (order ps). \<not> dpu_port p))"
  shows "DPUSetup E order w = (Ok (), w\<lparr>w_trace := Cmd [''devlink'', ''port'', ''show'', ''-jp''] # w_trace w\<rparr>)"
proof (cases res)
  case (Inl e)
  with none have "contains (''failed to run devlink: '' @ err_text e) ''executable file not found''"
    using contains_append_right by fastforce
  with out Inl show ?thesis
    by (simp add: DPUSetup_def detectDPU_def seq run_run_cmd del: append.simps contains.simps)
next
  case (Inr out)
  with none obtain j ps where j: "e_json_unmarshal E out = Inr j" "dec_DevlinkJSON j = Inr ps"
    and no: "\<forall>(k, p) \<in> set (order ps). \<not> dpu_port p" by auto
  from no have "find (\<lambda>(key, port). dpu_port port) (order ps) = None" by (auto simp: find_None_iff)
  with j Inr assms(1) have
    "detectDPU E order w = (Ok [], w\<lparr>w_trace := Cmd [''devlink'', ''port'', ''show'', ''-jp''] # w_trace w\<rparr>)"
    by (simp add: detectDPU_def seq run_run_cmd find_dpu)
  then show ?thesis by (simp add: DPUSetup_def seq)
qed

text \<open>The serial number taken from lspci is non-empty and without surrounding white space, and it stands
  on the first line whose text begins with the label.\<close>

theorem parseLspciSerial_spec:
  assumes "parseLspciSerial out = s" and "s \<noteq> []"
  shows "trim_space s = s \<and> (\<exists>before l after. split_on (CHR 0x0A) out = before @ l # after \<and>
    (\<forall>x \<in> set before. \<not> prefix sn_prefix (trim_space x)) \<and> prefix sn_prefix (trim_space l) \<and>
    s = trim_space (drop (length sn_prefix) (trim_space l)))"
proof -
  have "serial_in ls = s \<Longrightarrow> s \<noteq> [] \<Longrightarrow> trim_space s = s \<and> (\<exists>before l after. ls = before @ l # after \<and>
    (\<forall>x \<in> set before. \<not> prefix sn_prefix (trim_space x)) \<and> prefix sn_prefix (trim_space l) \<and>
    s = trim_space (drop (length sn_prefix) (trim_space l)))" for ls
  proof (induction ls)
    case (Cons l ls)
    show ?case
    proof (cases "prefix sn_prefix (trim_space l)")
      case True
      then obtain r where r: "trim_space l = sn_prefix @ r" by (auto elim: prefixE)
      have "cut (CHR '':'') (sn_prefix @ r) = Some (butlast sn_prefix, r)" by (simp add: sn_prefix_def)
      with r True Cons.prems have "s = trim_space (drop (length sn_prefix) (trim_space l))" by (simp add: Let_def)
      with True show ?thesis
        by (intro conjI exI [of _ "[]"] exI [of _ l] exI [of _ ls]) (simp_all add: trim_by_idem)
    next
      case False
      with Cons obtain before l' after where "trim_space s = s" "ls = before @ l' # after"
        "\<forall>x \<in> set before. \<not> prefix sn_prefix (trim_space x)" "prefix sn_prefix (trim_space l')"
        "s = trim_space (drop (length sn_prefix) (trim_space l'))" by (auto simp: Let_def)
      with False show ?thesis
        by (intro conjI exI [of _ "l # before"] exI [of _ l'] exI [of _ after]) simp_all
    qed
  qed simp
  with assms show ?thesis by (simp add: parseLspciSerial_def)
qed

section \<open>The properties at a concrete input\<close>

theorem serial_published_witness: "assigned_key (last (set_args ''a'' ''MT1'')) \<noteq> Some ''ovn-cms-options''"
  using serial_published_iff_no_value [of "''a''" "''MT1''"] by (simp add: printed_value_def)

theorem DPUSetup_without_dpu_witness:
  "fst (DPUSetup (sample_env\<lparr>e_cmd := (\<lambda>t argv. Inl (ErrS ''executable file not found''))\<rparr>) id sample_world) = Ok ()"
proof -
  let ?E = "sample_env\<lparr>e_cmd := (\<lambda>t argv. Inl (ErrS ''executable file not found''))\<rparr>"
  have "e_cmd ?E (w_trace sample_world) [''devlink'', ''port'', ''show'', ''-jp''] = Inl (ErrS ''executable file not found'')"
    by simp
  from DPUSetup_without_dpu [OF this, of id] show ?thesis by simp
qed

theorem parseLspciSerial_spec_witness:
  "parseLspciSerial ('' [SN] Serial number: MT1'' @ [CHR 0x0A]) = ''MT1'' \<and> trim_space ''MT1'' = ''MT1''"
proof -
  have p: "parseLspciSerial ('' [SN] Serial number: MT1'' @ [CHR 0x0A]) = ''MT1''"
    by (simp add: parseLspciSerial_def sn_prefix_def trim_by_def is_space_def Let_def)
  from parseLspciSerial_spec [OF p] p show ?thesis by simp
qed

end
