(* ===== verification/Lifecycle.thy ===== *)
theory Lifecycle
  imports BgpApi Upgrade Dpu
begin

text \<open>
  Package \<open>ovn\<close> (ovn/ovn.go, bootstrap.go, join.go, leave.go, refresh.go, start.go): the hooks of the
  daemon for the first member, for a joining and a leaving member, for a change of the central members
  and for the start of the daemon. The options of a hook are a map that Go walks in an order of its own:
  they are given as a list in that order. The hooks hold a lock, so each runs by itself.
\<close>

section \<open>Requested services\<close>

record requestedServices =
  Central :: bool
  Chassis :: bool
  Switch :: bool

text \<open>The loop remembers the last invalid name; the callers drop the services when there is one.\<close>

fun requested_loop :: "string list \<Rightarrow> goerr option \<Rightarrow> requestedServices \<Rightarrow> goerr + requestedServices" where
  "requested_loop [] err r = (case err of None \<Rightarrow> Inr r | Some e \<Rightarrow> Inl e)"
| "requested_loop (srv # rest) err r =
     (if srv = ''central'' then requested_loop rest err (r\<lparr>Central := True\<rparr>)
      else if srv = ''chassis'' then requested_loop rest err (r\<lparr>Chassis := True\<rparr>)
      else if srv = ''switch'' then requested_loop rest err (r\<lparr>Switch := True\<rparr>)
      else requested_loop rest (Some (ErrS (''invalid service requested: '' @ srv))) r)"

definition newRequestedServices :: "string \<Rightarrow> goerr + requestedServices" where
  "newRequestedServices initString =
     requested_loop (split_on (CHR '','') initString) None \<lparr>Central = False, Chassis = False, Switch = False\<rparr>"

definition parse_services :: "string \<Rightarrow> requestedServices \<Rightarrow> requestedServices io" where
  "parse_services v r =
     (if v \<noteq> ''auto''
      then on_err (wrapf ''failed to parse requested services: '') (of_sum (newRequestedServices v))
      else ret r)"

section \<open>Bootstrap\<close>

text \<open>The services, the encapsulation address, the CA certificate and its key.\<close>

type_synonym boot_options = "requestedServices \<times> string \<times> string \<times> string"

fun bootstrap_options :: "env \<Rightarrow> (string \<times> string) list \<Rightarrow> boot_options \<Rightarrow> boot_options io" where
  "bootstrap_options E [] opts = ret opts"
| "bootstrap_options E ((k, v) # rest) (srvs, ip, cert, key) =
     (if k = ''ovn-encap-ip'' then bootstrap_options E rest (srvs, v, cert, key)
      else if k = ''ovn-ca-cert'' then
        bind (on_err (wrapf ''failed to read CA certificate: '') (outside_ReadFile E v))
          (\<lambda>c. bootstrap_options E rest (srvs, ip, c, key))
      else if k = ''ovn-ca-key'' then
        bind (on_err (wrapf ''failed to read CA private key: '') (outside_ReadFile E v))
          (\<lambda>c. bootstrap_options E rest (srvs, ip, cert, c))
      else if k = ''ovn-services'' then
        bind (parse_services v srvs) (\<lambda>r. bootstrap_options E rest (r, ip, cert, key))
      else bootstrap_options E rest (srvs, ip, cert, key))"

definition client_certificate :: "env \<Rightarrow> unit io" where
  "client_certificate E =
     on_err (errf ''failed to generate TLS certificate for client: '')
       (GenerateNewServiceCertificate E ''client'' CertificateTypeServer)"

definition generate_configuration :: "env \<Rightarrow> unit io" where
  "generate_configuration E = on_err (wrapf ''failed to generate the daemon configuration: '') (GenerateEnvironment E)"

text \<open>The controller is told its name, the tunnel and the remote database.\<close>

definition configure_chassis :: "env \<Rightarrow> string \<Rightarrow> unit io" where
  "configure_chassis E encapIP =
     bind (on_err (errf ''error configuring OVS parameters: '')
       (VSCtl E [''set'', ''open_vswitch'', ''.'', ''external_ids:system-id='' @ e_name E,
          ''external_ids:ovn-encap-type=geneve'', ''external_ids:ovn-encap-ip='' @ encapIP])) (\<lambda>_.
     UpdateOvnControllerRemoteConfig E)"

definition start_requested :: "env \<Rightarrow> requestedServices \<Rightarrow> string \<Rightarrow> unit io \<Rightarrow> unit io" where
  "start_requested E srvs encapIP after_central =
     andthen (if Switch srvs then EnableService E SrvSwitch None else ret ())
     (andthen (if Central srvs
               then andthen (EnableService E SrvCentral None) (andthen (generate_configuration E) after_central)
               else ret ())
     (if Chassis srvs then andthen (EnableService E SrvChassis None) (configure_chassis E encapIP) else ret ()))"

text \<open>Extra steps at the end: the DPU, and BGP from the external IDs of the bridges.\<close>

definition finish_setup :: "env \<Rightarrow> ((string \<times> DevlinkPort) list \<Rightarrow> (string \<times> DevlinkPort) list) \<Rightarrow> unit io" where
  "finish_setup E order =
     andthen (DPUSetup E order)
     (on_err (wrapf ''failed to enable BGP from OVS external IDs: '') (EnableBgpFromOVSExternalIDs E))"

definition bootstrap_ca :: "env \<Rightarrow> string \<Rightarrow> string \<Rightarrow> unit io" where
  "bootstrap_ca E certPem keyPem =
     (if length certPem \<noteq> 0 \<and> length keyPem \<noteq> 0
      then bind (SetNewCACertificate E certPem keyPem) (\<lambda>_. ret ())
      else bind (GenerateNewCACertificate E) (\<lambda>_. ret ()))"

definition all_services :: requestedServices where
  "all_services = \<lparr>Central = True, Chassis = True, Switch = True\<rparr>"

definition Bootstrap :: "env \<Rightarrow> ((string \<times> DevlinkPort) list \<Rightarrow> (string \<times> DevlinkPort) list) \<Rightarrow>
    (string \<times> string) list \<Rightarrow> unit io" where
  "Bootstrap E order initConfig =
     andthen (CreatePaths E)
     (bind (bootstrap_options E initConfig (all_services, e_host E, [], [])) (\<lambda>(srvs, encapIP, certPem, keyPem).
      andthen (bootstrap_ca E certPem keyPem)
      (andthen (DumpCA E)
      (andthen (generate_configuration E)
      (andthen (client_certificate E)
      (andthen (start_requested E srvs encapIP (UpdateOvnListenConfig E))
      (finish_setup E order)))))))"

section \<open>Join\<close>

definition count_centrals :: "env \<Rightarrow> nat io" where
  "count_centrals E = transaction E
     (bind (GetServices E [\<lparr>sf_member = None, sf_service = Some ''central''\<rparr>]) (\<lambda>srvs. ret (length srvs)))"

fun join_options :: "(string \<times> string) list \<Rightarrow> requestedServices \<times> string \<Rightarrow> (requestedServices \<times> string) io" where
  "join_options [] opts = ret opts"
| "join_options ((k, v) # rest) (srvs, ip) =
     (if k = ''ovn-encap-ip'' then join_options rest (srvs, v)
      else if k = ''ovn-services'' then bind (parse_services v srvs) (\<lambda>r. join_options rest (r, ip))
      else join_options rest (srvs, ip))"

definition default_on_join :: "bool \<Rightarrow> nat \<Rightarrow> requestedServices" where
  "default_on_join externalOvnCentral srvCentral =
     \<lparr>Central = (\<not> externalOvnCentral \<and> srvCentral < 3), Chassis = True, Switch = True\<rparr>"

definition bgp_requested :: "config_item option \<Rightarrow> bool" where
  "bgp_requested item = (case item of None \<Rightarrow> False | Some i \<Rightarrow> ci_value i = ''true'')"

definition Join :: "env \<Rightarrow> ((string \<times> DevlinkPort) list \<Rightarrow> (string \<times> DevlinkPort) list) \<Rightarrow>
    (string \<times> string) list \<Rightarrow> unit io" where
  "Join E order initConfig =
     andthen (CreatePaths E)
     (bind (count_centrals E) (\<lambda>srvCentral.
      bind (IsExternalCentralConfigured E) (\<lambda>externalOvnCentral.
      bind (join_options initConfig (default_on_join externalOvnCentral srvCentral, e_host E)) (\<lambda>(srvs, encapIP).
      bind (GetConfig E BgpConfigKeyCluster) (\<lambda>bgpClusterItem.
      andthen (if bgp_requested bgpClusterItem then CheckBgpInterfaceFromClusterConfig E else ret ())
      (andthen (generate_configuration E)
      (andthen (client_certificate E)
      (andthen (DumpCA E)
      (andthen (start_requested E srvs encapIP (ret ()))
      (andthen (finish_setup E order)
      (andthen (if bgp_requested bgpClusterItem
         then on_err (wrapf ''failed to enable BGP on joining node: '') (EnableBgpOnNodeFromClusterConfig E)
         else ret ())
      (Log E CatAuthz EventAdminActivity [(''action'', JStr ''cluster_join''), (''node'', JStr (e_name E))]
         ''Node '%s' joined cluster'' [e_name E]))))))))))))"

section \<open>Leave, refresh and start\<close>

definition Leave :: "env \<Rightarrow> unit io" where
  "Leave E =
     andthen (Log E CatSys EventSysShutdown [(''node'', JStr (e_name E))]
       ''Node '%s' shutting down OVN services before departure'' [e_name E])
     (andthen (DisableAllServices E)
     (andthen (ignore_err (CleanupPaths E))
     (Log E CatAuthz EventAdminActivity [(''action'', JStr ''cluster_leave''), (''node'', JStr (e_name E))]
       ''Node '%s' left cluster'' [e_name E])))"

definition refresh :: "env \<Rightarrow> unit io" where
  "refresh E =
     andthen (CreatePaths E)
     (bind (HasServiceActive E SrvCentral) (\<lambda>hasCentral.
      bind (HasServiceActive E SrvSwitch) (\<lambda>hasSwitch.
      bind (HasServiceActive E SrvChassis) (\<lambda>hasChassis.
      andthen (generate_configuration E)
      (andthen (if hasCentral then on_err (wrapf ''failed to restart OVN northd: '') (Restart E ''ovn-northd'') else ret ())
      (andthen (if hasSwitch then UpdateOvnControllerRemoteConfig E else ret ())
      (if hasChassis
       then bind (on_err (\<lambda>_. ErrS ''failed to reset OVN chassis cluster state'')
              (AppCtl E ''ovn-controller'' [''sb-cluster-state-reset''])) (\<lambda>_. ret ())
       else ret ())))))))"

definition Refresh :: "env \<Rightarrow> unit io" where
  "Refresh E = ignore_err (refresh E)"

text \<open>The value is the list of the databases whose upgrade (\<open>UpgradeCentralDB\<close>) was started in a goroutine.\<close>

definition StartDaemon :: "env \<Rightarrow> OvsdbType list io" where
  "StartDaemon E =
     andthen (Log E CatSys EventSysStartup [(''node'', JStr (e_name E))]
       (''MicroOVN daemon starting on '%s'' @ [CHR 0x27]) [e_name E])
     (bind (reads (\<lambda>w. e_db_open E (w_trace w))) (\<lambda>offline.
     if offline \<noteq> None then ret []
     else
       andthen (CreatePaths E)
       (andthen (on_err (wrapf ''failed to enable required services: '') (ActivateEnabledServices E True))
       (andthen (generate_configuration E)
       (bind (on_err (wrapf ''failed to query local services: '') (HasServiceActive E ''central'')) (\<lambda>centralActive.
        andthen (if centralActive then ignore_err (UpdateOvnListenConfig E) else ret ())
        (andthen (UpdateOvnControllerRemoteConfig E)
        (andthen (ignore_err (run_cmd E [path_join [Wrappers E, ''refresh-expiring-certs'']]))
        (ret (if centralActive then [OvsdbTypeSBLocal, OvsdbTypeNBLocal] else []))))))))))"

definition start_entry :: "env \<Rightarrow> event list" where
  "start_entry E = log_entry E CatSys EventSysStartup [(''node'', JStr (e_name E))]
     (''MicroOVN daemon starting on '%s'' @ [CHR 0x27]) [e_name E]"

lemma StartDaemon_logged: "StartDaemon E w = bind (reads (\<lambda>w. e_db_open E (w_trace w))) (\<lambda>offline.
     if offline \<noteq> None then ret []
     else
       andthen (CreatePaths E)
       (andthen (on_err (wrapf ''failed to enable required services: '') (ActivateEnabledServices E True))
       (andthen (generate_configuration E)
       (bind (on_err (wrapf ''failed to query local services: '') (HasServiceActive E ''central'')) (\<lambda>centralActive.
        andthen (if centralActive then ignore_err (UpdateOvnListenConfig E) else ret ())
        (andthen (UpdateOvnControllerRemoteConfig E)
        (andthen (ignore_err (run_cmd E [path_join [Wrappers E, ''refresh-expiring-certs'']]))
        (ret (if centralActive then [OvsdbTypeSBLocal, OvsdbTypeNBLocal] else []))))))))) (with_log (start_entry E) w)"
  by (simp only: StartDaemon_def andthen_Log start_entry_def)

section \<open>The number of central members\<close>

lemma count_pairs:
  assumes "distinct (map (\<lambda>r. (sr_member r, sr_service r)) rs)"
  shows "length (filter (\<lambda>r. sr_service r = s) (filter (\<lambda>r. sr_member r = i) rs)) =
    (if \<exists>r \<in> set rs. sr_member r = i \<and> sr_service r = s then 1 else 0)"
  using assms by (induction rs) (auto simp: image_iff)

lemma length_filter_sorted: "length (filter P (map g (sort_key k xs))) = length (filter (\<lambda>x. P (g x)) xs)"
  by (simp add: filter_map filter_sort comp_def)

lemma count_services:
  assumes ok: "db_ok d"
  shows "length (select_services [\<lparr>sf_member = None, sf_service = Some s\<rparr>] d) = length (members_with s d)"
proof -
  have dist: "distinct (map (\<lambda>r. (sr_member r, sr_service r)) (services d))"
    using ok by (simp add: db_ok_def services_schema_def)
  have pairs: "length (filter (\<lambda>(m, r). sr_service r = s) [(m, r). m \<leftarrow> ms, r \<leftarrow> services d, sr_member r = m_id m]) =
      length (filter (\<lambda>m. \<exists>r \<in> set (services d). sr_member r = m_id m \<and> sr_service r = s) ms)" for ms
  proof (induction ms)
    case (Cons m ms)
    have "filter (\<lambda>(m, r). sr_service r = s) [(m, r). r \<leftarrow> rs, sr_member r = m_id m] =
        map (Pair m) (filter (\<lambda>r. sr_service r = s) (filter (\<lambda>r. sr_member r = m_id m) rs))" for rs :: "service_row list"
      by (induction rs) auto
    with Cons count_pairs [OF dist, of s "m_id m"] show ?case by simp
  qed simp
  have "(\<exists>r \<in> set (services d). sr_member r = m_id m \<and> sr_service r = s) \<longleftrightarrow> (m_name m, s) \<in> abs_services d"
    if m: "m \<in> set (members d)" for m
  proof -
    have same: "m' = m" if "m' \<in> set (members d)" "m_name m' = m_name m" for m'
      using ok that m by (auto simp: db_ok_def members_keys_def distinct_map inj_on_def)
    show ?thesis
    proof
      assume "\<exists>r \<in> set (services d). sr_member r = m_id m \<and> sr_service r = s"
      then show "(m_name m, s) \<in> abs_services d" unfolding abs_services_def using m by blast
    next
      assume "(m_name m, s) \<in> abs_services d"
      then obtain m' r where r: "m' \<in> set (members d)" "m_name m' = m_name m" "r \<in> set (services d)"
        "sr_member r = m_id m'" "sr_service r = s" unfolding abs_services_def by auto
      from same [OF r(1,2)] r(3-5) show "\<exists>r \<in> set (services d). sr_member r = m_id m \<and> sr_service r = s" by blast
    qed
  qed
  then have "filter (\<lambda>m. \<exists>r \<in> set (services d). sr_member r = m_id m \<and> sr_service r = s) (members d) = members_with s d"
    unfolding members_with_def by (intro filter_cong) auto
  moreover have "length (select_services [\<lparr>sf_member = None, sf_service = Some s\<rparr>] d) =
      length (filter (\<lambda>(m, r). sr_service r = s) [(m, r). m \<leftarrow> members d, r \<leftarrow> services d, sr_member r = m_id m])"
    unfolding select_services_def service_objects_def length_filter_sorted
    by (simp add: filter_matches_def case_prod_unfold)
  ultimately show ?thesis using pairs [of "members d"] by simp
qed

section \<open>Frame lemmas\<close>

context fs_blind
begin

lemma keeps_setup [keeps_rules]:
  "keeps P (CreatePaths E)" "keeps P (CleanupPaths E)" "keeps P (client_certificate E)"
  "keeps P (generate_configuration E)" "keeps P (configure_chassis E ip)" "keeps P (DPUSetup E order)"
  unfolding CreatePaths_def CleanupPaths_def gather_def join_errs_def client_certificate_def
    generate_configuration_def configure_chassis_def
  by (intro keeps_rules keeps_os keeps_GenerateNewServiceCertificate keeps_GenerateEnvironment keeps_ctl
      keeps_cluster keeps_dpu)+

lemma keeps_refresh [keeps_rules]: "keeps P (refresh E)" "keeps P (Refresh E)"
  unfolding Refresh_def refresh_def
  by (intro keeps_rules keeps_setup keeps_node_reads keeps_snap keeps_cluster keeps_ctl)+

end

lemma parse_services_world: "parse_services v s w = (r, w') \<Longrightarrow> w' = w"
  by (auto simp: parse_services_def on_err_def bind_def attempt_def of_sum_def ret_def fail_def
      split: if_splits sum.splits prod.splits res.splits)

lemma keeps_parse_services [keeps_rules]: "keeps P (parse_services v s)"
  by (rule keepsI) (auto dest: parse_services_world)

context trace_blind
begin

lemma keeps_options [keeps_rules]: "keeps P (bootstrap_options E cs opts)" "keeps P (join_options cs jopts)"
proof -
  show "keeps P (bootstrap_options E cs opts)"
  proof (induction E cs opts rule: bootstrap_options.induct)
    case (2 E k v rest srvs ip cert key)
    show ?case unfolding bootstrap_options.simps by (intro keeps_rules keeps_outside 2; assumption)
  qed (simp add: keeps_pure)
  show "keeps P (join_options cs jopts)"
  proof (induction cs jopts rule: join_options.induct)
    case (2 k v rest srvs ip)
    show ?case unfolding join_options.simps by (intro keeps_rules 2; assumption)
  qed (simp add: keeps_pure)
qed

lemma keeps_count [keeps_rules]: "keeps P (count_centrals E)"
  unfolding count_centrals_def
  by (intro keeps_rules keeps_transaction_read keeps_GetServices dbv.keeps_GetServices)

end

lemma db_keeps:
  "CreatePaths E w = (r, w') \<Longrightarrow> w_db w' = w_db w" "client_certificate E w = (r, w') \<Longrightarrow> w_db w' = w_db w"
  "generate_configuration E w = (r, w') \<Longrightarrow> w_db w' = w_db w"
  "configure_chassis E ip w = (r, w') \<Longrightarrow> w_db w' = w_db w" "DPUSetup E order w = (r, w') \<Longrightarrow> w_db w' = w_db w"
  "DumpCA E w = (r, w') \<Longrightarrow> w_db w' = w_db w" "UpdateOvnListenConfig E w = (r, w') \<Longrightarrow> w_db w' = w_db w"
  by (auto intro: keepsD [OF dbf.keeps_setup(1) refl] keepsD [OF dbf.keeps_setup(3) refl]
      keepsD [OF dbf.keeps_setup(4) refl] keepsD [OF dbf.keeps_setup(5) refl] keepsD [OF dbf.keeps_setup(6) refl]
      keepsD [OF dbf.keeps_DumpCA refl] keepsD [OF dbv.keeps_cluster(1) refl])

section \<open>Options\<close>

definition requested_by :: "(string \<rightharpoonup> string) \<Rightarrow> requestedServices \<Rightarrow> requestedServices" where
  "requested_by m d = (case m ''ovn-services'' of
       None \<Rightarrow> d
     | Some v \<Rightarrow> if v = ''auto'' then d else (case newRequestedServices v of Inl _ \<Rightarrow> d | Inr r \<Rightarrow> r))"

lemma parse_services_Ok: "parse_services v s w = (Ok r, w') \<Longrightarrow>
    r = (if v = ''auto'' then s else (case newRequestedServices v of Inl _ \<Rightarrow> s | Inr r \<Rightarrow> r))"
  by (auto simp: parse_services_def of_sum_def elim!: on_err_OkE split: if_splits sum.splits)

lemma bootstrap_options_Ok:
  assumes "distinct (map fst cs)" and "bootstrap_options E cs (s, ip, c, k) w = (Ok (s', rest), w')"
  shows "s' = requested_by (map_of cs) s"
  using assms
proof (induction cs arbitrary: s ip c k w)
  case (Cons kv cs)
  obtain a v where kv: "kv = (a, v)" by fastforce
  show ?case
  proof (cases "a = ''ovn-services''")
    case True
    with Cons.prems kv obtain r w1 where p: "parse_services v s w = (Ok r, w1)"
      and b: "bootstrap_options E cs (r, ip, c, k) w1 = (Ok (s', rest), w')" by (auto elim: bind_OkE)
    have "map_of cs a = None" using Cons.prems(1) kv by (simp add: map_of_eq_None_iff)
    with Cons.IH [OF _ b] Cons.prems(1) parse_services_Ok [OF p] kv True show ?thesis
      by (simp add: requested_by_def)
  next
    case False
    with Cons.prems kv obtain s1 where "bootstrap_options E cs (s, s1) w = (Ok (s', rest), w') \<or>
        (\<exists>w1. bootstrap_options E cs (s, s1) w1 = (Ok (s', rest), w'))"
      by (auto elim!: bind_OkE on_err_OkE split: if_splits)
    with Cons.IH Cons.prems(1) have "s' = requested_by (map_of cs) s" by (cases s1) auto
    with kv False show ?thesis by (simp add: requested_by_def)
  qed
qed (simp add: requested_by_def)

lemma join_options_Ok:
  assumes "distinct (map fst cs)" and "join_options cs (s, ip) w = (Ok (s', ip'), w')"
  shows "s' = requested_by (map_of cs) s"
  using assms
proof (induction cs arbitrary: s ip w)
  case (Cons kv cs)
  obtain a v where kv: "kv = (a, v)" by fastforce
  show ?case
  proof (cases "a = ''ovn-services''")
    case True
    with Cons.prems kv obtain r w1 where p: "parse_services v s w = (Ok r, w1)"
      and b: "join_options cs (r, ip) w1 = (Ok (s', ip'), w')" by (auto elim: bind_OkE)
    have "map_of cs a = None" using Cons.prems(1) kv by (simp add: map_of_eq_None_iff)
    with Cons.IH [OF _ b] Cons.prems(1) parse_services_Ok [OF p] kv True show ?thesis
      by (simp add: requested_by_def)
  next
    case False
    with Cons.prems kv obtain ip1 where "join_options cs (s, ip1) w = (Ok (s', ip'), w')"
      by (auto split: if_splits)
    with Cons.IH Cons.prems(1) have "s' = requested_by (map_of cs) s" by auto
    with kv False show ?thesis by (simp add: requested_by_def)
  qed
qed (simp add: requested_by_def)

lemma join_options_accepts:
  assumes "join_options cs opts w = (Ok x, w')" and "(''ovn-services'', v) \<in> set cs" and "v \<noteq> ''auto''"
  shows "\<exists>r. newRequestedServices v = Inr r"
  using assms
proof (induction cs opts arbitrary: w rule: join_options.induct)
  case (2 k a rest srvs ip)
  show ?case
  proof (cases "k = ''ovn-services''")
    case True
    with 2(4) obtain r w1 where p: "parse_services a srvs w = (Ok r, w1)" and rest: "join_options rest (r, ip) w1 = (Ok x, w')"
      by (auto elim: bind_OkE)
    from 2(5) True consider "v = a" | "(''ovn-services'', v) \<in> set rest" by auto
    then show ?thesis
    proof cases
      case 1
      with p 2(6) show ?thesis by (auto simp: parse_services_def of_sum_def elim!: on_err_OkE split: sum.splits)
    next
      case 2
      from "2.IH"(2) [OF _ True rest 2 \<open>v \<noteq> ''auto''\<close>] True show ?thesis by simp
    qed
  next
    case False
    with 2 show ?thesis by (auto split: if_splits)
  qed
qed simp

section \<open>What the hooks do to the registry\<close>

definition requested_set :: "requestedServices \<Rightarrow> string set" where
  "requested_set r = (if Switch r then {SrvSwitch} else {}) \<union> (if Central r then {SrvCentral} else {}) \<union>
     (if Chassis r then {SrvChassis} else {})"

lemma enable_if_Ok:
  assumes ok: "db_ok (w_db w)" and same: "\<And>w r w'. k w = (r, w') \<Longrightarrow> w_db w' = w_db w"
    and call: "(if b then andthen (EnableService E s None) k else ret ()) w = (Ok u, w')"
  shows "db_ok (w_db w') \<and> (b \<longrightarrow> (e_name E, s) \<notin> abs_services (w_db w)) \<and>
    abs_services (w_db w') = abs_services (w_db w) \<union> (if b then {(e_name E, s)} else {})"
proof (cases b)
  case True
  with call obtain u1 w1 where e: "EnableService E s None w = (Ok u1, w1)" and k: "k w1 = (Ok u, w')"
    by (auto elim: andthen_OkE)
  from mgr.enable_ok [OF ok e] mgr.enable_inv [OF ok e] same [OF k] True show ?thesis by auto
next
  case False
  with call ok show ?thesis by simp
qed

lemma start_requested_Ok:
  assumes ok: "db_ok (w_db w)" and same: "\<And>w r w'. after w = (r, w') \<Longrightarrow> w_db w' = w_db w"
    and call: "start_requested E r ip after w = (Ok u, w')"
  shows "db_ok (w_db w') \<and> abs_services (w_db w) \<inter> {e_name E} \<times> requested_set r = {} \<and>
    abs_services (w_db w') = abs_services (w_db w) \<union> {e_name E} \<times> requested_set r"
proof -
  have sw: "(if Switch r then EnableService E SrvSwitch None else ret ()) =
      (if Switch r then andthen (EnableService E SrvSwitch None) (ret ()) else ret ())"
    by (simp add: andthen_def)
  obtain u1 w1 u2 w2 where
    1: "(if Switch r then andthen (EnableService E SrvSwitch None) (ret ()) else ret ()) w = (Ok u1, w1)" and
    2: "(if Central r then andthen (EnableService E SrvCentral None) (andthen (generate_configuration E) after)
         else ret ()) w1 = (Ok u2, w2)" and
    3: "(if Chassis r then andthen (EnableService E SrvChassis None) (configure_chassis E ip) else ret ()) w2 = (Ok u, w')"
    using call unfolding start_requested_def sw by (elim andthen_OkE)
  have k: "andthen (generate_configuration E) after w = (r', w') \<Longrightarrow> w_db w' = w_db w" for w r' w'
  proof (cases "generate_configuration E" w rule: io_cases)
    case (Ok x w1)
    moreover assume "andthen (generate_configuration E) after w = (r', w')"
    ultimately have "after w1 = (r', w')" by (simp add: seq)
    from same [OF this] db_keeps(3) [OF Ok] show ?thesis by simp
  qed (use db_keeps(3) in \<open>auto simp: seq\<close>)
  have A: "db_ok (w_db w1)" "Switch r \<longrightarrow> (e_name E, SrvSwitch) \<notin> abs_services (w_db w)"
    "abs_services (w_db w1) = abs_services (w_db w) \<union> (if Switch r then {(e_name E, SrvSwitch)} else {})"
    using enable_if_Ok [OF ok _ 1] by simp_all
  have B: "db_ok (w_db w2)" "Central r \<longrightarrow> (e_name E, SrvCentral) \<notin> abs_services (w_db w1)"
    "abs_services (w_db w2) = abs_services (w_db w1) \<union> (if Central r then {(e_name E, SrvCentral)} else {})"
    using enable_if_Ok [OF A(1) k 2] by simp_all
  have C: "db_ok (w_db w')" "Chassis r \<longrightarrow> (e_name E, SrvChassis) \<notin> abs_services (w_db w2)"
    "abs_services (w_db w') = abs_services (w_db w2) \<union> (if Chassis r then {(e_name E, SrvChassis)} else {})"
    using enable_if_Ok [OF B(1) db_keeps(4) 3] by simp_all
  have "abs_services (w_db w) \<inter> {e_name E} \<times> requested_set r = {}"
    using A(2,3) B(2,3) C(2,3) by (auto simp: requested_set_def)
  moreover have "abs_services (w_db w') = abs_services (w_db w) \<union> {e_name E} \<times> requested_set r"
    unfolding A(3) B(3) C(3) by (auto simp: requested_set_def)
  ultimately show ?thesis using C(1) by blast
qed

text \<open>At the end BGP may have been added, if exactly one bridge asks for it.\<close>

lemma finish_setup_Ok:
  assumes ok: "db_ok (w_db w)" and call: "finish_setup E order w = (Ok u, w')"
  shows "db_ok (w_db w') \<and> configs (w_db w') = configs (w_db w) \<and>
    (abs_services (w_db w') = abs_services (w_db w) \<and>
       ((e_name E, SrvSwitch) \<notin> abs_services (w_db w) \<or>
        (\<exists>tr out. e_cmd E tr (''ovs-vsctl'' # default_timeout (find_bridge_args ovsBgpEnabledKey ''true'')) = Inr out \<and>
           bridge_names out = [])) \<or>
     abs_services (w_db w') = insert (e_name E, SrvBgp) (abs_services (w_db w)) \<and>
       (e_name E, SrvBgp) \<notin> abs_services (w_db w))"
proof -
  obtain u1 w1 where d: "DPUSetup E order w = (Ok u1, w1)" and e: "EnableBgpFromOVSExternalIDs E w1 = (Ok u, w')"
    using call unfolding finish_setup_def by (elim andthen_OkE on_err_OkE)
  have w1: "w_db w1 = w_db w" by (rule db_keeps(5) [OF d])
  with ok have ok1: "db_ok (w_db w1)" by simp
  have "db_ok (w_db w')" by (rule keepsD [OF keeps_enable_bgp(3) ok1 e])
  moreover have "configs (w_db w') = configs (w_db w1)" by (rule keepsD [OF keeps_enable_bgp(4) refl e])
  moreover have e': "EnableBgpFromOVSExternalIDs E w1 = (Ok (), w')" using e by simp
  ultimately show ?thesis using EnableBgpFromOVSExternalIDs_Ok [OF ok1 e'] w1 by auto
qed

lemma bootstrap_ca_keeps:
  assumes "db_ok (w_db w)" and "bootstrap_ca E c k w = (r, w')"
  shows "db_ok (w_db w') \<and> abs_services (w_db w') = abs_services (w_db w)"
proof -
  have "keeps (\<lambda>w. db_ok (w_db w)) (bootstrap_ca E c k)"
    "keeps (\<lambda>v. abs_services (w_db v) = abs_services (w_db w)) (bootstrap_ca E c k)"
    unfolding bootstrap_ca_def by (intro keeps_rules keeps_CA_ok keeps_CA_services)+
  with assms show ?thesis by (auto dest: keepsD)
qed

lemma count_centrals_Ok:
  assumes ok: "db_ok (w_db w)" and call: "count_centrals E w = (Ok n, w')"
  shows "n = length (members_with SrvCentral (w_db w)) \<and> w_db w' = w_db w"
proof -
  obtain w1 xs w2 where w1: "w_db w1 = w_db w"
    and g: "GetServices E [\<lparr>sf_member = None, sf_service = Some ''central''\<rparr>] w1 = (Ok xs, w2)" and n: "n = length xs"
    using call unfolding count_centrals_def by (elim transaction_OkE bind_OkE) auto
  have "w_db w' = w_db w" by (rule keepsD [OF dbv.keeps_count refl call])
  with GetServices_Ok [OF g] w1 n count_services [OF ok, of "''central''"] show ?thesis by (simp add: srv_defs)
qed

lemma requested_loop_Inr:
  "requested_loop xs err r = Inr r' \<longleftrightarrow> err = None \<and> set xs \<subseteq> {''central'', ''chassis'', ''switch''} \<and>
   r' = \<lparr>Central = (Central r \<or> ''central'' \<in> set xs), Chassis = (Chassis r \<or> ''chassis'' \<in> set xs),
         Switch = (Switch r \<or> ''switch'' \<in> set xs)\<rparr>"
  by (induction xs err r rule: requested_loop.induct) (auto split: option.splits)

lemma IsExternal_Ok:
  "db_ok (w_db w) \<Longrightarrow> IsExternalCentralConfigured E w = (Ok b, w') \<Longrightarrow>
   (b \<longleftrightarrow> abs_config (w_db w) ''ovn.central-ips'' \<noteq> None) \<and> w_db w' = w_db w"
proof -
  assume ok: "db_ok (w_db w)" and "IsExternalCentralConfigured E w = (Ok b, w')"
  then obtain c where c: "GetConfig E ''ovn.central-ips'' w = (Ok c, w')" and b: "b \<longleftrightarrow> c \<noteq> None"
    unfolding IsExternalCentralConfigured_def by (auto elim: bind_OkE)
  from GetConfig_Ok [OF ok c] have "map_option ci_value c = abs_config (w_db w) ''ovn.central-ips''" "w_db w' = w_db w"
    by simp_all
  moreover from this have "abs_config (w_db w) ''ovn.central-ips'' = None \<longleftrightarrow> c = None"
    by (metis option.map_disc_iff)
  ultimately show ?thesis using b by simp
qed

text \<open>The course of a successful \<open>Join\<close>.\<close>

lemma Join_course:
  assumes ok: "db_ok (w_db w)" and dist: "distinct (map fst initConfig)"
    and call: "Join E order initConfig w = (Ok (), w')"
  obtains r w1 w2 item w3 where
    "r = requested_by (map_of initConfig) (default_on_join (abs_config (w_db w) ''ovn.central-ips'' \<noteq> None)
       (length (members_with SrvCentral (w_db w))))"
    and "\<forall>v. map_of initConfig ''ovn-services'' = Some v \<longrightarrow> v \<noteq> ''auto'' \<longrightarrow> (\<exists>q. newRequestedServices v = Inr q)"
    and "bgp_requested item \<longleftrightarrow> abs_config (w_db w) BgpConfigKeyCluster = Some ''true''"
    and "abs_services (w_db w) \<inter> {e_name E} \<times> requested_set r = {}"
    and "db_ok (w_db w1)" and "abs_services (w_db w1) = abs_services (w_db w) \<union> {e_name E} \<times> requested_set r"
    and "finish_setup E order w1 = (Ok (), w2)" and "db_ok (w_db w2)"
    and "(if bgp_requested item then on_err (wrapf ''failed to enable BGP on joining node: '')
            (EnableBgpOnNodeFromClusterConfig E) else ret ()) w2 = (Ok (), w3)" and "w_db w' = w_db w3"
proof -
  obtain u1 w1 n w2 ext w3 r ip w4 item w5 u5 w6 u6 w7 u7 w8 u8 w9 u9 w10 u10 w11 w12 where
    1: "CreatePaths E w = (Ok u1, w1)" and 2: "count_centrals E w1 = (Ok n, w2)"
    and 3: "IsExternalCentralConfigured E w2 = (Ok ext, w3)"
    and 4: "join_options initConfig (default_on_join ext n, e_host E) w3 = (Ok (r, ip), w4)"
    and 5: "GetConfig E BgpConfigKeyCluster w4 = (Ok item, w5)"
    and 6: "(if bgp_requested item then CheckBgpInterfaceFromClusterConfig E else ret ()) w5 = (Ok u5, w6)"
    and 7: "generate_configuration E w6 = (Ok u6, w7)" and 8: "client_certificate E w7 = (Ok u7, w8)"
    and 9: "DumpCA E w8 = (Ok u8, w9)" and 10: "start_requested E r ip (ret ()) w9 = (Ok u9, w10)"
    and 11: "finish_setup E order w10 = (Ok u10, w11)"
    and 12: "(if bgp_requested item then on_err (wrapf ''failed to enable BGP on joining node: '')
            (EnableBgpOnNodeFromClusterConfig E) else ret ()) w11 = (Ok (), w12)" and w12: "w_db w' = w_db w12"
    using call unfolding Join_def case_prod_beta by (elim andthen_OkE bind_OkE) (auto simp: run)
  have d1: "w_db w1 = w_db w" by (rule db_keeps(1) [OF 1])
  with ok have "db_ok (w_db w1)" by simp
  from count_centrals_Ok [OF this 2] d1 have n: "n = length (members_with SrvCentral (w_db w))" and d2: "w_db w2 = w_db w"
    by simp_all
  with ok have "db_ok (w_db w2)" by simp
  from IsExternal_Ok [OF this 3] d2 have ext: "ext \<longleftrightarrow> abs_config (w_db w) ''ovn.central-ips'' \<noteq> None"
    and d3: "w_db w3 = w_db w" by simp_all
  have d4: "w_db w4 = w_db w" using keepsD [OF dbv.keeps_options(2) refl 4] d3 by simp
  with ok have "db_ok (w_db w4)" by simp
  from GetConfig_Ok [OF this 5] d4 have item: "map_option ci_value item = abs_config (w_db w) BgpConfigKeyCluster"
    and d5: "w_db w5 = w_db w" by simp_all
  have d6: "w_db w6 = w_db w" using 6 d5 keepsD [OF dbv.keeps_bgp_reads(1) refl] by (auto split: if_splits)
  have d9: "w_db w9 = w_db w" using db_keeps(3) [OF 7] db_keeps(2) [OF 8] db_keeps(6) [OF 9] d6 by simp
  with ok have ok9: "db_ok (w_db w9)" by simp
  have same: "ret () v = (q, v') \<Longrightarrow> w_db v' = w_db v" for q v v' by simp
  from start_requested_Ok [OF ok9 same 10] d9 have S: "db_ok (w_db w10)"
    "abs_services (w_db w) \<inter> {e_name E} \<times> requested_set r = {}"
    "abs_services (w_db w10) = abs_services (w_db w) \<union> {e_name E} \<times> requested_set r" by simp_all
  from finish_setup_Ok [OF S(1) 11] have "db_ok (w_db w11)" by blast
  moreover have "r = requested_by (map_of initConfig) (default_on_join ext n)" by (rule join_options_Ok [OF dist 4])
  moreover have "bgp_requested item \<longleftrightarrow> abs_config (w_db w) BgpConfigKeyCluster = Some ''true''"
    using item [symmetric] by (auto simp: bgp_requested_def split: option.splits)
  moreover have "\<forall>v. map_of initConfig ''ovn-services'' = Some v \<longrightarrow> v \<noteq> ''auto'' \<longrightarrow> (\<exists>q. newRequestedServices v = Inr q)"
    using join_options_accepts [OF 4 map_of_SomeD] by blast
  ultimately show ?thesis using that S n ext 11 12 w12 by simp
qed

lemma Bootstrap_Ok:
  assumes ok: "db_ok (w_db w)" and dist: "distinct (map fst initConfig)"
    and call: "Bootstrap E order initConfig w = (Ok (), w')"
  shows "db_ok (w_db w') \<and>
    abs_services (w_db w) \<inter> {e_name E} \<times> requested_set (requested_by (map_of initConfig) all_services) = {} \<and>
    (abs_services (w_db w') = abs_services (w_db w) \<union>
       {e_name E} \<times> requested_set (requested_by (map_of initConfig) all_services) \<or>
     abs_services (w_db w') = abs_services (w_db w) \<union>
       {e_name E} \<times> requested_set (requested_by (map_of initConfig) all_services) \<union> {(e_name E, SrvBgp)} \<and>
     (e_name E, SrvBgp) \<notin> abs_services (w_db w))"
proof -
  obtain u1 w1 r ip c k w2 u2 w3 u3 w4 u4 w5 u5 w6 u6 w7 where
    1: "CreatePaths E w = (Ok u1, w1)"
    and 2: "bootstrap_options E initConfig (all_services, e_host E, [], []) w1 = (Ok (r, ip, c, k), w2)"
    and 3: "bootstrap_ca E c k w2 = (Ok u2, w3)" and 4: "DumpCA E w3 = (Ok u3, w4)"
    and 5: "generate_configuration E w4 = (Ok u4, w5)" and 6: "client_certificate E w5 = (Ok u5, w6)"
    and 7: "start_requested E r ip (UpdateOvnListenConfig E) w6 = (Ok u6, w7)"
    and 8: "finish_setup E order w7 = (Ok (), w')"
    using call unfolding Bootstrap_def case_prod_beta by (elim andthen_OkE bind_OkE) auto
  have d2: "w_db w2 = w_db w" using db_keeps(1) [OF 1] keepsD [OF dbv.keeps_options(1) refl 2] by simp
  with ok have "db_ok (w_db w2)" by simp
  from bootstrap_ca_keeps [OF this 3] d2 have "db_ok (w_db w3)" "abs_services (w_db w3) = abs_services (w_db w)" by simp_all
  moreover have "w_db w6 = w_db w3" using db_keeps(6) [OF 4] db_keeps(3) [OF 5] db_keeps(2) [OF 6] by simp
  ultimately have ok6: "db_ok (w_db w6)" and a6: "abs_services (w_db w6) = abs_services (w_db w)" by simp_all
  from start_requested_Ok [OF ok6 db_keeps(7) 7] a6 have S: "db_ok (w_db w7)"
    "abs_services (w_db w) \<inter> {e_name E} \<times> requested_set r = {}"
    "abs_services (w_db w7) = abs_services (w_db w) \<union> {e_name E} \<times> requested_set r" by simp_all
  have r: "r = requested_by (map_of initConfig) all_services" by (rule bootstrap_options_Ok [OF dist 2])
  from finish_setup_Ok [OF S(1) 8] S(2,3) show ?thesis unfolding r by auto
qed

text \<open>The services a member asks for: the named ones, or the default.\<close>

lemma requested_set_by:
  assumes "\<forall>v. m ''ovn-services'' = Some v \<longrightarrow> v \<noteq> ''auto'' \<longrightarrow> (\<exists>q. newRequestedServices v = Inr q)"
  shows "requested_set (requested_by m d) = (case m ''ovn-services'' of
       None \<Rightarrow> requested_set d
     | Some v \<Rightarrow> if v = ''auto'' then requested_set d else set (split_on (CHR '','') v))"
proof (cases "m ''ovn-services''")
  case (Some v)
  show ?thesis
  proof (cases "v = ''auto''")
    case False
    from assms Some False obtain q where q: "newRequestedServices v = Inr q" by blast
    then have "requested_set q = set (split_on (CHR '','') v)"
      unfolding newRequestedServices_def requested_loop_Inr requested_set_def srv_defs
      by (intro set_eqI iffI) (auto split: if_splits)
    with Some False q show ?thesis by (simp add: requested_by_def)
  qed (simp add: Some requested_by_def)
qed (simp add: requested_by_def)

lemma requested_set_known: "requested_set r \<subseteq> {SrvSwitch, SrvCentral, SrvChassis}"
  by (auto simp: requested_set_def)

lemma requested_set_default:
  "requested_set (default_on_join x n) = {''switch'', ''chassis''} \<union> (if \<not> x \<and> n < 3 then {''central''} else {})"
  by (auto simp: requested_set_def default_on_join_def srv_defs)

lemma Join_Ok:
  assumes ok: "db_ok (w_db w)" and dist: "distinct (map fst initConfig)"
    and call: "Join E order initConfig w = (Ok (), w')"
  obtains r where "r = requested_by (map_of initConfig) (default_on_join (abs_config (w_db w) ''ovn.central-ips'' \<noteq> None)
       (length (members_with SrvCentral (w_db w))))"
    and "\<forall>v. map_of initConfig ''ovn-services'' = Some v \<longrightarrow> v \<noteq> ''auto'' \<longrightarrow> (\<exists>q. newRequestedServices v = Inr q)"
    and "abs_services (w_db w) \<inter> {e_name E} \<times> requested_set r = {}"
    and "abs_services (w_db w') = abs_services (w_db w) \<union> {e_name E} \<times> requested_set r \<and>
        abs_config (w_db w) BgpConfigKeyCluster \<noteq> Some ''true'' \<or>
      abs_services (w_db w') = abs_services (w_db w) \<union> {e_name E} \<times> requested_set r \<union> {(e_name E, SrvBgp)} \<and>
        (e_name E, SrvBgp) \<notin> abs_services (w_db w)"
proof -
  obtain r w1 w2 item w3 where
    r: "r = requested_by (map_of initConfig) (default_on_join (abs_config (w_db w) ''ovn.central-ips'' \<noteq> None)
       (length (members_with SrvCentral (w_db w))))"
    and acc: "\<forall>v. map_of initConfig ''ovn-services'' = Some v \<longrightarrow> v \<noteq> ''auto'' \<longrightarrow> (\<exists>q. newRequestedServices v = Inr q)"
    and item: "bgp_requested item \<longleftrightarrow> abs_config (w_db w) BgpConfigKeyCluster = Some ''true''"
    and new: "abs_services (w_db w) \<inter> {e_name E} \<times> requested_set r = {}"
    and ok1: "db_ok (w_db w1)" and s1: "abs_services (w_db w1) = abs_services (w_db w) \<union> {e_name E} \<times> requested_set r"
    and f: "finish_setup E order w1 = (Ok (), w2)" and ok2: "db_ok (w_db w2)"
    and b: "(if bgp_requested item then on_err (wrapf ''failed to enable BGP on joining node: '')
            (EnableBgpOnNodeFromClusterConfig E) else ret ()) w2 = (Ok (), w3)" and w3: "w_db w' = w_db w3"
    by (rule Join_course [OF ok dist call])
  have s2: "abs_services (w_db w2) = abs_services (w_db w1) \<or>
      abs_services (w_db w2) = insert (e_name E, SrvBgp) (abs_services (w_db w1)) \<and> (e_name E, SrvBgp) \<notin> abs_services (w_db w1)"
    using finish_setup_Ok [OF ok1 f] by blast
  have s3: "if bgp_requested item
      then abs_services (w_db w') = insert (e_name E, SrvBgp) (abs_services (w_db w2)) \<and> (e_name E, SrvBgp) \<notin> abs_services (w_db w2)
      else abs_services (w_db w') = abs_services (w_db w2)"
    using b w3 EnableBgpOnNode_Ok [OF ok2] by (auto elim!: on_err_OkE split: if_splits)
  show ?thesis
    using r acc new
  proof (rule that)
    show "abs_services (w_db w') = abs_services (w_db w) \<union> {e_name E} \<times> requested_set r \<and>
        abs_config (w_db w) BgpConfigKeyCluster \<noteq> Some ''true'' \<or>
      abs_services (w_db w') = abs_services (w_db w) \<union> {e_name E} \<times> requested_set r \<union> {(e_name E, SrvBgp)} \<and>
        (e_name E, SrvBgp) \<notin> abs_services (w_db w)"
      using s1 s2 s3 item by (auto split: if_splits)
  qed
qed

lemma StartDaemon_Ok:
  assumes call: "StartDaemon E w = (Ok ups, w')"
  shows "w_db w' = w_db w \<and>
    ups = (if e_db_open E (start_entry E @ w_trace w) = None \<and> (e_name E, SrvCentral) \<in> abs_services (w_db w)
           then [OvsdbTypeSBLocal, OvsdbTypeNBLocal] else [])"
proof (cases "e_db_open E (start_entry E @ w_trace w) = None")
  case False
  with call show ?thesis by (auto simp: StartDaemon_logged bind_def run)
next
  case True
  have "keeps (\<lambda>w. w_db w = d) (ActivateEnabledServices E True)" for d
    unfolding ActivateEnabledServices_def
    by (intro keeps_rules keeps_transaction_db dbv.keeps_GetServices dbv.keeps_activate)
  then have act: "ActivateEnabledServices E True v = (q, v') \<Longrightarrow> w_db v' = w_db v" for q v v'
    by (rule keepsD [OF _ refl])
  from call True obtain u1 w1 u2 w2 u3 w3 c w4 u5 w5 u6 w6 u7 where
    1: "CreatePaths E (with_log (start_entry E) w) = (Ok u1, w1)" and 2: "ActivateEnabledServices E True w1 = (Ok u2, w2)"
    and 3: "generate_configuration E w2 = (Ok u3, w3)" and 4: "HasServiceActive E ''central'' w3 = (Ok c, w4)"
    and 5: "(if c then ignore_err (UpdateOvnListenConfig E) else ret ()) w4 = (Ok u5, w5)"
    and 6: "UpdateOvnControllerRemoteConfig E w5 = (Ok u6, w6)"
    and 7: "ignore_err (run_cmd E [path_join [Wrappers E, ''refresh-expiring-certs'']]) w6 = (Ok u7, w')"
    and ups: "ups = (if c then [OvsdbTypeSBLocal, OvsdbTypeNBLocal] else [])"
    unfolding StartDaemon_logged by (auto elim!: bind_OkE andthen_OkE on_err_OkE)
  have "w_db w3 = w_db w" using db_keeps(1) [OF 1] act [OF 2] db_keeps(3) [OF 3] by simp
  with HasServiceActive_Ok [OF 4] have c: "c \<longleftrightarrow> (e_name E, SrvCentral) \<in> abs_services (w_db w)" and d4: "w_db w4 = w_db w"
    by (simp_all add: srv_defs)
  have "keeps (\<lambda>v. w_db v = w_db w) (if c then ignore_err (UpdateOvnListenConfig E) else ret ())"
    by (intro keeps_rules dbv.keeps_cluster)
  from keepsD [OF this d4 5] have "w_db w5 = w_db w" .
  from keepsD [OF dbv.keeps_cluster(2) this 6] have d6: "w_db w6 = w_db w" .
  have "keeps (\<lambda>v. w_db v = w_db w) (ignore_err (run_cmd E [path_join [Wrappers E, ''refresh-expiring-certs'']]))"
    by (intro keeps_rules dbv.keeps_run_cmd)
  from keepsD [OF this d6 7] c ups True show ?thesis by simp
qed

lemma Join_with_bgp_cluster:
  assumes ok: "db_ok (w_db w)" and dist: "distinct (map fst initConfig)"
    and cluster: "abs_config (w_db w) BgpConfigKeyCluster = Some ''true''"
    and sw: "map_of initConfig ''ovn-services'' \<in> {None, Some ''auto''}"
    and call: "Join E order initConfig w = (Ok (), w')"
  shows "(e_name E, SrvBgp) \<in> abs_services (w_db w') \<and>
    (\<exists>tr out. e_cmd E tr (''ovs-vsctl'' # default_timeout (find_bridge_args ovsBgpEnabledKey ''true'')) = Inr out \<and>
       bridge_names out = [])"
proof -
  obtain r w1 w2 item w3 where
    r: "r = requested_by (map_of initConfig) (default_on_join (abs_config (w_db w) ''ovn.central-ips'' \<noteq> None)
       (length (members_with SrvCentral (w_db w))))"
    and "\<forall>v. map_of initConfig ''ovn-services'' = Some v \<longrightarrow> v \<noteq> ''auto'' \<longrightarrow> (\<exists>q. newRequestedServices v = Inr q)"
    and item: "bgp_requested item \<longleftrightarrow> abs_config (w_db w) BgpConfigKeyCluster = Some ''true''"
    and "abs_services (w_db w) \<inter> {e_name E} \<times> requested_set r = {}"
    and ok1: "db_ok (w_db w1)" and s1: "abs_services (w_db w1) = abs_services (w_db w) \<union> {e_name E} \<times> requested_set r"
    and f: "finish_setup E order w1 = (Ok (), w2)" and ok2: "db_ok (w_db w2)"
    and b: "(if bgp_requested item then on_err (wrapf ''failed to enable BGP on joining node: '')
            (EnableBgpOnNodeFromClusterConfig E) else ret ()) w2 = (Ok (), w3)" and w3: "w_db w' = w_db w3"
    by (rule Join_course [OF ok dist call])
  from b item cluster have "EnableBgpOnNodeFromClusterConfig E w2 = (Ok (), w3)" by (auto elim: on_err_OkE)
  from EnableBgpOnNode_Ok [OF ok2 this] w3 have bgp: "(e_name E, SrvBgp) \<notin> abs_services (w_db w2)"
    "abs_services (w_db w') = insert (e_name E, SrvBgp) (abs_services (w_db w2))" by simp_all
  have "SrvSwitch \<in> requested_set r"
    using sw unfolding r by (auto simp: requested_by_def requested_set_def default_on_join_def)
  with s1 have "(e_name E, SrvSwitch) \<in> abs_services (w_db w1)" by simp
  with finish_setup_Ok [OF ok1 f] bgp show ?thesis by auto
qed

section \<open>Whatever the outcome\<close>

lemma np_EnableService_plain: "srv \<noteq> SrvBgp \<Longrightarrow> no_panic (EnableService E srv None)"
proof -
  assume "srv \<noteq> SrvBgp"
  then have "no_panic (start_service E srv None)"
    unfolding start_service_def by (simp add: np_rules)
  then show ?thesis unfolding EnableService_def start_or_rollback_def by (intro np_rules)
qed

text \<open>The registry has what it had, and perhaps services of this member.\<close>

definition grown :: "string \<Rightarrow> (string \<times> string) set \<Rightarrow> world \<Rightarrow> bool" where
  "grown me S w \<longleftrightarrow> db_ok (w_db w) \<and> S \<subseteq> abs_services (w_db w) \<and>
     abs_services (w_db w) \<subseteq> S \<union> {me} \<times> {SrvSwitch, SrvCentral, SrvChassis, SrvBgp}"

lemma keeps_grown_EnableService:
  assumes "no_panic (EnableService E srv c)" and "srv \<in> {SrvSwitch, SrvCentral, SrvChassis, SrvBgp}"
  shows "keeps (grown (e_name E) S) (EnableService E srv c)"
proof (rule keepsI)
  fix w r w' assume g: "grown (e_name E) S w" and call: "EnableService E srv c w = (r, w')"
  from g have ok: "db_ok (w_db w)" by (simp add: grown_def)
  have "db_ok (w_db w')" by (rule keepsD [OF keeps_services_ok(1) ok call])
  moreover have "abs_services (w_db w') = abs_services (w_db w) \<or>
      abs_services (w_db w') = insert (e_name E, srv) (abs_services (w_db w))"
  proof (cases r)
    case (Ok u)
    with EnableService_Ok [OF ok] call show ?thesis by blast
  next
    case (Er e)
    with EnableService_Er [OF ok] call show ?thesis by blast
  next
    case (Panic m)
    with call assms(1) show ?thesis by (blast dest: no_panicD)
  qed
  ultimately show "grown (e_name E) S w'" using g assms(2) by (auto simp: grown_def)
qed

lemma grown_same: "grown me S = (\<lambda>w. (\<lambda>d. db_ok d \<and> S \<subseteq> abs_services d \<and>
    abs_services d \<subseteq> S \<union> {me} \<times> {SrvSwitch, SrvCentral, SrvChassis, SrvBgp}) (w_db w))"
  by (rule ext) (simp add: grown_def)

interpretation grv: fs_blind "grown me S" for me S
  unfolding grown_same by unfold_locales simp_all

lemma keeps_grown_Log: "keeps (grown me S) (Log E c ev x f a)"
  by (simp add: keeps_def run grown_def)

lemma keeps_grown_parts:
  "keeps (grown (e_name E) S) (start_requested E r ip (UpdateOvnListenConfig E))"
  "keeps (grown (e_name E) S) (start_requested E r ip (ret ()))"
  "keeps (grown (e_name E) S) (finish_setup E order)" "keeps (grown (e_name E) S) (bootstrap_ca E c k)"
  "keeps (grown (e_name E) S) (EnableBgpOnNodeFromClusterConfig E)"
proof -
  have plain: "keeps (grown (e_name E) S) (EnableService E SrvSwitch None)"
    "keeps (grown (e_name E) S) (EnableService E SrvCentral None)"
    "keeps (grown (e_name E) S) (EnableService E SrvChassis None)"
    by (intro keeps_grown_EnableService np_EnableService_plain; simp add: srv_defs)+
  have bgp: "keeps (grown (e_name E) S) (EnableService E SrvBgp (Some cfg))" for cfg
    by (intro keeps_grown_EnableService np_EnableService; simp)
  show "keeps (grown (e_name E) S) (start_requested E r ip (UpdateOvnListenConfig E))"
    "keeps (grown (e_name E) S) (start_requested E r ip (ret ()))"
    unfolding start_requested_def by (intro keeps_rules plain grv.keeps_setup grv.keeps_cluster)+
  show "keeps (grown (e_name E) S) (finish_setup E order)"
    unfolding finish_setup_def EnableBgpFromOVSExternalIDs_def enable_on_bridge_def
    by (intro keeps_rules grv.keeps_setup grv.keeps_node_reads grv.keeps_bgp_reads bgp)
  show "keeps (grown (e_name E) S) (EnableBgpOnNodeFromClusterConfig E)"
    unfolding EnableBgpOnNodeFromClusterConfig_def Let_def
    by (intro keeps_rules grv.keeps_GetConfig grv.keeps_get_or_nil bgp)
  show "keeps (grown (e_name E) S) (bootstrap_ca E c k)"
  proof (rule keepsI)
    fix w r w' assume g: "grown (e_name E) S w" and call: "bootstrap_ca E c k w = (r, w')"
    then have "db_ok (w_db w)" by (simp add: grown_def)
    from bootstrap_ca_keeps [OF this call] g show "grown (e_name E) S w'" by (simp add: grown_def)
  qed
qed

lemma keeps_grown_hooks:
  "keeps (grown (e_name E) S) (Bootstrap E order cfg)" "keeps (grown (e_name E) S) (Join E order cfg)"
  unfolding Bootstrap_def Join_def
  by (intro keeps_rules keeps_grown_Log grv.keeps_setup grv.keeps_options grv.keeps_DumpCA grv.keeps_count
      grv.keeps_IsExternalCentralConfigured grv.keeps_GetConfig grv.keeps_bgp_reads keeps_grown_parts)+

lemma grown_refl: "db_ok (w_db w) \<Longrightarrow> grown me (abs_services (w_db w)) w"
  by (auto simp: grown_def)

section \<open>Properties\<close>

text \<open>A list of requested services is accepted exactly when it names only central, chassis and switch, and
  then each service is requested exactly when it is named.\<close>

theorem newRequestedServices_exact:
  "newRequestedServices v = Inr r \<longleftrightarrow>
   (let xs = set (split_on (CHR '','') v) in
    xs \<subseteq> {''central'', ''chassis'', ''switch''} \<and>
    r = \<lparr>Central = (''central'' \<in> xs), Chassis = (''chassis'' \<in> xs), Switch = (''switch'' \<in> xs)\<rparr>)"
  by (simp add: newRequestedServices_def requested_loop_Inr Let_def)

text \<open>C17: \<open>Bootstrap\<close> keeps the schema and takes no service away. When it succeeds the member has exactly the
  requested services besides those it had, none of which was enabled before, and perhaps BGP; when it fails
  or crashes, only services of this member may have been added.\<close>

theorem Bootstrap_outcome:
  assumes ok: "db_ok (w_db w)" and dist: "distinct (map fst initConfig)"
    and call: "Bootstrap E order initConfig w = (r, w')"
  shows "let old = abs_services (w_db w); new = abs_services (w_db w');
             S = {e_name E} \<times> requested_set (requested_by (map_of initConfig) all_services)
         in db_ok (w_db w') \<and> (case r of
              Ok _ \<Rightarrow> old \<inter> S = {} \<and> (new = old \<union> S \<or>
                new = old \<union> S \<union> {(e_name E, SrvBgp)} \<and> (e_name E, SrvBgp) \<notin> old)
            | _ \<Rightarrow> old \<subseteq> new \<and> new \<subseteq> old \<union> {e_name E} \<times> {SrvSwitch, SrvCentral, SrvChassis, SrvBgp})"
proof -
  from keepsD [OF keeps_grown_hooks(1) grown_refl [OF ok] call] have g: "grown (e_name E) (abs_services (w_db w)) w'" .
  show ?thesis
  proof (cases r)
    case (Ok u)
    with call have "Bootstrap E order initConfig w = (Ok (), w')" by simp
    from Bootstrap_Ok [OF ok dist this] show ?thesis unfolding Ok res.case Let_def .
  qed (use g in \<open>simp_all add: grown_def\<close>)
qed

text \<open>C18: \<open>Join\<close> keeps the schema. When it succeeds the member has exactly the services that were asked for
  besides those it had, none of which was enabled before: the named ones, which are then known ones, or else
  switch and chassis, and central exactly when no external central is configured and fewer than three members
  were centrals. BGP is added always when the cluster is set up for it, and otherwise at most for a bridge that
  asks for it. When \<open>Join\<close> fails or crashes, only services of this member may have been added.\<close>

theorem Join_outcome:
  assumes ok: "db_ok (w_db w)" and dist: "distinct (map fst initConfig)"
    and call: "Join E order initConfig w = (r, w')"
  shows "let old = abs_services (w_db w); new = abs_services (w_db w'); me = e_name E;
             default = {''switch'', ''chassis''} \<union>
               (if abs_config (w_db w) ''ovn.central-ips'' = None \<and>
                   card {m \<in> set (members (w_db w)). (m_name m, ''central'') \<in> old} < 3 then {''central''} else {});
             names = (case map_of initConfig ''ovn-services'' of
                 None \<Rightarrow> default | Some v \<Rightarrow> if v = ''auto'' then default else set (split_on (CHR '','') v));
             S = {me} \<times> names
         in db_ok (w_db w') \<and> (case r of
              Ok _ \<Rightarrow> names \<subseteq> {''switch'', ''central'', ''chassis''} \<and> old \<inter> S = {} \<and>
                (new = old \<union> S \<and> abs_config (w_db w) ''microovn-bgp-cluster'' \<noteq> Some ''true'' \<or>
                 new = old \<union> S \<union> {(me, ''bgp'')} \<and> (me, ''bgp'') \<notin> old)
            | _ \<Rightarrow> old \<subseteq> new \<and> new \<subseteq> old \<union> {me} \<times> {''switch'', ''central'', ''chassis'', ''bgp''})"
proof -
  from keepsD [OF keeps_grown_hooks(2) grown_refl [OF ok] call] have g: "grown (e_name E) (abs_services (w_db w)) w'" .
  show ?thesis
  proof (cases r)
    case (Ok u)
    with call have "Join E order initConfig w = (Ok (), w')" by simp
    from Join_Ok [OF ok dist this] obtain q where
      q: "q = requested_by (map_of initConfig) (default_on_join (abs_config (w_db w) ''ovn.central-ips'' \<noteq> None)
         (length (members_with SrvCentral (w_db w))))"
      and acc: "\<forall>v. map_of initConfig ''ovn-services'' = Some v \<longrightarrow> v \<noteq> ''auto'' \<longrightarrow> (\<exists>q. newRequestedServices v = Inr q)"
      and out: "abs_services (w_db w) \<inter> {e_name E} \<times> requested_set q = {}"
        "abs_services (w_db w') = abs_services (w_db w) \<union> {e_name E} \<times> requested_set q \<and>
          abs_config (w_db w) BgpConfigKeyCluster \<noteq> Some ''true'' \<or>
        abs_services (w_db w') = abs_services (w_db w) \<union> {e_name E} \<times> requested_set q \<union> {(e_name E, SrvBgp)} \<and>
          (e_name E, SrvBgp) \<notin> abs_services (w_db w)" by metis
    have count: "length (members_with SrvCentral (w_db w)) =
        card {m \<in> set (members (w_db w)). (m_name m, ''central'') \<in> abs_services (w_db w)}"
    proof -
      have "distinct (members (w_db w))"
        using ok by (auto simp: db_ok_def members_keys_def distinct_map)
      then have "distinct (members_with SrvCentral (w_db w))" by (simp add: members_with_def)
      from distinct_card [OF this] show ?thesis by (simp add: members_with_def SrvCentral_def)
    qed
    from requested_set_by [of "map_of initConfig", OF acc] have names: "requested_set q = (case map_of initConfig ''ovn-services'' of
        None \<Rightarrow> requested_set (default_on_join (abs_config (w_db w) ''ovn.central-ips'' \<noteq> None)
          (length (members_with SrvCentral (w_db w))))
      | Some v \<Rightarrow> if v = ''auto'' then requested_set (default_on_join (abs_config (w_db w) ''ovn.central-ips'' \<noteq> None)
          (length (members_with SrvCentral (w_db w)))) else set (split_on (CHR '','') v))"
      unfolding q .
    show ?thesis
      using g out requested_set_known [of q]
      unfolding names requested_set_default count not_not
      unfolding Ok res.case Let_def grown_def srv_defs BgpConfigKeyCluster_def by blast
  qed (use g in \<open>simp_all add: grown_def Let_def srv_defs\<close>)
qed

text \<open>While the cluster is set up for BGP, a member whose switch has a bridge that asks for BGP cannot join.\<close>

theorem Join_rejects_bgp_bridge:
  assumes ok: "db_ok (w_db w)" and dist: "distinct (map fst initConfig)"
    and cluster: "abs_config (w_db w) BgpConfigKeyCluster = Some ''true''"
    and sw: "map_of initConfig ''ovn-services'' \<in> {None, Some ''auto''}"
    and bridge: "\<And>tr out. e_cmd E tr (''ovs-vsctl'' # default_timeout (find_bridge_args ovsBgpEnabledKey ''true'')) = Inr out
      \<Longrightarrow> bridge_names out \<noteq> []"
  shows "fst (Join E order initConfig w) \<noteq> Ok ()"
proof
  assume "fst (Join E order initConfig w) = Ok ()"
  then have "Join E order initConfig w = (Ok (), snd (Join E order initConfig w))" by (metis prod.collapse)
  from Join_with_bgp_cluster [OF ok dist cluster sw this] bridge show False by blast
qed

text \<open>C14: Starting the daemon never changes the tables and never crashes; when it succeeds it has started the
  upgrade of both central databases exactly when the cluster database is open and the member runs the
  central service.\<close>

theorem StartDaemon_outcome:
  assumes call: "StartDaemon E w = (r, w')"
  shows "w_db w' = w_db w \<and> (case r of
      Ok ups \<Rightarrow> ups = (if e_db_open E (start_entry E @ w_trace w) = None \<and> (e_name E, SrvCentral) \<in> abs_services (w_db w)
                     then [OvsdbTypeSBLocal, OvsdbTypeNBLocal] else [])
    | Er _ \<Rightarrow> e_db_open E (start_entry E @ w_trace w) = None
    | Panic _ \<Rightarrow> False)"
proof -
  have act: "keeps (\<lambda>v. w_db v = w_db w) (ActivateEnabledServices E True)"
    unfolding ActivateEnabledServices_def
    by (intro keeps_rules keeps_transaction_db dbv.keeps_GetServices dbv.keeps_activate)
  have "keeps (\<lambda>v. w_db v = w_db w) (StartDaemon E)"
    unfolding StartDaemon_def
    by (intro keeps_rules dbf.keeps_setup act dbv.keeps_node_reads dbv.keeps_cluster dbv.keeps_run_cmd dbv.keeps_Log)
  from keepsD [OF this refl call] have db: "w_db w' = w_db w" .
  have np: "no_panic (StartDaemon E)"
    unfolding StartDaemon_def generate_configuration_def by (intro np_rules)
  show ?thesis
  proof (cases r)
    case (Ok ups)
    from StartDaemon_Ok [OF call [unfolded Ok]] show ?thesis unfolding Ok res.case .
  next
    case (Er e)
    then have "e_db_open E (start_entry E @ w_trace w) = None" using call
      by (cases "e_db_open E (start_entry E @ w_trace w)") (auto simp: StartDaemon_logged bind_def run)
    with db Er show ?thesis by simp
  next
    case (Panic m)
    with np call show ?thesis by (blast dest: no_panicD)
  qed
qed

definition wait_switch_cmd :: "env \<Rightarrow> string list" where
  "wait_switch_cmd E = [''ovsdb-client'', ''--timeout'', show_nat DefaultDBConnectWait, ''wait'',
     ''unix:'' @ OvsDatabaseSock E, ''Open_vSwitch'', OvsdbConnected]"

lemma VSCtl_needs_switch:
  assumes "\<And>tr. \<exists>e. e_cmd E tr (wait_switch_cmd E) = Inl e"
  shows "\<exists>e w'. VSCtl E args w = (Er e, w')"
proof -
  obtain e where "e_cmd E (w_trace w) (wait_switch_cmd E) = Inl e" using assms by blast
  then show ?thesis
    by (simp add: VSCtl_def NewOvsdbSpec_def WaitForDBState_def wait_switch_cmd_def seq_then on_err_def attempt_def
        bind_def run run_run_cmd)
qed

text \<open>The start of the daemon depends on the local switch: while the local Open vSwitch database cannot be
  reached it fails, and no schema upgrade is started even on a member that runs only the central service.\<close>

theorem Start_needs_local_switch:
  assumes down: "\<And>tr. \<exists>e. e_cmd E tr (wait_switch_cmd E) = Inl e" and up: "e_db_open E (start_entry E @ w_trace w) = None"
  shows "\<exists>e w'. StartDaemon E w = (Er e, w')"
proof -
  have np: "no_panic (StartDaemon E)"
    unfolding StartDaemon_def generate_configuration_def by (intro np_rules)
  have "UpdateOvnControllerRemoteConfig E v \<noteq> (Ok u, v')" for v u v'
  proof
    assume "UpdateOvnControllerRemoteConfig E v = (Ok u, v')"
    then obtain args out v1 v2 where "VSCtl E args v1 = (Ok out, v2)"
      unfolding UpdateOvnControllerRemoteConfig_def
      by (elim bind_OkE on_err_OkE) (auto split: if_splits)
    moreover from VSCtl_needs_switch [OF down] obtain e v3 where "VSCtl E args v1 = (Er e, v3)" by blast
    ultimately show False by simp
  qed
  then have "StartDaemon E w \<noteq> (Ok ups, w')" for ups w'
    using up unfolding StartDaemon_logged by (auto elim!: bind_OkE andthen_OkE)
  with np show ?thesis by (cases "StartDaemon E" w rule: io_cases) (auto dest: no_panicD)
qed

section \<open>The properties at a concrete input\<close>

theorem Bootstrap_outcome_witness:
  "db_ok (w_db (snd (Bootstrap sample_env id [(''ovn-services'', ''central'')] world_with_env)))"
  using Bootstrap_outcome [OF db_ok_sample(2) _ prod.collapse [symmetric], of "[(''ovn-services'', ''central'')]"]
  by (simp add: Let_def)

theorem Join_outcome_witness:
  "abs_services (w_db world_with_central) \<subseteq> abs_services (w_db (snd (Join sample_env id [] world_with_central)))"
  using Join_outcome [OF db_ok_central _ prod.collapse [symmetric], of "[]" sample_env id]
  by (auto simp: Let_def split: res.splits)

text \<open>A cluster set up for BGP, and a member on which every command prints the name of a bridge.\<close>

definition world_with_bgp :: world where
  "world_with_bgp = sample_world\<lparr>w_db := sample_db\<lparr>configs :=
     [\<lparr>cr_id = 1, cr_key = BgpConfigKeyCluster, cr_value = ''true''\<rparr>], next_config := 2\<rparr>\<rparr>"

lemma db_ok_bgp [simp]: "db_ok (w_db world_with_bgp)"
  by (simp add: world_with_bgp_def sample_world_def sample_db_def db_ok_def members_keys_def
      services_schema_def config_schema_def)

theorem Join_rejects_bgp_bridge_witness:
  "fst (Join (sample_env\<lparr>e_cmd := (\<lambda>t argv. Inr ''br0'')\<rparr>) id [] world_with_bgp) \<noteq> Ok ()"
proof (rule Join_rejects_bgp_bridge)
  show "abs_config (w_db world_with_bgp) BgpConfigKeyCluster = Some ''true''"
    by (simp add: world_with_bgp_def abs_config_def)
qed (auto simp: bridge_names_def trim_by_def is_space_def)

theorem StartDaemon_outcome_witness:
  "w_db (snd (StartDaemon sample_env world_with_central)) = w_db world_with_central"
  using StartDaemon_outcome [OF prod.collapse [symmetric], of sample_env world_with_central] by blast

theorem Start_needs_local_switch_witness: "\<exists>e w'. StartDaemon dead_env world_with_central = (Er e, w')"
  by (rule Start_needs_local_switch) (simp_all add: dead_env_def sample_env_def)

end
