(* ===== verification/ConfigApi.thy ===== *)
theory ConfigApi
  imports Lifecycle
begin

text \<open>
  The endpoints of the cluster-wide configuration (api/config/config.go) and of the environment of all
  members (api/refresh.go), with the validation of the option \<open>ovn.central-ips\<close> and the handler that
  applies a change of it.
\<close>

section \<open>Regenerating the environment\<close>

definition refresh_member :: "env \<Rightarrow> peer \<Rightarrow> string list \<Rightarrow> string list io" where
  "refresh_member E c errs =
     bind (attempt (c_RegenerateEnvironment E (p_url c))) (\<lambda>r.
     ret (case r of
        Inl e \<Rightarrow> errs @ [''Failed to contact cluster member with address '' @ quoted (p_url c) @ '': '' @ err_text e]
      | Inr _ \<Rightarrow> errs))"

definition regenerateEnvPost :: "env \<Rightarrow> bool \<Rightarrow> RegenerateEnvResponse response io" where
  "regenerateEnvPost E notification =
     (if \<not> notification then
        or_resp (\<lambda>_. SyncResponse False (NewRegenerateEnvResponse\<lparr>Env_Success := False\<rparr>)) (peers E True) (\<lambda>cluster.
        bind (fold_io (refresh_member E) cluster (Env_Errors NewRegenerateEnvResponse)) (\<lambda>errs.
        andthen (Refresh E)
        (ret (SyncResponse True \<lparr>Env_Success = True, Env_Errors = errs\<rparr>))))
      else andthen (Refresh E) (ret (SyncResponse True NewRegenerateEnvResponse)))"

section \<open>The known options\<close>

text \<open>A handler applies a change of the option, a validator checks a value before it is stored.\<close>

record spec =
  spec_Key :: string
  spec_Handler :: "(env \<Rightarrow> string \<Rightarrow> string \<Rightarrow> unit io) option"
  spec_Validator :: "(string \<Rightarrow> goerr option) option"

fun check_ips :: "string list \<Rightarrow> goerr option" where
  "check_ips [] = None"
| "check_ips (ip # ips) =
     (if \<not> valid_ip ip then Some (ErrS (''cannot parse IP address '' @ squoted ip)) else check_ips ips)"

definition validateOvnCentralIps :: "string \<Rightarrow> goerr option" where
  "validateOvnCentralIps v =
     (let ips = split_on (CHR '','') v in
      if v = [] \<or> length ips = 0 then Some (ErrS ''no IPs provided'') else check_ips ips)"

definition apply_failed :: "string \<Rightarrow> string \<Rightarrow> goerr" where
  "apply_failed key advice = ErrS (''handling of '' @ squoted key @
     '' config failed. Failed to trigger environment update in the OVN cluster. '' @ advice @
     '' Please see logs for more details.'')"

definition ovnCentralIpsUpdated :: "env \<Rightarrow> string \<Rightarrow> string \<Rightarrow> unit io" where
  "ovnCentralIpsUpdated E key _ =
     bind (attempt (leader E)) (\<lambda>r. case r of
       Inl _ \<Rightarrow> fail (apply_failed key ''Config value was not successfully applied.'')
     | Inr client \<Rightarrow>
         bind (attempt (c_RegenerateEnvironment E client)) (\<lambda>r. case r of
           Inl _ \<Rightarrow> fail (apply_failed key ''Cluster may be in inconsistent state!'')
         | Inr refreshResponse \<Rightarrow>
             if \<not> Env_Success refreshResponse then fail (apply_failed key ''Cluster may be in inconsistent state!'')
             else ret ()))"

definition AllowedConfigKeys :: "spec list" where
  "AllowedConfigKeys =
     [\<lparr>spec_Key = ''ovn.central-ips'', spec_Handler = Some ovnCentralIpsUpdated,
       spec_Validator = Some validateOvnCentralIps\<rparr>]"

section \<open>Parsing a request\<close>

text \<open>
  The key and, for a request to set an option, the value to validate. The decoder is given the address
  of an interface value that holds the request: a \<open>null\<close> replaces it by nil, which is no request type.
\<close>

definition decode_request :: "(json \<Rightarrow> goerr + 'a) \<Rightarrow> goerr + json \<Rightarrow> goerr + 'a" where
  "decode_request dec body =
     (case body of
        Inl e \<Rightarrow> Inl (errf ''failed to decode config request: '' e)
      | Inr j \<Rightarrow>
          if j = JNull then Inl (ErrS ''unknown config request type'')
          else (case dec j of Inl e \<Rightarrow> Inl (errf ''failed to decode config request: '' e) | Inr x \<Rightarrow> Inr x))"

fun find_handler :: "string \<Rightarrow> string option \<Rightarrow> spec list \<Rightarrow>
    goerr + (env \<Rightarrow> string \<Rightarrow> string \<Rightarrow> unit io) option" where
  "find_handler key val [] = Inl (ErrS (''config key '' @ squoted key @ '' is not a recognized config option''))"
| "find_handler key val (keySpec # rest) =
     (if spec_Key keySpec = key then
        (case (val, spec_Validator keySpec) of
           (Some v, Some validate) \<Rightarrow>
             (case validate v of
                Some e \<Rightarrow> Inl (errf (''configuration for key '' @ squoted key @ '' not valid: '') e)
              | None \<Rightarrow> Inr (spec_Handler keySpec))
         | _ \<Rightarrow> Inr (spec_Handler keySpec))
      else find_handler key val rest)"

definition parse_set :: "goerr + json \<Rightarrow> goerr + SetConfigRequest \<times> (env \<Rightarrow> string \<Rightarrow> string \<Rightarrow> unit io) option" where
  "parse_set body =
     (case decode_request dec_SetConfigRequest body of
        Inl e \<Rightarrow> Inl e
      | Inr req \<Rightarrow> map_sum id (Pair req) (find_handler (Set_Key req) (Some (Set_Value req)) AllowedConfigKeys))"

definition parse_get :: "goerr + json \<Rightarrow> goerr + GetConfigRequest \<times> (env \<Rightarrow> string \<Rightarrow> string \<Rightarrow> unit io) option" where
  "parse_get body =
     (case decode_request dec_GetConfigRequest body of
        Inl e \<Rightarrow> Inl e
      | Inr req \<Rightarrow> map_sum id (Pair req) (find_handler (Get_Key req) None AllowedConfigKeys))"

section \<open>The endpoints\<close>

definition set_error :: "string \<Rightarrow> goerr \<Rightarrow> SetConfigResponse" where
  "set_error msg e = \<lparr>Set_Error = msg @ err_text e\<rparr>"

definition run_handler :: "env \<Rightarrow> (env \<Rightarrow> string \<Rightarrow> string \<Rightarrow> unit io) option \<Rightarrow> string \<Rightarrow> string \<Rightarrow> unit io" where
  "run_handler E handler key val = (case handler of None \<Rightarrow> ret () | Some h \<Rightarrow> h E key val)"

definition setConfig :: "env \<Rightarrow> goerr + json \<Rightarrow> SetConfigResponse response io" where
  "setConfig E body = (case parse_set body of
     Inl e \<Rightarrow> ret (SyncResponse False (set_error [] e))
   | Inr (req, handler) \<Rightarrow>
       andthen (Log E CatAuthz EventAdminActivity [(''action'', JStr ''config_set''), (''key'', JStr (Set_Key req))]
         (''Setting configuration key '%s'' @ [CHR 0x27]) [Set_Key req])
       (or_resp (\<lambda>e. SyncResponse False (set_error ''Error occurred while setting config: '' e))
         (SetConfig E (Set_Key req) (Set_Value req)) (\<lambda>_.
       or_resp (\<lambda>e. SyncResponse False (set_error ''Error occurred while handling config change: '' e))
         (run_handler E handler (Set_Key req) (Set_Value req)) (\<lambda>_.
       ret (SyncResponse True \<lparr>Set_Error = []\<rparr>)))))"

definition getConfig :: "env \<Rightarrow> goerr + json \<Rightarrow> GetConfigResponse response io" where
  "getConfig E body = (case parse_get body of
     Inl e \<Rightarrow> ret (SyncResponse False \<lparr>Get_Value = [], Get_IsSet = False, Get_Error = err_text e\<rparr>)
   | Inr (req, _) \<Rightarrow>
       or_resp (\<lambda>e. SyncResponse False \<lparr>Get_Value = [], Get_IsSet = False,
           Get_Error = ''Error occurred while getting config: '' @ err_text e\<rparr>)
         (GetConfig E (Get_Key req)) (\<lambda>item.
       ret (SyncResponse True (case item of
          None \<Rightarrow> \<lparr>Get_Value = [], Get_IsSet = False, Get_Error = []\<rparr>
        | Some i \<Rightarrow> \<lparr>Get_Value = ci_value i, Get_IsSet = True, Get_Error = []\<rparr>))))"

definition deleteConfig :: "env \<Rightarrow> goerr + json \<Rightarrow> SetConfigResponse response io" where
  "deleteConfig E body = (case parse_get body of
     Inl e \<Rightarrow> ret (SyncResponse False (set_error [] e))
   | Inr (req, handler) \<Rightarrow>
       andthen (Log E CatAuthz EventAdminActivity [(''action'', JStr ''config_delete''), (''key'', JStr (Get_Key req))]
         (''Deleting configuration key '%s'' @ [CHR 0x27]) [Get_Key req])
       (or_resp (\<lambda>e. SyncResponse False (set_error ''Error occurred while deleting config: '' e))
         (DeleteConfig E (Get_Key req)) (\<lambda>_.
       or_resp (\<lambda>e. SyncResponse True (set_error ''Error occurred while handling config change: '' e))
         (run_handler E handler (Get_Key req) []) (\<lambda>_.
       ret (SyncResponse True \<lparr>Set_Error = []\<rparr>)))))"

section \<open>Which requests are accepted\<close>

text \<open>The specification: the value of a request that sets the option to a list of addresses.\<close>

definition central_ips_ok :: "string \<Rightarrow> bool" where
  "central_ips_ok v \<longleftrightarrow> v \<noteq> [] \<and> (\<forall>ip \<in> set (split_on CHR '','' v). valid_ip ip)"

definition accepted :: "goerr + json \<Rightarrow> string option" where
  "accepted body = (case decode_request dec_SetConfigRequest body of
     Inl e \<Rightarrow> None
   | Inr req \<Rightarrow> if Set_Key req = ''ovn.central-ips'' \<and> central_ips_ok (Set_Value req) then Some (Set_Value req) else None)"

lemma check_ips_iff: "check_ips ips = None \<longleftrightarrow> (\<forall>ip \<in> set ips. valid_ip ip)"
  by (induction ips) auto

lemma validateOvnCentralIps_iff: "validateOvnCentralIps v = None \<longleftrightarrow> central_ips_ok v"
  by (cases "split_on CHR '','' v") (auto simp: validateOvnCentralIps_def central_ips_ok_def Let_def check_ips_iff)

lemma validate_None: "central_ips_ok v \<Longrightarrow> validateOvnCentralIps v = None"
  by (simp add: validateOvnCentralIps_iff)

lemma validate_Some: "\<not> central_ips_ok v \<Longrightarrow> \<exists>e. validateOvnCentralIps v = Some e"
  by (metis validateOvnCentralIps_iff option.exhaust)

lemma parse_set_None: "accepted body = None \<longleftrightarrow> (\<exists>e. parse_set body = Inl e)"
  by (auto simp: accepted_def parse_set_def AllowedConfigKeys_def validate_None
      dest: validate_Some split: sum.splits option.splits)

lemma parse_set_Some:
  "accepted body = Some v \<longleftrightarrow>
   parse_set body = Inr (\<lparr>Set_Key = ''ovn.central-ips'', Set_Value = v\<rparr>, Some ovnCentralIpsUpdated)"
  unfolding accepted_def parse_set_def AllowedConfigKeys_def
  by (auto simp: validate_None SetConfigRequest.equality dest: validate_Some
      intro!: SetConfigRequest.equality split: sum.splits option.splits dest!: arg_cong [where f = Set_Value])

lemma parse_get_Inr:
  "parse_get body = Inr (req, h) \<Longrightarrow> Get_Key req = ''ovn.central-ips'' \<and> h = Some ovnCentralIpsUpdated"
  by (auto simp: parse_get_def AllowedConfigKeys_def split: sum.splits if_splits)

section \<open>Frame lemmas\<close>

context trace_blind
begin

lemma keeps_handler [keeps_rules]: "keeps P (ovnCentralIpsUpdated E k v)"
  unfolding ovnCentralIpsUpdated_def leader_def by (intro keeps_rules keeps_client)

lemma keeps_getConfig [keeps_rules]: "keeps P (getConfig E body)"
  unfolding getConfig_def by (intro keeps_rules keeps_GetConfig)

end

lemma np_config_api [np_rules]:
  "no_panic (ovnCentralIpsUpdated E k v)" "no_panic (getConfig E body)"
  unfolding ovnCentralIpsUpdated_def leader_def getConfig_def by (intro np_rules)+

text \<open>The course of the requests that write. An accepted one is first noted in the security log.\<close>

definition set_log :: "env \<Rightarrow> event list" where
  "set_log E = log_entry E CatAuthz EventAdminActivity
     [(''action'', JStr ''config_set''), (''key'', JStr ''ovn.central-ips'')]
     (''Setting configuration key '%s'' @ [CHR 0x27]) [''ovn.central-ips'']"

definition delete_log :: "env \<Rightarrow> event list" where
  "delete_log E = log_entry E CatAuthz EventAdminActivity
     [(''action'', JStr ''config_delete''), (''key'', JStr ''ovn.central-ips'')]
     (''Deleting configuration key '%s'' @ [CHR 0x27]) [''ovn.central-ips'']"

lemma setConfig_logged:
  assumes "parse_set body = Inr (req, handler)" and "Set_Key req = ''ovn.central-ips''"
  shows "setConfig E body w =
      or_resp (\<lambda>e. SyncResponse False (set_error ''Error occurred while setting config: '' e))
        (SetConfig E (Set_Key req) (Set_Value req)) (\<lambda>_.
      or_resp (\<lambda>e. SyncResponse False (set_error ''Error occurred while handling config change: '' e))
        (run_handler E handler (Set_Key req) (Set_Value req)) (\<lambda>_.
      ret (SyncResponse True \<lparr>Set_Error = []\<rparr>))) (with_log (set_log E) w)"
  using assms(1) by (simp only: setConfig_def set_log_def assms andthen_Log sum.case prod.case)

lemma deleteConfig_logged:
  assumes "parse_get body = Inr (req, handler)" and "Get_Key req = ''ovn.central-ips''"
  shows "deleteConfig E body w =
      or_resp (\<lambda>e. SyncResponse False (set_error ''Error occurred while deleting config: '' e))
        (DeleteConfig E (Get_Key req)) (\<lambda>_.
      or_resp (\<lambda>e. SyncResponse True (set_error ''Error occurred while handling config change: '' e))
        (run_handler E handler (Get_Key req) []) (\<lambda>_.
      ret (SyncResponse True \<lparr>Set_Error = []\<rparr>))) (with_log (delete_log E) w)"
  using assms(1) by (simp only: deleteConfig_def delete_log_def assms andthen_Log sum.case prod.case)

lemma setConfig_cases:
  assumes call: "setConfig E body w = (r, w')"
  obtains (refused) e where "accepted body = None" and "w' = w" and "r = Ok (SyncResponse False (set_error [] e))"
  | (unsaved) v e where "accepted body = Some v" and "SetConfig E ''ovn.central-ips'' v (with_log (set_log E) w) = (Er e, w')"
      and "r = Ok (SyncResponse False (set_error ''Error occurred while setting config: '' e))"
  | (unapplied) v w1 e where "accepted body = Some v" and "SetConfig E ''ovn.central-ips'' v (with_log (set_log E) w) = (Ok (), w1)"
      and "w_db w' = w_db w1"
      and "r = Ok (SyncResponse False (set_error ''Error occurred while handling config change: '' e))"
  | (applied) v w1 where "accepted body = Some v" and "SetConfig E ''ovn.central-ips'' v (with_log (set_log E) w) = (Ok (), w1)"
      and "w_db w' = w_db w1" and "r = Ok (SyncResponse True \<lparr>Set_Error = []\<rparr>)"
proof (cases "accepted body")
  case None
  then obtain e where "parse_set body = Inl e" by (auto simp: parse_set_None)
  with call have "w' = w \<and> r = Ok (SyncResponse False (set_error [] e))" by (simp add: setConfig_def)
  then show ?thesis using refused [OF None] by blast
next
  case (Some v)
  let ?set = "SetConfig E ''ovn.central-ips'' v" and ?h = "ovnCentralIpsUpdated E ''ovn.central-ips'' v"
  note p = Some [unfolded parse_set_Some]
  show ?thesis
  proof (cases "?set" "with_log (set_log E) w" rule: io_cases)
    case (Ok u w1)
    then have s: "?set (with_log (set_log E) w) = (World.Ok (), w1)" by simp
    have h: "no_panic ?h" by (intro np_rules)
    have db: "w_db w2 = w_db w1" if "?h w1 = (q, w2)" for q w2
      by (rule keepsD [OF dbv.keeps_handler refl that])
    show ?thesis
    proof (cases "?h" w1 rule: io_cases)
      case (Ok u w2)
      with call p s have "w' = w2" "r = World.Ok (SyncResponse True \<lparr>Set_Error = []\<rparr>)"
        by (simp_all add: setConfig_logged run_handler_def seq)
      with db [OF Ok] show ?thesis using applied [OF Some s] by simp
    next
      case (Er e w2)
      with call p s have "w' = w2"
        "r = World.Ok (SyncResponse False (set_error ''Error occurred while handling config change: '' e))"
        by (simp_all add: setConfig_logged run_handler_def seq)
      with db [OF Er] show ?thesis using unapplied [OF Some s] by simp
    next
      case (Panic q w2)
      with h show ?thesis by (simp add: no_panic_def)
    qed
  next
    case (Er e w1)
    with call p have "w' = w1" "r = World.Ok (SyncResponse False (set_error ''Error occurred while setting config: '' e))"
      by (simp_all add: setConfig_logged seq)
    with Er show ?thesis using unsaved [OF Some] by simp
  next
    case (Panic q w1)
    moreover have "no_panic ?set" by (intro np_rules)
    ultimately show ?thesis by (simp add: no_panic_def)
  qed
qed

lemma np_Refresh [np_rules]: "no_panic (Refresh E)"
  unfolding Refresh_def refresh_def generate_configuration_def by (intro np_rules)

lemma tot_Refresh [tot_rules]: "total_io (Refresh E)"
  unfolding Refresh_def refresh_def generate_configuration_def by (intro tot_rules np_rules)

lemma tot_refresh_member [tot_rules]: "total_io (refresh_member E c errs)"
  unfolding refresh_member_def by (intro tot_rules np_rules)

section \<open>Histories of requests\<close>

text \<open>
  A step of the life of the configuration is a request to one of its endpoints, or anything else that
  keeps the database well formed and does not write the option.
\<close>

inductive config_step :: "env \<Rightarrow> world \<Rightarrow> world \<Rightarrow> bool" for E where
  set_request: "setConfig E body w = (r, w') \<Longrightarrow> config_step E w w'"
| get_request: "getConfig E body w = (r', w') \<Longrightarrow> config_step E w w'"
| delete_request: "deleteConfig E body w = (r, w') \<Longrightarrow> config_step E w w'"
| elsewhere: "db_ok (w_db w') \<Longrightarrow>
    abs_config (w_db w') ''ovn.central-ips'' = abs_config (w_db w) ''ovn.central-ips'' \<Longrightarrow> config_step E w w'"

definition ips_invariant :: "world \<Rightarrow> bool" where
  "ips_invariant w \<longleftrightarrow> db_ok (w_db w) \<and>
     (case abs_config (w_db w) ''ovn.central-ips'' of None \<Rightarrow> True | Some v \<Rightarrow> central_ips_ok v)"

lemma accepted_ok: "accepted body = Some v \<Longrightarrow> central_ips_ok v"
  by (auto simp: accepted_def split: sum.splits if_splits)

lemma setConfig_invariant:
  assumes inv: "ips_invariant w" and call: "setConfig E body w = (r, w')"
  shows "ips_invariant w'"
proof -
  have ok': "db_ok (w_db (with_log (set_log E) w))" using inv by (simp add: ips_invariant_def)
  from call show ?thesis
  proof (cases rule: setConfig_cases)
    case refused
    with inv show ?thesis by simp
  next
    case (unsaved v e)
    with inv keepsD [OF keeps_config_ok(1) ok' unsaved(2)] config_fails_db(1) [OF unsaved(2)]
    show ?thesis by (simp add: ips_invariant_def)
  next
    case (unapplied v w1 e)
    with keepsD [OF keeps_config_ok(1) ok' unapplied(2)] SetConfig_Ok [OF ok' unapplied(2)] accepted_ok
    show ?thesis by (simp add: ips_invariant_def)
  next
    case (applied v w1)
    with keepsD [OF keeps_config_ok(1) ok' applied(2)] SetConfig_Ok [OF ok' applied(2)] accepted_ok
    show ?thesis by (simp add: ips_invariant_def)
  qed
qed

lemma deleteConfig_db:
  assumes call: "deleteConfig E body w = (r, w')"
  shows "w_db w' = w_db w \<or> (\<exists>w1. DeleteConfig E ''ovn.central-ips'' (with_log (delete_log E) w) = (Ok (), w1) \<and> w_db w' = w_db w1)"
proof (cases "parse_get body")
  case (Inl e)
  with call show ?thesis by (simp add: deleteConfig_def)
next
  case (Inr p)
  then obtain req h where p: "parse_get body = Inr (req, h)" by (cases p) simp
  note k = parse_get_Inr [OF this]
  have db: "w_db w2 = w_db w1" if "ovnCentralIpsUpdated E ''ovn.central-ips'' [] w1 = (q, w2)" for q w1 w2
    by (rule keepsD [OF dbv.keeps_handler refl that])
  show ?thesis
  proof (cases "DeleteConfig E ''ovn.central-ips''" "with_log (delete_log E) w" rule: io_cases)
    case (Ok u w1)
    with call p k db show ?thesis
      by (cases "ovnCentralIpsUpdated E ''ovn.central-ips'' []" w1 rule: io_cases)
         (auto simp: deleteConfig_logged run_handler_def seq)
  next
    case (Er e w1)
    with call p k config_fails_db(2) [OF Er] show ?thesis by (simp add: deleteConfig_logged seq)
  next
    case (Panic s w1)
    moreover have "no_panic (DeleteConfig E ''ovn.central-ips'')" by (intro np_rules)
    ultimately show ?thesis by (simp add: no_panic_def)
  qed
qed

lemma config_step_invariant:
  assumes "config_step E w w'" and inv: "ips_invariant w"
  shows "ips_invariant w'"
  using assms(1)
proof (cases rule: config_step.cases)
  case (set_request body r)
  from setConfig_invariant [OF inv this] show ?thesis .
next
  case (get_request body r)
  from keepsD [OF dbv.keeps_getConfig refl this] inv show ?thesis by (simp add: ips_invariant_def)
next
  case (delete_request body r)
  have ok: "db_ok (w_db (with_log (delete_log E) w))" using inv by (simp add: ips_invariant_def)
  from deleteConfig_db [OF delete_request] show ?thesis
  proof (elim disjE exE conjE)
    fix w1 assume d: "DeleteConfig E ''ovn.central-ips'' (with_log (delete_log E) w) = (Ok (), w1)" and "w_db w' = w_db w1"
    with DeleteConfig_Ok [OF ok d] keepsD [OF keeps_config_ok(2) ok d] show ?thesis by (simp add: ips_invariant_def)
  qed (use inv in \<open>simp add: ips_invariant_def\<close>)
next
  case elsewhere
  with inv show ?thesis by (simp add: ips_invariant_def)
qed

lemma config_steps_invariant: "(config_step E)\<^sup>*\<^sup>* w w' \<Longrightarrow> ips_invariant w \<Longrightarrow> ips_invariant w'"
  by (induction rule: rtranclp_induct) (auto intro: config_step_invariant)

section \<open>Properties\<close>

text \<open>Whatever requests the configuration endpoints serve, in whatever order and with whatever
  failures, the central addresses taken from the configuration are always a nonempty list of IP
  addresses.\<close>

theorem configured_addresses_valid:
  assumes steps: "(config_step E)\<^sup>*\<^sup>* w w'" and ok: "db_ok (w_db w)"
    and start: "abs_config (w_db w) ''ovn.central-ips'' = None"
    and set: "abs_config (w_db w') ''ovn.central-ips'' \<noteq> None"
    and call: "CentralIps E w' = (Ok ips, w'')"
  shows "ips \<noteq> [] \<and> (\<forall>ip \<in> set ips. valid_ip ip)"
proof -
  have "ips_invariant w'" using config_steps_invariant [OF steps] ok start by (simp add: ips_invariant_def)
  moreover obtain v where v: "abs_config (w_db w') ''ovn.central-ips'' = Some v" using set by blast
  ultimately have "central_ips_ok v" "db_ok (w_db w')" by (simp_all add: ips_invariant_def)
  with CentralIps_Ok [OF this(2) call] v show ?thesis by (simp add: central_ips_ok_def)
qed

text \<open>C16: a request to set an option is accepted exactly for \<open>ovn.central-ips\<close> and a list of IP
  addresses. A refused one changes nothing; an accepted one that succeeds has stored the value; one that
  fails has stored it or left the configuration as it was. The registry of services is never touched.\<close>

theorem setConfig_outcome:
  assumes ok: "db_ok (w_db w)" and call: "setConfig E body w = (r, w')"
  shows "db_ok (w_db w') \<and> abs_services (w_db w') = abs_services (w_db w) \<and>
    (case r of Ok (SyncResponse success resp) \<Rightarrow> (success \<longrightarrow> Set_Error resp = []) \<and>
       (case accepted body of
          None \<Rightarrow> \<not> success \<and> w' = w
        | Some v \<Rightarrow>
            abs_config (w_db w') = (abs_config (w_db w))(''ovn.central-ips'' \<mapsto> v) \<or>
            \<not> success \<and> abs_config (w_db w') = abs_config (w_db w))
     | _ \<Rightarrow> False)"
proof -
  have ok': "db_ok (w_db (with_log (set_log E) w))" using ok by simp
  from call show ?thesis
proof (cases rule: setConfig_cases)
  case refused
  with ok show ?thesis by simp
next
  case (unsaved v e)
  from keepsD [OF keeps_config_ok(1) ok' unsaved(2)] config_fails_db(1) [OF unsaved(2)] unsaved show ?thesis by simp
next
  case (unapplied v w1 e)
  from keepsD [OF keeps_config_ok(1) ok' unapplied(2)] SetConfig_Ok [OF ok' unapplied(2)] unapplied show ?thesis by simp
next
  case (applied v w1)
  from keepsD [OF keeps_config_ok(1) ok' applied(2)] SetConfig_Ok [OF ok' applied(2)] applied show ?thesis by simp
qed
qed

text \<open>After a successful request to set the option, a successful request for it answers with the
  value that was set.\<close>

theorem get_after_set_request:
  assumes ok: "db_ok (w_db w)" and put: "setConfig E body w = (Ok (SyncResponse True r1), w1)"
    and got: "getConfig E body' w1 = (Ok (SyncResponse True r2), w2)"
  shows "accepted body = Some (Get_Value r2) \<and> Get_IsSet r2 \<and> Get_Error r2 = []"
  using put
proof (cases rule: setConfig_cases)
  case (applied v w3)
  have ok': "db_ok (w_db (with_log (set_log E) w))" using ok by simp
  from got obtain req h item where p: "parse_get body' = Inr (req, h)"
    and g: "GetConfig E (Get_Key req) w1 = (Ok item, w2)"
    and r2: "r2 = (case item of None \<Rightarrow> \<lparr>Get_Value = [], Get_IsSet = False, Get_Error = []\<rparr>
        | Some i \<Rightarrow> \<lparr>Get_Value = ci_value i, Get_IsSet = True, Get_Error = []\<rparr>)"
    unfolding getConfig_def by (auto split: sum.splits elim!: or_resp_OkE)
  have "db_ok (w_db w1)" using keepsD [OF keeps_config_ok(1) ok' applied(2)] applied(3) by simp
  from GetConfig_Ok [OF this g] have "map_option ci_value item = abs_config (w_db w1) (Get_Key req)" by simp
  moreover have "abs_config (w_db w1) = (abs_config (w_db w))(''ovn.central-ips'' \<mapsto> v)"
    using SetConfig_Ok [OF ok' applied(2)] applied(3) by simp
  ultimately have "map_option ci_value item = Some v" using parse_get_Inr [OF p] by simp
  with r2 applied(1) show ?thesis by auto
qed simp_all

text \<open>The answer to a request to regenerate the environment says only whether the request came from
  outside the cluster and whether the list of members could be read. Errors of members are listed, and
  neither they nor a failure of the refresh on the local member turn \<open>Success\<close> off.\<close>

theorem regenerateEnvPost_success:
  "case fst (regenerateEnvPost E notification w) of
     Ok (SyncResponse ok resp) \<Rightarrow>
       (ok \<longleftrightarrow> notification \<or> (\<exists>ps. e_peers E (w_trace w) True = Inr ps)) \<and>
       (Env_Success resp \<longleftrightarrow> \<not> notification \<and> ok)
   | _ \<Rightarrow> False"
proof (cases "\<not> notification \<and> (\<exists>ps. e_peers E (w_trace w) True = Inr ps)")
  case True
  then obtain ps where e: "e_peers E (w_trace w) True = Inr ps" by blast
  then have ps: "peers E True w = (Ok ps, w)" by (simp add: run_peers)
  obtain errs w1 where f: "fold_io (refresh_member E) ps [] w = (Ok errs, w1)"
    by (rule total_ioE [OF tot_fold_io [OF tot_refresh_member]])
  obtain u w2 where "Refresh E w1 = (Ok u, w2)" by (rule total_ioE [OF tot_Refresh])
  with True ps e f show ?thesis
    by (simp add: regenerateEnvPost_def seq run NewRegenerateEnvResponse_def)
next
  case False
  obtain u w2 where r: "Refresh E w = (Ok u, w2)" by (rule total_ioE [OF tot_Refresh])
  show ?thesis
  proof (cases notification)
    case True
    with r show ?thesis by (simp add: regenerateEnvPost_def seq run NewRegenerateEnvResponse_def)
  next
    case False
    with \<open>\<not> (\<not> notification \<and> (\<exists>ps. e_peers E (w_trace w) True = Inr ps))\<close>
    obtain e where e: "e_peers E (w_trace w) True = Inl e" by (cases "e_peers E (w_trace w) True") auto
    then have "peers E True w = (Er e, w)" by (simp add: run_peers)
    with False e show ?thesis
      by (simp add: regenerateEnvPost_def seq NewRegenerateEnvResponse_def)
  qed
qed

section \<open>Witnesses\<close>

text \<open>A request with one address, and a cluster whose leader answers that it has regenerated.\<close>

definition address_request :: "goerr + json" where
  "address_request = Inr (enc_SetConfigRequest \<lparr>Set_Key = ''ovn.central-ips'', Set_Value = ''::1''\<rparr>)"

definition answering_env :: env where
  "answering_env = sample_env\<lparr>e_leader := (\<lambda>t. Inr ''u2''),
     e_http := (\<lambda>t c m p b. Inr (enc_RegenerateEnvResponse \<lparr>Env_Success = True, Env_Errors = []\<rparr>))\<rparr>"

lemma address_accepted: "accepted address_request = Some ''::1''"
  by code_simp

lemma address_set:
  "fst (setConfig answering_env address_request sample_world) = Ok (SyncResponse True \<lparr>Set_Error = []\<rparr>)"
proof -
  note p = address_accepted [unfolded parse_set_Some]
  let ?r = "\<lparr>Env_Success = True, Env_Errors = []\<rparr>"
  have d: "dec_RegenerateEnvResponse NewRegenerateEnvResponse (enc_RegenerateEnvResponse ?r) = Inr ?r"
    by (simp add: env_wire.roundtrip)
  show ?thesis
    by (simp add: setConfig_def p run_handler_def ovnCentralIpsUpdated_def c_RegenerateEnvironment_def query_def
        answering_env_def evals d of_sum_def)
qed

definition address_db :: db where
  "address_db = sample_db\<lparr>configs := [\<lparr>cr_id = 1, cr_key = ''ovn.central-ips'', cr_value = ''::1''\<rparr>],
     next_config := 2\<rparr>"

lemma address_stored: "w_db (snd (setConfig answering_env address_request sample_world)) = address_db"
proof -
  note p = address_accepted [unfolded parse_set_Some]
  show ?thesis
    by (simp add: setConfig_def p run_handler_def ovnCentralIpsUpdated_def c_RegenerateEnvironment_def query_def
        answering_env_def evals of_sum_def address_db_def split: sum.splits)
qed

lemma address_read:
  "w_db v = address_db \<Longrightarrow> fst (GetConfig answering_env ''ovn.central-ips'' v) =
     Ok (Some \<lparr>ci_id = 1, ci_key = ''ovn.central-ips'', ci_value = ''::1''\<rparr>)"
  by (simp add: evals answering_env_def address_db_def)

text \<open>The world after the request, and what can be read in it.\<close>

lemma address_course:
  obtains w1 where "setConfig answering_env address_request sample_world = (Ok (SyncResponse True \<lparr>Set_Error = []\<rparr>), w1)"
    and "abs_config (w_db w1) ''ovn.central-ips'' = Some ''::1''"
    and "fst (GetConfig answering_env ''ovn.central-ips'' w1) =
      Ok (Some \<lparr>ci_id = 1, ci_key = ''ovn.central-ips'', ci_value = ''::1''\<rparr>)"
proof (rule that)
  let ?c = "setConfig answering_env address_request sample_world"
  show "?c = (Ok (SyncResponse True \<lparr>Set_Error = []\<rparr>), snd ?c)" using address_set by (metis prod.collapse)
  show "abs_config (w_db (snd ?c)) ''ovn.central-ips'' = Some ''::1''"
    unfolding address_stored by (simp add: address_db_def abs_config_def)
  show "fst (GetConfig answering_env ''ovn.central-ips'' (snd ?c)) =
      Ok (Some \<lparr>ci_id = 1, ci_key = ''ovn.central-ips'', ci_value = ''::1''\<rparr>)"
    by (rule address_read [OF address_stored])
qed

theorem setConfig_outcome_witness:
  "db_ok (w_db (snd (setConfig answering_env address_request sample_world)))"
  using setConfig_outcome [OF db_ok_sample(1) prod.collapse [symmetric], of answering_env address_request] by blast

theorem get_after_set_request_witness:
  "\<exists>r :: GetConfigResponse. accepted address_request = Some (Get_Value r) \<and> Get_IsSet r"
proof -
  obtain w1 where put: "setConfig answering_env address_request sample_world =
      (Ok (SyncResponse True \<lparr>Set_Error = []\<rparr>), w1)"
    and g: "fst (GetConfig answering_env ''ovn.central-ips'' w1) =
      Ok (Some \<lparr>ci_id = 1, ci_key = ''ovn.central-ips'', ci_value = ''::1''\<rparr>)" by (rule address_course)
  let ?q = "Inr (enc_GetConfigRequest \<lparr>Get_Key = ''ovn.central-ips''\<rparr>) :: goerr + json"
  have p: "parse_get ?q = Inr (\<lparr>Get_Key = ''ovn.central-ips''\<rparr>, Some ovnCentralIpsUpdated)"
    using get_wire.roundtrip [of "\<lparr>Get_Key = ''ovn.central-ips''\<rparr>"]
    by (simp add: parse_get_def decode_request_def AllowedConfigKeys_def enc_GetConfigRequest_def)
  have "\<exists>r. fst (getConfig answering_env ?q w1) = Ok (SyncResponse True r)"
    using g by (cases "GetConfig answering_env ''ovn.central-ips''" w1 rule: io_cases) (auto simp: getConfig_def p seq run)
  then obtain r where "getConfig answering_env ?q w1 = (Ok (SyncResponse True r), snd (getConfig answering_env ?q w1))"
    by (metis prod.collapse)
  from get_after_set_request [OF db_ok_sample(1) put this] show ?thesis by blast
qed

theorem configured_addresses_valid_witness:
  "\<exists>ips. ips \<noteq> [] \<and> (\<forall>ip \<in> set ips. valid_ip ip)"
proof -
  obtain w1 where put: "setConfig answering_env address_request sample_world =
      (Ok (SyncResponse True \<lparr>Set_Error = []\<rparr>), w1)"
    and c: "abs_config (w_db w1) ''ovn.central-ips'' = Some ''::1''"
    and g: "fst (GetConfig answering_env ''ovn.central-ips'' w1) =
      Ok (Some \<lparr>ci_id = 1, ci_key = ''ovn.central-ips'', ci_value = ''::1''\<rparr>)" by (rule address_course)
  have "\<exists>ips. fst (CentralIps answering_env w1) = Ok ips"
    using g by (cases "GetConfig answering_env ''ovn.central-ips''" w1 rule: io_cases)
      (auto simp: CentralIps_def remoteAddressesFromConfig_def run)
  then obtain ips where ips: "CentralIps answering_env w1 = (Ok ips, snd (CentralIps answering_env w1))"
    by (metis prod.collapse)
  from put have steps: "(config_step answering_env)\<^sup>*\<^sup>* sample_world w1" by (intro r_into_rtranclp set_request)
  have none: "abs_config (w_db sample_world) ''ovn.central-ips'' = None"
    by (simp add: sample_world_def sample_db_def abs_config_def)
  from c have "abs_config (w_db w1) ''ovn.central-ips'' \<noteq> None" by simp
  from configured_addresses_valid [OF steps db_ok_sample(1) none this ips] show ?thesis by blast
qed

end
