(* ===== verification/CertApi.thy ===== *)
theory CertApi
  imports Rest
begin

text \<open>
  The endpoints of the certificates (api/certificates): which services of a member have a certificate,
  reissuing one or all of them, and replacing the CA of the whole cluster. Every handler returns a value of type \<open>response\<close>.
\<close>

section \<open>The services with a certificate\<close>

definition lookup_failed :: "goerr \<Rightarrow> goerr" where
  "lookup_failed = errf ''failed to lookup local services eligible for certificate refresh: ''"

text \<open>The callers use the list only when there is no error.\<close>

definition enabledOvnServices :: "env \<Rightarrow> string list io" where
  "enabledOvnServices E =
     bind (attempt (HasServiceActive E SrvCentral)) (\<lambda>hasCentral.
     bind (attempt (HasServiceActive E SrvSwitch)) (\<lambda>hasSwitch.
     case (hasCentral, hasSwitch) of
       (Inr c, Inr s) \<Rightarrow>
         ret ((if c then [''ovnnb'', ''ovnsb'', ''ovn-northd''] else []) @
              (if s then [''ovn-controller''] else []) @ [''client''])
     | (Inl e, Inr _) \<Rightarrow> fail (ErrJoin [lookup_failed e])
     | (Inr _, Inl e) \<Rightarrow> fail (ErrJoin [lookup_failed e])
     | (Inl e, Inl e') \<Rightarrow> fail (ErrJoin [ErrJoin [lookup_failed e], lookup_failed e'])))"

definition reissue :: "env \<Rightarrow> string \<Rightarrow> IssueCertificateResponse \<Rightarrow> IssueCertificateResponse io" where
  "reissue E srv resp =
     bind (attempt (GenerateNewServiceCertificate E srv CertificateTypeServer)) (\<lambda>r. case r of
       Inl _ \<Rightarrow> ret (resp\<lparr>Issue_Failed := Issue_Failed resp @ [srv]\<rparr>)
     | Inr _ \<Rightarrow> ret (resp\<lparr>Issue_Success := Issue_Success resp @ [srv]\<rparr>))"

definition reissueAllCertificates :: "env \<Rightarrow> IssueCertificateResponse io" where
  "reissueAllCertificates E = bind (enabledOvnServices E) (\<lambda>srvs. fold_io (reissue E) srvs no_issue)"

section \<open>Reissuing certificates\<close>

definition not_enabled :: "string \<Rightarrow> string list \<Rightarrow> goerr" where
  "not_enabled srv eligible = ErrS (''can't issue certificate for service '' @ squoted srv @
     '', service is not enabled on this member, enabled services: '' @ join '', '' eligible)"

definition issueCertificatesPut :: "env \<Rightarrow> string \<Rightarrow> IssueCertificateResponse response io" where
  "issueCertificatesPut E raw = path_var raw (\<lambda>requestedService.
     andthen (Log E CatAuthn EventPasswordChanged
       [(''action'', JStr ''issue_certificate''), (''service'', JStr requestedService)]
       (''Certificate reissue requested for service '%s'' @ [CHR 0x27]) [requestedService])
     (or_resp (\<lambda>_. internal_error) (enabledOvnServices E) (\<lambda>eligibleServices.
     if requestedService \<notin> set eligibleServices then ret (NotFound (not_enabled requestedService eligibleServices))
     else bind (attempt (GenerateNewServiceCertificate E requestedService CertificateTypeServer)) (\<lambda>r. case r of
            Inl _ \<Rightarrow> ret (SyncResponse False (no_issue\<lparr>Issue_Failed := [requestedService]\<rparr>))
          | Inr _ \<Rightarrow> ret (SyncResponse True (no_issue\<lparr>Issue_Success := [requestedService]\<rparr>))))))"

definition issueCertificatesAllPut :: "env \<Rightarrow> IssueCertificateResponse response io" where
  "issueCertificatesAllPut E =
     andthen (Log E CatAuthn EventPasswordChanged [(''action'', JStr ''issue_all_certificates'')]
       ''Bulk certificate reissue requested for all enabled OVN services'' [])
     (or_resp (\<lambda>_. internal_error) (reissueAllCertificates E) (\<lambda>resp. ret (SyncResponse True resp)))"

section \<open>The CA\<close>

definition infoCaGet :: "env \<Rightarrow> CaInfo response io" where
  "infoCaGet E =
     or_resp (\<lambda>_. SyncResponse False \<lparr>AutoRenew = False,
         CaInfo_Error = ''Failed to get CA renewability. See logs for more details.''\<rparr>)
       (IsCaRenewable E) (\<lambda>autoRenew. ret (SyncResponse True \<lparr>AutoRenew = autoRenew, CaInfo_Error = []\<rparr>))"

text \<open>The map of the reissued certificates, as a list with one entry for each host.\<close>

definition merge_reissued :: "(string \<times> 'a) list \<Rightarrow> (string \<times> 'a) list \<Rightarrow> (string \<times> 'a) list" where
  "merge_reissued result m = foldl (\<lambda>m (host, srv). AList.update host srv m) m result"

definition reissue_member :: "env \<Rightarrow> peer \<Rightarrow> RegenerateCaResponse \<Rightarrow> RegenerateCaResponse io" where
  "reissue_member E c resp =
     bind (attempt (c_RegenerateCA E (p_url c))) (\<lambda>r.
     ret (case r of
        Inl e \<Rightarrow> resp\<lparr>Ca_Errors := Ca_Errors resp @
            [''failed to contact cluster member with address '' @ quoted (p_url c) @ '': '' @ err_text e]\<rparr>
      | Inr result \<Rightarrow>
          resp\<lparr>ReissuedCertificates := merge_reissued (ReissuedCertificates result) (ReissuedCertificates resp)\<rparr>))"

text \<open>An error of \<open>reissueAllCertificates\<close> is logged, and then the nil pointer it came with is read.\<close>

definition reissue_here :: "env \<Rightarrow> RegenerateCaResponse \<Rightarrow> RegenerateCaResponse response io" where
  "reissue_here E resp =
     or_resp (\<lambda>_. SyncResponse False resp) (DumpCA E) (\<lambda>_.
     bind (attempt (reissueAllCertificates E)) (\<lambda>r. case r of
       Inl _ \<Rightarrow> panic ''invalid memory address or nil pointer dereference''
     | Inr reissued \<Rightarrow> ret (SyncResponse True
         (resp\<lparr>ReissuedCertificates := AList.update (e_name E) reissued (ReissuedCertificates resp)\<rparr>))))"

definition updateOvnClusterCertificates :: "env \<Rightarrow> bool \<Rightarrow> RegenerateCaResponse \<Rightarrow> RegenerateCaResponse response io" where
  "updateOvnClusterCertificates E notification resp =
     (if \<not> notification then
        if \<not> NewCa resp then ret (SyncResponse True resp)
        else or_resp (\<lambda>_. SyncResponse False resp) (peers E True) (\<lambda>cluster.
             bind (fold_io (reissue_member E) cluster resp) (reissue_here E))
      else reissue_here E resp)"

definition regenerateCaPut :: "env \<Rightarrow> bool \<Rightarrow> RegenerateCaResponse response io" where
  "regenerateCaPut E notification =
     andthen (Log E CatAuthz EventAdminActivity [(''action'', JStr ''regenerate_ca'')]
       ''CA certificate regeneration requested via API'' [])
     (if \<not> notification then
        or_resp (\<lambda>_. SyncResponse False NewRegenerateCaResponse) (GenerateNewCACertificate E) (\<lambda>caUpdate.
        updateOvnClusterCertificates E notification (NewRegenerateCaResponse\<lparr>NewCa := caUpdate\<rparr>))
      else updateOvnClusterCertificates E notification NewRegenerateCaResponse)"

definition setCaPost :: "env \<Rightarrow> bool \<Rightarrow> goerr + json \<Rightarrow> RegenerateCaResponse response io" where
  "setCaPost E notification body =
     andthen (Log E CatAuthz EventAdminActivity [(''action'', JStr ''set_custom_ca'')]
       ''Custom CA certificate upload requested via API'' [])
     (if \<not> notification then
        (case decode dec_CustomCaRequest body of
           Inl _ \<Rightarrow> ret (SyncResponse False NewRegenerateCaResponse)
         | Inr req \<Rightarrow>
             or_resp (\<lambda>_. SyncResponse False NewRegenerateCaResponse)
               (SetNewCACertificate E (Ca_Certificate req) (Ca_PrivateKey req)) (\<lambda>caUpdate.
             updateOvnClusterCertificates E notification (NewRegenerateCaResponse\<lparr>NewCa := caUpdate\<rparr>)))
      else updateOvnClusterCertificates E notification NewRegenerateCaResponse)"

section \<open>Frame lemmas\<close>

context trace_blind
begin

lemma keeps_enabled [keeps_rules]: "keeps P (enabledOvnServices E)"
  unfolding enabledOvnServices_def by (intro keeps_rules keeps_node_reads)

lemma keeps_reissue_member [keeps_rules]: "keeps P (reissue_member E c resp)"
  unfolding reissue_member_def by (intro keeps_rules keeps_client)

end

context fs_blind
begin

lemma keeps_reissue [keeps_rules]:
  "keeps P (reissue E srv resp)" "keeps P (reissueAllCertificates E)" "keeps P (reissue_here E resp')"
proof -
  show r: "keeps P (reissue E srv resp)" for srv resp
    unfolding reissue_def by (intro keeps_rules keeps_GenerateNewServiceCertificate)
  show a: "keeps P (reissueAllCertificates E)"
    unfolding reissueAllCertificates_def by (intro keeps_rules keeps_enabled r)
  show "keeps P (reissue_here E resp')"
    unfolding reissue_here_def by (intro keeps_rules keeps_DumpCA a)
qed

lemma keeps_update_cluster [keeps_rules]: "keeps P (updateOvnClusterCertificates E n resp)"
  unfolding updateOvnClusterCertificates_def by (intro keeps_rules keeps_reissue keeps_reissue_member)

end

lemma np_enabled [np_rules]: "no_panic (enabledOvnServices E)"
  unfolding enabledOvnServices_def by (intro np_rules)

lemma tot_reissue [tot_rules]: "total_io (reissue E srv resp)" "total_io (reissue_member E c resp')"
  unfolding reissue_def reissue_member_def by (intro tot_rules np_rules)+

lemma np_reissue_all [np_rules]: "no_panic (reissueAllCertificates E)"
  unfolding reissueAllCertificates_def reissue_def by (intro np_rules)

section \<open>What the loops return\<close>

text \<open>The services of a member, by its rows in the registry.\<close>

definition ovn_services :: "string \<Rightarrow> db \<Rightarrow> string list" where
  "ovn_services me d =
     (if (me, SrvCentral) \<in> abs_services d then [''ovnnb'', ''ovnsb'', ''ovn-northd''] else []) @
     (if (me, SrvSwitch) \<in> abs_services d then [''ovn-controller''] else []) @ [''client'']"

lemma enabledOvnServices_Ok:
  assumes call: "enabledOvnServices E w = (Ok srvs, w')"
  shows "srvs = ovn_services (e_name E) (w_db w) \<and> w_db w' = w_db w"
proof -
  obtain c s w1 where c: "HasServiceActive E SrvCentral w = (Ok c, w1)" and s: "HasServiceActive E SrvSwitch w1 = (Ok s, w')"
    and srvs: "srvs = (if c then [''ovnnb'', ''ovnsb'', ''ovn-northd''] else []) @
              (if s then [''ovn-controller''] else []) @ [''client'']"
    using call unfolding enabledOvnServices_def
    by (elim bind_OkE attempt_OkE) (auto split: sum.splits)
  from HasServiceActive_Ok [OF c] HasServiceActive_Ok [OF s] srvs show ?thesis
    by (simp add: ovn_services_def)
qed

lemma reissue_loop:
  "fold_io (reissue E) srvs resp w = (Ok resp', w') \<Longrightarrow> distinct srvs \<Longrightarrow>
   \<exists>issued. Issue_Success resp' = Issue_Success resp @ filter issued srvs \<and>
     Issue_Failed resp' = Issue_Failed resp @ filter (\<lambda>s. \<not> issued s) srvs"
proof (induction srvs arbitrary: resp w)
  case (Cons srv srvs)
  then obtain r1 w1 where 1: "reissue E srv resp w = (Ok r1, w1)" and 2: "fold_io (reissue E) srvs r1 w1 = (Ok resp', w')"
    by (auto elim: bind_OkE)
  from 1 obtain b where b: "r1 = (if b then resp\<lparr>Issue_Success := Issue_Success resp @ [srv]\<rparr>
      else resp\<lparr>Issue_Failed := Issue_Failed resp @ [srv]\<rparr>)"
    unfolding reissue_def by (elim bind_OkE attempt_OkE) (auto split: sum.splits intro: that [of True] that [of False])
  from Cons.IH [OF 2] Cons.prems(2) obtain issued where
    i: "Issue_Success resp' = Issue_Success r1 @ filter issued srvs"
       "Issue_Failed resp' = Issue_Failed r1 @ filter (\<lambda>s. \<not> issued s) srvs" by auto
  have srv: "srv \<notin> set srvs" using Cons.prems(2) by simp
  then have "filter (issued(srv := b)) srvs = filter issued srvs"
    "filter (\<lambda>s. \<not> (issued(srv := b)) s) srvs = filter (\<lambda>s. \<not> issued s) srvs"
    by (auto intro!: filter_cong split: if_splits)
  with i b show ?case
    by (intro exI [of _ "issued(srv := b)"]; cases b) (simp_all del: fun_upd_apply add: fun_upd_same)
qed simp

text \<open>Every service gets a new certificate or is reported as failed, in the order of the services.\<close>

definition reissued_all :: "string list \<Rightarrow> IssueCertificateResponse \<Rightarrow> bool" where
  "reissued_all srvs resp \<longleftrightarrow> (\<exists>issued. resp =
     \<lparr>Issue_Success = filter issued srvs, Issue_Failed = filter (\<lambda>s. \<not> issued s) srvs\<rparr>)"

lemma distinct_ovn_services [simp]: "distinct (ovn_services me d)"
  by (simp add: ovn_services_def)

lemma reissueAllCertificates_Ok:
  assumes call: "reissueAllCertificates E w = (Ok resp, w')"
  shows "reissued_all (ovn_services (e_name E) (w_db w)) resp"
proof -
  obtain srvs w1 where e: "enabledOvnServices E w = (Ok srvs, w1)" and f: "fold_io (reissue E) srvs no_issue w1 = (Ok resp, w')"
    using call unfolding reissueAllCertificates_def by (elim bind_OkE)
  from enabledOvnServices_Ok [OF e] have srvs: "srvs = ovn_services (e_name E) (w_db w)" by simp
  with reissue_loop [OF f] obtain issued where
    "Issue_Success resp = filter issued srvs" "Issue_Failed resp = filter (\<lambda>s. \<not> issued s) srvs"
    by (auto simp: no_issue_def)
  then have "resp = \<lparr>Issue_Success = filter issued srvs, Issue_Failed = filter (\<lambda>s. \<not> issued s) srvs\<rparr>" by simp
  with srvs show ?thesis unfolding reissued_all_def by blast
qed

lemma reissue_here_Ok:
  assumes call: "reissue_here E resp w = (Ok (SyncResponse True resp'), w')"
  shows "\<exists>mine. reissued_all (ovn_services (e_name E) (w_db w)) mine \<and>
    resp' = resp\<lparr>ReissuedCertificates := AList.update (e_name E) mine (ReissuedCertificates resp)\<rparr>"
proof -
  obtain u w1 mine where d: "DumpCA E w = (Ok u, w1)" and a: "reissueAllCertificates E w1 = (Ok mine, w')"
    and r: "resp' = resp\<lparr>ReissuedCertificates := AList.update (e_name E) mine (ReissuedCertificates resp)\<rparr>"
    using call unfolding reissue_here_def
    by (elim or_resp_OkE bind_OkE attempt_OkE) (auto simp: panic_def)
  have "w_db w1 = w_db w" by (rule keepsD [OF dbf.keeps_DumpCA refl d])
  with reissueAllCertificates_Ok [OF a] r show ?thesis by auto
qed

lemma reissue_members_NewCa:
  "fold_io (reissue_member E) cs resp w = (Ok resp', w') \<Longrightarrow> NewCa resp' = NewCa resp"
proof (induction cs arbitrary: resp w)
  case (Cons c cs)
  then obtain r1 w1 where 1: "reissue_member E c resp w = (Ok r1, w1)" and 2: "fold_io (reissue_member E) cs r1 w1 = (Ok resp', w')"
    by (auto elim: bind_OkE)
  from 1 have "NewCa r1 = NewCa resp"
    unfolding reissue_member_def by (elim bind_OkE) (auto split: sum.splits)
  with Cons.IH [OF 2] show ?case by simp
qed simp

text \<open>The entries of the security log with which the handlers start.\<close>

definition regenerate_log :: "env \<Rightarrow> event list" where
  "regenerate_log E = log_entry E CatAuthz EventAdminActivity [(''action'', JStr ''regenerate_ca'')]
     ''CA certificate regeneration requested via API'' []"

definition issue_log :: "env \<Rightarrow> string \<Rightarrow> event list" where
  "issue_log E srv = log_entry E CatAuthn EventPasswordChanged
     [(''action'', JStr ''issue_certificate''), (''service'', JStr srv)]
     (''Certificate reissue requested for service '%s'' @ [CHR 0x27]) [srv]"

lemma issueCertificatesPut_logged:
  assumes "path_unescape raw = Some srv"
  shows "issueCertificatesPut E raw w = or_resp (\<lambda>_. internal_error) (enabledOvnServices E) (\<lambda>eligibleServices.
     if srv \<notin> set eligibleServices then ret (NotFound (not_enabled srv eligibleServices))
     else bind (attempt (GenerateNewServiceCertificate E srv CertificateTypeServer)) (\<lambda>r. case r of
            Inl _ \<Rightarrow> ret (SyncResponse False (no_issue\<lparr>Issue_Failed := [srv]\<rparr>))
          | Inr _ \<Rightarrow> ret (SyncResponse True (no_issue\<lparr>Issue_Success := [srv]\<rparr>)))) (with_log (issue_log E srv) w)"
  by (simp only: issueCertificatesPut_def path_var_def assms option.case andthen_Log issue_log_def)

lemma regenerateCaPut_logged:
  "regenerateCaPut E notification w = (if \<not> notification then
        or_resp (\<lambda>_. SyncResponse False NewRegenerateCaResponse) (GenerateNewCACertificate E) (\<lambda>caUpdate.
        updateOvnClusterCertificates E notification (NewRegenerateCaResponse\<lparr>NewCa := caUpdate\<rparr>))
      else updateOvnClusterCertificates E notification NewRegenerateCaResponse) (with_log (regenerate_log E) w)"
  by (simp only: regenerateCaPut_def andthen_Log regenerate_log_def)

section \<open>Properties\<close>

text \<open>C26: a request for a certificate of a service is answered with not found exactly when the service
  is not among the services of the registry row of this member, and then no file is touched; otherwise
  the answer names this one service as issued or as failed. The database is never changed.\<close>

theorem issueCertificatesPut_outcome:
  assumes srv: "path_unescape raw = Some srv" and call: "issueCertificatesPut E raw w = (r, w')"
  shows "w_db w' = w_db w \<and>
    (case r of
       Ok (SyncResponse ok resp) \<Rightarrow> srv \<in> set (ovn_services (e_name E) (w_db w)) \<and>
         resp = \<lparr>Issue_Success = (if ok then [srv] else []), Issue_Failed = (if ok then [] else [srv])\<rparr>
     | Ok (NotFound _) \<Rightarrow> srv \<notin> set (ovn_services (e_name E) (w_db w)) \<and> w_fs w' = w_fs w
     | Ok (InternalError _) \<Rightarrow> w_fs w' = w_fs w
     | _ \<Rightarrow> False)"
proof (cases "enabledOvnServices E" "with_log (issue_log E srv) w" rule: io_cases)
  case (Ok srvs w1)
  from enabledOvnServices_Ok [OF Ok] have srvs: "srvs = ovn_services (e_name E) (w_db w)" and db: "w_db w1 = w_db w"
    by simp_all
  have fs: "w_fs w1 = w_fs w" by (rule keepsD [OF fsv.keeps_enabled with_log_simps(2) Ok])
  let ?gen = "GenerateNewServiceCertificate E srv CertificateTypeServer"
  have gen: "issueCertificatesPut E raw w =
      (if srv \<notin> set srvs then (World.Ok (NotFound (not_enabled srv srvs)), w1)
       else bind (attempt ?gen) (\<lambda>r. case r of
            Inl _ \<Rightarrow> ret (SyncResponse False (no_issue\<lparr>Issue_Failed := [srv]\<rparr>))
          | Inr _ \<Rightarrow> ret (SyncResponse True (no_issue\<lparr>Issue_Success := [srv]\<rparr>))) w1)"
    using Ok by (simp add: issueCertificatesPut_logged [OF srv] seq run)
  show ?thesis
  proof (cases "srv \<in> set srvs")
    case False
    with gen call srvs db fs show ?thesis by simp
  next
    case True
    show ?thesis
    proof (cases "?gen" w1 rule: io_cases)
      case (Ok u w2)
      with gen call True have "r = World.Ok (SyncResponse True \<lparr>Issue_Success = [srv], Issue_Failed = []\<rparr>)" "w' = w2"
        by (simp_all add: run no_issue_def)
      with keepsD [OF dbf.keeps_GenerateNewServiceCertificate refl Ok] db srvs True show ?thesis by simp
    next
      case (Er e w2)
      with gen call True have "r = World.Ok (SyncResponse False \<lparr>Issue_Success = [], Issue_Failed = [srv]\<rparr>)" "w' = w2"
        by (simp_all add: run no_issue_def)
      with keepsD [OF dbf.keeps_GenerateNewServiceCertificate refl Er] db srvs True show ?thesis by simp
    next
      case (Panic s w2)
      with no_panicD [OF np_certificates(6) Panic] show ?thesis by blast
    qed
  qed
next
  case (Er e w1)
  with call keepsD [OF fsv.keeps_enabled with_log_simps(2) Er] keepsD [OF dbv.keeps_enabled with_log_simps(1) Er]
  show ?thesis by (auto simp: issueCertificatesPut_logged [OF srv] seq internal_error_def)
next
  case (Panic s w1)
  with no_panicD [OF np_enabled Panic] show ?thesis by blast
qed

text \<open>C21: after a successful request to renew the CA the answer of this member holds, when the CA was
  replaced, a result for each of its own services and its own host, and nothing when it was not. The
  registry of services is untouched.\<close>

theorem regenerateCaPut_outcome:
  assumes call: "regenerateCaPut E False w = (Ok (SyncResponse True resp), w')"
  shows "abs_services (w_db w') = abs_services (w_db w) \<and>
    (if NewCa resp
     then \<exists>mine. map_of (ReissuedCertificates resp) (e_name E) = Some mine \<and>
            reissued_all (ovn_services (e_name E) (w_db w)) mine
     else ReissuedCertificates resp = [] \<and> Ca_Errors resp = [])"
proof -
  obtain b w1 where g: "GenerateNewCACertificate E (with_log (regenerate_log E) w) = (Ok b, w1)"
    and u: "updateOvnClusterCertificates E False (NewRegenerateCaResponse\<lparr>NewCa := b\<rparr>) w1 = (Ok (SyncResponse True resp), w')"
    using call unfolding regenerateCaPut_logged by (auto elim!: or_resp_OkE)
  have s1: "abs_services (w_db w1) = abs_services (w_db w)" using keepsD [OF keeps_CA_services(2) refl g] by simp
  moreover have "w_db w' = w_db w1" by (rule keepsD [OF dbf.keeps_update_cluster refl u])
  moreover have "if NewCa resp
     then \<exists>mine. map_of (ReissuedCertificates resp) (e_name E) = Some mine \<and>
            reissued_all (ovn_services (e_name E) (w_db w)) mine
     else ReissuedCertificates resp = [] \<and> Ca_Errors resp = []"
  proof (cases b)
    case False
    with u show ?thesis by (simp add: updateOvnClusterCertificates_def NewRegenerateCaResponse_def)
  next
    case True
    with u obtain cs w2 r1 w3 where p: "peers E True w1 = (Ok cs, w2)"
      and f: "fold_io (reissue_member E) cs (NewRegenerateCaResponse\<lparr>NewCa := True\<rparr>) w2 = (Ok r1, w3)"
      and h: "reissue_here E r1 w3 = (Ok (SyncResponse True resp), w')"
      unfolding updateOvnClusterCertificates_def by (auto elim!: or_resp_OkE bind_OkE)
    have "w_db w2 = w_db w1" using p by (auto simp: run_peers split: sum.splits)
    moreover have "w_db w3 = w_db w2"
      by (rule keepsD [OF keeps_fold_io [OF dbv.keeps_reissue_member] refl f])
    ultimately have "ovn_services (e_name E) (w_db w3) = ovn_services (e_name E) (w_db w)"
      using s1 by (simp add: ovn_services_def)
    with reissue_here_Ok [OF h] reissue_members_NewCa [OF f] show ?thesis
      by (auto simp: update_conv')
  qed
  ultimately show ?thesis by simp
qed

text \<open>C31: A notified member panics on a request to renew the CA exactly when the CA can be written but
  the services of the member cannot be read: the nil result of the failed call is dereferenced.\<close>

theorem regenerateCa_panics_iff:
  "(\<exists>s w'. regenerateCaPut E True w = (Panic s, w')) \<longleftrightarrow>
   (\<exists>w1 e w2. DumpCA E (with_log (regenerate_log E) w) = (Ok (), w1) \<and> enabledOvnServices E w1 = (Er e, w2))"
proof -
  have d: "no_panic (DumpCA E)" by (intro np_rules)
  let ?w = "with_log (regenerate_log E) w"
  have c: "regenerateCaPut E True w = reissue_here E NewRegenerateCaResponse ?w"
    by (simp add: regenerateCaPut_logged updateOvnClusterCertificates_def)
  show ?thesis
  proof (cases "DumpCA E" ?w rule: io_cases)
    case (Ok u w1)
    show ?thesis
    proof (cases "enabledOvnServices E" w1 rule: io_cases)
      case (Ok srvs w2)
      obtain resp w3 where "fold_io (reissue E) srvs no_issue w2 = (World.Ok resp, w3)"
        by (rule total_ioE [OF tot_fold_io [OF tot_reissue(1)]])
      with Ok \<open>DumpCA E ?w = (World.Ok u, w1)\<close> show ?thesis
        by (simp add: c reissue_here_def seq run reissueAllCertificates_def)
    next
      case (Er e w2)
      with Ok show ?thesis by (simp add: c reissue_here_def seq run reissueAllCertificates_def panic_def)
    next
      case (Panic s w2)
      with no_panicD [OF np_enabled Panic] show ?thesis by blast
    qed
  next
    case (Er e w1)
    then show ?thesis by (simp add: c reissue_here_def seq)
  next
    case (Panic s w1)
    with no_panicD [OF d Panic] show ?thesis by blast
  qed
qed

section \<open>Witnesses\<close>

text \<open>A machine with the directory of the certificates, and its database after a new CA.\<close>

definition pki_world :: world where
  "pki_world = sample_world\<lparr>w_fs := (\<lambda>p. if p = ''/c/data/pki'' then Some Dir else None)\<rparr>"

definition pki_db :: db where
  "pki_db = sample_db\<lparr>configs :=
     [\<lparr>cr_id = 1, cr_key = CACertRecordName, cr_value = ''CERTIFICATE'' @ CHR 0x0A # ''CA''\<rparr>,
      \<lparr>cr_id = 2, cr_key = CAKeyRecordName, cr_value = ''EC PRIVATE KEY'' @ CHR 0x0A # ''k''\<rparr>,
      \<lparr>cr_id = 3, cr_key = CAAutoRenew, cr_value = CaIsRenewable\<rparr>], next_config := 4\<rparr>"

lemma generate_in_pki:
  "\<exists>tr. GenerateNewCACertificate sample_env (with_log es pki_world) =
     (Ok True, \<lparr>w_db = pki_db, w_fs = w_fs pki_world, w_trace = tr\<rparr>)"
  by (simp add: evals with_log_def pki_world_def sample_ca_def pki_db_def)

lemma dump_in_pki: "\<exists>w'. DumpCA sample_env \<lparr>w_db = pki_db, w_fs = w_fs pki_world, w_trace = tr\<rparr> = (Ok (), w')"
proof -
  have "fst (DumpCA sample_env \<lparr>w_db = pki_db, w_fs = w_fs pki_world, w_trace = tr\<rparr>) = Ok ()"
    by (simp add: evals pki_world_def pki_db_def DumpCA_def create_private_def PkiCaCertFile_def PkiDir_def
        certFileMode_def)
  then show ?thesis by (metis prod.collapse)
qed

lemma has_service_runs: "\<exists>b w'. HasServiceActive sample_env s v = (Ok b, w')"
  by (simp add: evals)

lemma reissue_all_runs: "\<exists>resp w'. reissueAllCertificates sample_env v = (Ok resp, w')"
proof -
  obtain c w1 where c: "HasServiceActive sample_env SrvCentral v = (Ok c, w1)" using has_service_runs by blast
  obtain s w2 where s: "HasServiceActive sample_env SrvSwitch w1 = (Ok s, w2)" using has_service_runs by blast
  have "total_io (fold_io (reissue sample_env) srvs no_issue)" for srvs by (intro tot_rules tot_reissue)
  with c s show ?thesis
    by (simp add: reissueAllCertificates_def enabledOvnServices_def run total_io_def)
qed

lemma regenerate_runs:
  "\<exists>resp w'. regenerateCaPut sample_env False pki_world = (Ok (SyncResponse True resp), w') \<and> NewCa resp"
proof -
  let ?v = "with_log (regenerate_log sample_env) pki_world"
  obtain tr where g: "GenerateNewCACertificate sample_env ?v =
     (Ok True, \<lparr>w_db = pki_db, w_fs = w_fs pki_world, w_trace = tr\<rparr>)" using generate_in_pki by blast
  let ?w = "\<lparr>w_db = pki_db, w_fs = w_fs pki_world, w_trace = tr\<rparr>"
  have p: "peers sample_env True ?w = (Ok [], ?w)" by (simp add: run_peers sample_env_def)
  obtain w2 where d: "DumpCA sample_env ?w = (Ok (), w2)" using dump_in_pki by blast
  obtain r w3 where r: "reissueAllCertificates sample_env w2 = (Ok r, w3)" using reissue_all_runs by blast
  show ?thesis
    using g p d r
    by (simp add: regenerateCaPut_logged updateOvnClusterCertificates_def reissue_here_def seq run
        NewRegenerateCaResponse_def)
qed

theorem issueCertificatesPut_outcome_witness:
  "w_db (snd (issueCertificatesPut sample_env ''client'' pki_world)) = w_db pki_world"
  using issueCertificatesPut_outcome [OF path_unescape_plain prod.collapse [symmetric], of "''client''" sample_env pki_world]
  by simp

theorem regenerateCaPut_outcome_witness:
  "\<exists>resp :: RegenerateCaResponse. NewCa resp \<and> (\<exists>mine. map_of (ReissuedCertificates resp) ''n1'' = Some mine \<and>
     reissued_all [''client''] mine)"
proof -
  obtain resp w' where c: "regenerateCaPut sample_env False pki_world = (Ok (SyncResponse True resp), w')"
    and n: "NewCa resp" using regenerate_runs by blast
  have "ovn_services ''n1'' (w_db pki_world) = [''client'']"
    by (simp add: ovn_services_def pki_world_def sample_world_def sample_db_def abs_services_def)
  with regenerateCaPut_outcome [OF c] n show ?thesis by (auto simp: sample_env_def)
qed

end
