(* ===== verification/ServiceApi.thy ===== *)
theory ServiceApi
  imports Rest Upgrade
begin

text \<open>
  The endpoints of the services (api/services) and of the schema versions of the databases (api/ovsdb).
  A request for the active version of a central database that reaches a member without central services
  is forwarded to a member that runs them.
\<close>

section \<open>Services\<close>

definition control_answer :: "env \<Rightarrow> string \<Rightarrow> string \<Rightarrow> ServiceControlResponse response io" where
  "control_answer E srv verb =
     or_resp (\<lambda>_. internal_error) (ServiceWarnings E) (\<lambda>ws.
     ret (SyncResponse True \<lparr>Message = srv @ verb, Warnings = ws\<rparr>))"

definition enableService :: "env \<Rightarrow> string \<Rightarrow> goerr + json \<Rightarrow> ServiceControlResponse response io" where
  "enableService E raw body = path_var raw (\<lambda>requestedService.
     if \<not> CheckValidService requestedService then ret (InternalError (ErrS ''service does not exist''))
     else (case decode dec_ExtraServiceConfig body of
        Inl _ \<Rightarrow> ret (BadRequest (ErrS ''failed to decode request''))
      | Inr extraConfig \<Rightarrow>
          or_resp InternalError (EnableService E requestedService (Some extraConfig)) (\<lambda>_.
          control_answer E requestedService '' enabled'')))"

definition disableService :: "env \<Rightarrow> string \<Rightarrow> goerr + json \<Rightarrow> ServiceControlResponse response io" where
  "disableService E raw body = path_var raw (\<lambda>requestedService.
     if \<not> CheckValidService requestedService then ret (InternalError (ErrS ''service does not exist''))
     else (case decode dec_DisableServiceRequest body of
        Inl e \<Rightarrow> ret (InternalError (wrapf ''failed to decode request: '' e))
      | Inr req \<Rightarrow>
          or_resp InternalError (DisableService E requestedService (AllowDisableLastCentral req)) (\<lambda>_.
          control_answer E requestedService '' disabled'')))"

definition cmdServicesGet :: "env \<Rightarrow> Service list response io" where
  "cmdServicesGet E = or_resp InternalError (ListServices E) (\<lambda>srvs. ret (SyncResponse True srvs))"

section \<open>Schema versions\<close>

definition supportedDBs :: "string \<rightharpoonup> OvsdbType" where
  "supportedDBs = [''sb'' \<mapsto> OvsdbTypeSBLocal, ''nb'' \<mapsto> OvsdbTypeNBLocal, ''switch'' \<mapsto> OvsdbTypeSwitchLocal]"

definition parseDbSpec :: "env \<Rightarrow> string \<Rightarrow> (OvsdbSpec \<Rightarrow> 'a response io) \<Rightarrow> 'a response io" where
  "parseDbSpec E raw k = path_var raw (\<lambda>s.
     let requestedDB = to_lower s in
     (case supportedDBs requestedDB of
        None \<Rightarrow> ret (BadRequest (ErrS (''DB '' @ squoted requestedDB @ '' not supported'')))
      | Some dbType \<Rightarrow> or_resp (\<lambda>_. internal_error) (of_sum (NewOvsdbSpec E dbType)) k))"

definition getExpectedSchemaVersion :: "env \<Rightarrow> string \<Rightarrow> string response io" where
  "getExpectedSchemaVersion E raw = parseDbSpec E raw (\<lambda>dbSpec.
     or_resp (\<lambda>_. internal_error) (ExpectedOvsdbSchemaVersion E dbSpec) (\<lambda>v. ret (SyncResponse True v)))"

definition member_version :: "env \<Rightarrow> OvsdbSpec \<Rightarrow> peer \<Rightarrow> OvsdbSchemaVersionResult list \<Rightarrow>
    OvsdbSchemaVersionResult list io" where
  "member_version E dbSpec c report =
     bind (c_GetExpectedOvsdbSchemaVersion E (p_url c) dbSpec) (\<lambda>(result, err).
     ret (report @ [\<lparr>Schema_Host = p_host c, SchemaVersion = result, Schema_Error = err\<rparr>]))"

definition getAllExpectedSchemaVersions :: "env \<Rightarrow> string \<Rightarrow> OvsdbSchemaVersionResult list response io" where
  "getAllExpectedSchemaVersions E raw = parseDbSpec E raw (\<lambda>dbSpec.
     or_resp (\<lambda>_. internal_error) (ExpectedOvsdbSchemaVersion E dbSpec) (\<lambda>localExpectedVersion.
     or_resp (\<lambda>_. internal_error) (peers E False) (\<lambda>clusterClient.
     bind (fold_io (member_version E dbSpec) clusterClient
        [\<lparr>Schema_Host = e_host E, SchemaVersion = localExpectedVersion, Schema_Error = SchemaErrorNone\<rparr>])
     (\<lambda>report. ret (SyncResponse True report)))))"

text \<open>The two nested loops: every client, and for it every central member with its address.\<close>

definition client_addr :: "peer \<Rightarrow> string" where
  "client_addr c = p_host c @ '':'' @ p_port c"

fun ask_nodes :: "env \<Rightarrow> OvsdbSpec \<Rightarrow> peer \<Rightarrow> member_row list \<Rightarrow> string option io" where
  "ask_nodes E dbSpec c [] = ret None"
| "ask_nodes E dbSpec c (n # ns) =
     (if client_addr c = m_addr n then
        bind (c_GetActiveOvsdbSchemaVersion E (p_url c) dbSpec) (\<lambda>(result, err).
        if err \<noteq> SchemaErrorNone then ask_nodes E dbSpec c ns else ret (Some result))
      else ask_nodes E dbSpec c ns)"

fun ask_clients :: "env \<Rightarrow> OvsdbSpec \<Rightarrow> member_row list \<Rightarrow> peer list \<Rightarrow> string option io" where
  "ask_clients E dbSpec ns [] = ret None"
| "ask_clients E dbSpec ns (c # cs) =
     bind (ask_nodes E dbSpec c ns) (\<lambda>r. case r of None \<Rightarrow> ask_clients E dbSpec ns cs | Some v \<Rightarrow> ret (Some v))"

definition forwardActiveSchemaVersion :: "env \<Rightarrow> OvsdbSpec \<Rightarrow> string response io" where
  "forwardActiveSchemaVersion E dbSpec =
     or_resp (\<lambda>_. internal_error) (FindService E ''central'') (\<lambda>centralNodes.
     or_resp (\<lambda>_. internal_error) (peers E False) (\<lambda>clusterClients.
     bind (ask_clients E dbSpec centralNodes clusterClients) (\<lambda>r. case r of
       Some result \<Rightarrow> ret (SyncResponse True result)
     | None \<Rightarrow> ret internal_error)))"

definition getActiveSchemaVersion :: "env \<Rightarrow> string \<Rightarrow> string response io" where
  "getActiveSchemaVersion E raw =
     or_resp (\<lambda>_. internal_error) (HasServiceActive E SrvCentral) (\<lambda>hasCentral.
     parseDbSpec E raw (\<lambda>dbSpec.
       if IsCentral dbSpec \<and> \<not> hasCentral then forwardActiveSchemaVersion E dbSpec
       else or_resp (\<lambda>_. internal_error)
              (OvsdbClient E dbSpec 10 30 [''get-schema-version'', SocketURL dbSpec]) (\<lambda>activeSchema.
            ret (SyncResponse True (trim_space activeSchema)))))"

section \<open>Frame lemmas\<close>

context trace_blind
begin

lemma keeps_ask_nodes [keeps_rules]: "keeps P (ask_nodes E d c ns)"
  by (induction ns) (auto intro!: keeps_rules keeps_client split: prod.splits)

lemma keeps_ask_clients [keeps_rules]: "keeps P (ask_clients E d ns cs)"
  by (induction cs) (auto intro!: keeps_rules keeps_ask_nodes split: option.splits)

end

lemma tot_ask_nodes [tot_rules]: "total_io (ask_nodes E d c ns)"
  by (induction ns) (auto intro!: tot_rules split: prod.splits)

lemma tot_ask_clients [tot_rules]: "total_io (ask_clients E d ns cs)"
  by (induction cs) (auto intro!: tot_rules split: option.splits)

section \<open>Forwarding\<close>

lemma active_version_asks:
  assumes "c_GetActiveOvsdbSchemaVersion E c d w = (Ok (v, err), w')"
  shows "w_trace w' = Http c ''GET'' (schema_path d ''active'') # w_trace w \<and>
    (err = SchemaErrorNone \<longrightarrow> e_http E (w_trace w) c ''GET'' (schema_path d ''active'') JNull = Inr (JStr v))"
proof (cases "e_http E (w_trace w) c ''GET'' (schema_path d ''active'') JNull")
  case (Inr j)
  with assms show ?thesis
    by (cases j) (auto simp: c_GetActiveOvsdbSchemaVersion_def getOvsdbSchemaVersion_def query_def bind_def
        attempt_def http_def of_sum_def ret_def fail_def dec_str_def bad_json_def split: if_splits)
qed (use assms in \<open>auto simp: c_GetActiveOvsdbSchemaVersion_def getOvsdbSchemaVersion_def query_def bind_def
        attempt_def http_def ret_def split: if_splits\<close>)

text \<open>Only clients whose address is the address of one of the nodes are asked; and the last answer was taken.\<close>

definition asked :: "OvsdbSpec \<Rightarrow> member_row list \<Rightarrow> peer \<Rightarrow> event \<Rightarrow> bool" where
  "asked d ns c ev \<longleftrightarrow> (\<exists>n \<in> set ns. client_addr c = m_addr n) \<and> ev = Http (p_url c) ''GET'' (schema_path d ''active'')"

definition answers :: "env \<Rightarrow> OvsdbSpec \<Rightarrow> peer \<Rightarrow> string \<Rightarrow> event list \<Rightarrow> bool" where
  "answers E d c v tr \<longleftrightarrow> (\<exists>t. tr = Http (p_url c) ''GET'' (schema_path d ''active'') # t \<and>
     e_http E t (p_url c) ''GET'' (schema_path d ''active'') JNull = Inr (JStr v))"

lemma ask_nodes_asks:
  "ask_nodes E d c ns w = (Ok r, w') \<Longrightarrow>
   \<exists>evs. w_trace w' = evs @ w_trace w \<and> (\<forall>ev \<in> set evs. asked d ns c ev) \<and>
     (\<forall>v. r = Some v \<longrightarrow> (\<exists>n \<in> set ns. client_addr c = m_addr n) \<and> answers E d c v (w_trace w'))"
proof (induction ns arbitrary: w)
  case (Cons n ns)
  show ?case
  proof (cases "client_addr c = m_addr n")
    case True
    with Cons.prems obtain x err w1 where q: "c_GetActiveOvsdbSchemaVersion E (p_url c) d w = (Ok (x, err), w1)"
      and k: "(if err \<noteq> SchemaErrorNone then ask_nodes E d c ns else ret (Some x)) w1 = (Ok r, w')"
      by (auto elim: bind_OkE)
    note ask = active_version_asks [OF q]
    show ?thesis
    proof (cases "err = SchemaErrorNone")
      case err: True
      with k ask True show ?thesis
        by (intro exI [of _ "[Http (p_url c) ''GET'' (schema_path d ''active'')]"]) (auto simp: asked_def answers_def)
    next
      case False
      with k Cons.IH obtain evs where "w_trace w' = evs @ w_trace w1" "\<forall>ev \<in> set evs. asked d ns c ev"
        "\<forall>v. r = Some v \<longrightarrow> (\<exists>n \<in> set ns. client_addr c = m_addr n) \<and> answers E d c v (w_trace w')" by force
      with ask True show ?thesis
        by (intro exI [of _ "evs @ [Http (p_url c) ''GET'' (schema_path d ''active'')]"]) (auto simp: asked_def)
    qed
  next
    case False
    with Cons.prems Cons.IH [of w] show ?thesis by (auto simp: asked_def)
  qed
qed simp

lemma ask_clients_asks:
  "ask_clients E d ns cs w = (Ok (Some v), w') \<Longrightarrow>
   \<exists>evs pre c post. cs = pre @ c # post \<and> (\<exists>n \<in> set ns. client_addr c = m_addr n) \<and> answers E d c v (w_trace w') \<and>
     w_trace w' = evs @ w_trace w \<and> (\<forall>ev \<in> set evs. \<exists>x \<in> set (pre @ [c]). asked d ns x ev)"
proof (induction cs arbitrary: w)
  case (Cons c cs)
  then obtain r w1 where a: "ask_nodes E d c ns w = (Ok r, w1)"
    and k: "(case r of None \<Rightarrow> ask_clients E d ns cs | Some v \<Rightarrow> ret (Some v)) w1 = (Ok (Some v), w')"
    by (auto elim: bind_OkE)
  from ask_nodes_asks [OF a] obtain evs where evs: "w_trace w1 = evs @ w_trace w" "\<forall>ev \<in> set evs. asked d ns c ev"
    "\<And>v. r = Some v \<Longrightarrow> (\<exists>n \<in> set ns. client_addr c = m_addr n) \<and> answers E d c v (w_trace w1)" by blast
  show ?case
  proof (cases r)
    case None
    with k Cons.IH obtain evs' pre x post where "cs = pre @ x # post" "\<exists>n \<in> set ns. client_addr x = m_addr n"
      "answers E d x v (w_trace w')" "w_trace w' = evs' @ w_trace w1" "\<forall>ev \<in> set evs'. \<exists>y \<in> set (pre @ [x]). asked d ns y ev"
      by force
    with evs(1,2) show ?thesis
      by (intro exI [of _ "evs' @ evs"] exI [of _ "c # pre"] exI [of _ x] exI [of _ post]) auto
  next
    case (Some y)
    with k evs show ?thesis
      by (intro exI [of _ evs] exI [of _ "[]"] exI [of _ c] exI [of _ cs]) auto
  qed
qed simp

lemma forward_Ok:
  assumes call: "forwardActiveSchemaVersion E d w = (Ok (SyncResponse ok v), w')"
  shows "ok \<and> (\<exists>tr pre c post evs. e_peers E tr False = Inr (pre @ c # post) \<and>
    (\<exists>n \<in> set (members_with SrvCentral (w_db w)). client_addr c = m_addr n) \<and> answers E d c v (w_trace w') \<and>
    w_trace w' = evs @ tr \<and>
    (\<forall>ev \<in> set evs. \<exists>x \<in> set (pre @ [c]). asked d (members_with SrvCentral (w_db w)) x ev))"
proof -
  obtain ns w1 ps w2 r w3 where f: "FindService E ''central'' w = (Ok ns, w1)"
    and p: "peers E False w1 = (Ok ps, w2)" and a: "ask_clients E d ns ps w2 = (Ok r, w3)"
    and k: "(case r of Some x \<Rightarrow> ret (SyncResponse True x) | None \<Rightarrow> ret internal_error) w3 = (Ok (SyncResponse ok v), w')"
    using call unfolding forwardActiveSchemaVersion_def
    by (auto elim!: or_resp_OkE bind_OkE)
  from p have "e_peers E (w_trace w1) False = Inr ps" "w2 = w1" by (auto simp: run_peers split: sum.splits)
  moreover from k a have "ok" "w' = w3" "ask_clients E d ns ps w2 = (Ok (Some v), w3)"
    by (auto split: option.splits)
  moreover have "ns = members_with SrvCentral (w_db w)" using FindService_Ok [OF f] by (simp add: srv_defs)
  ultimately show ?thesis using ask_clients_asks by blast
qed

lemma tot_forward: "total_io (forwardActiveSchemaVersion E d)"
  unfolding forwardActiveSchemaVersion_def peers_def by (intro tot_rules np_rules)

lemma forward_answer:
  assumes call: "forwardActiveSchemaVersion E d w = (Ok r, w')"
  shows "r = internal_error \<or> (\<exists>v. r = SyncResponse True v)"
  using call unfolding forwardActiveSchemaVersion_def
  by (auto elim!: or_resp_OkE bind_OkE split: option.splits)

section \<open>Reports\<close>

lemma member_report:
  "fold_io (member_version E d) cs report w = (Ok report', w') \<Longrightarrow>
   \<exists>answers. report' = report @ answers \<and> map Schema_Host answers = map p_host cs"
proof (induction cs arbitrary: report w)
  case (Cons c cs)
  then obtain r1 w1 where 1: "member_version E d c report w = (Ok r1, w1)"
    and 2: "fold_io (member_version E d) cs r1 w1 = (Ok report', w')" by (auto elim: bind_OkE)
  from 1 obtain x where "r1 = report @ [x]" "Schema_Host x = p_host c"
    unfolding member_version_def by (auto elim!: bind_OkE)
  with Cons.IH [OF 2] show ?case by auto
qed simp

lemma parseDbSpec_Ok:
  assumes "parseDbSpec E raw k w = (Ok (SyncResponse ok v), w')"
  obtains s ty d where "path_unescape raw = Some s" and "supportedDBs (to_lower s) = Some ty"
    and "NewOvsdbSpec E ty = Inr d" and "k d w = (Ok (SyncResponse ok v), w')"
  using assms unfolding parseDbSpec_def path_var_def
  by (auto simp: Let_def of_sum_def split: option.splits sum.splits elim!: or_resp_OkE)

section \<open>Properties\<close>

text \<open>A successful request to enable a service has added exactly its row, which was not there, and the
  warnings in the answer are those of the number of members that run the central service afterwards.\<close>

theorem enableService_answer:
  assumes ok: "db_ok (w_db w)" and srv: "path_unescape raw = Some srv"
    and call: "enableService E raw body w = (Ok (SyncResponse success resp), w')"
  shows "success \<and> CheckValidService srv \<and> (e_name E, srv) \<notin> abs_services (w_db w) \<and>
    abs_services (w_db w') = insert (e_name E, srv) (abs_services (w_db w)) \<and>
    (let n = length (members_with SrvCentral (w_db w')) in
       (EvenCentral (Warnings resp) \<longleftrightarrow> 0 < n \<and> even n) \<and> (FewCentral (Warnings resp) \<longleftrightarrow> 0 < n \<and> n < 3))"
proof -
  obtain x u w1 ws where e: "EnableService E srv (Some x) w = (Ok u, w1)" and s: "ServiceWarnings E w1 = (Ok ws, w')"
    and r: "success" "Warnings resp = ws"
    using call unfolding enableService_def path_var_def srv control_answer_def
    by (auto split: if_splits sum.splits elim!: or_resp_OkE)
  have "w_db w' = w_db w1" and "ws = (let n = length (members_with SrvCentral (w_db w1)) in
      \<lparr>EvenCentral = (0 < n \<and> even n), FewCentral = (0 < n \<and> n < 3)\<rparr>)"
    using s unfolding ServiceWarnings_def
    by (auto elim!: bind_OkE dest!: FindService_Ok simp: no_warnings_def Let_def even_iff_mod_2_eq_zero split: if_splits)
  with EnableService_Ok [OF ok e] r show ?thesis by (simp add: Let_def)
qed

text \<open>C38: when a forwarded request is answered with a version, the daemon has asked clients of the cluster in
  their order, each only if the host and the port in its URL are the address of a member that is registered with
  the central service; the version is what the last one of them, the first that answered, has sent.\<close>

theorem forwarded_version_from_central:
  assumes call: "forwardActiveSchemaVersion E dbSpec w = (Ok (SyncResponse ok v), w')"
  shows "ok \<and> (\<exists>tr pre c post evs t. e_peers E tr False = Inr (pre @ c # post) \<and> w_trace w' = evs @ tr \<and>
    w_trace w' = Http (p_url c) ''GET'' (schema_path dbSpec ''active'') # t \<and>
    e_http E t (p_url c) ''GET'' (schema_path dbSpec ''active'') JNull = Inr (JStr v) \<and>
    (\<forall>ev \<in> set evs. \<exists>x \<in> set (pre @ [c]). ev = Http (p_url x) ''GET'' (schema_path dbSpec ''active'') \<and>
       (\<exists>m \<in> set (members (w_db w)). (m_name m, ''central'') \<in> abs_services (w_db w) \<and>
          p_host x @ '':'' @ p_port x = m_addr m)) \<and>
    (\<exists>m \<in> set (members (w_db w)). (m_name m, ''central'') \<in> abs_services (w_db w) \<and>
       p_host c @ '':'' @ p_port c = m_addr m))"
proof -
  let ?central = "\<lambda>x. \<exists>m \<in> set (members (w_db w)). (m_name m, ''central'') \<in> abs_services (w_db w) \<and>
     p_host x @ '':'' @ p_port x = m_addr m"
  have central: "(\<exists>n \<in> set (members_with SrvCentral (w_db w)). client_addr x = m_addr n) \<longleftrightarrow> ?central x" for x
    by (auto simp: members_with_def client_addr_def SrvCentral_def)
  obtain tr pre c post evs where ok and ps: "e_peers E tr False = Inr (pre @ c # post)"
    and c: "?central c" and v: "answers E dbSpec c v (w_trace w')" and tr: "w_trace w' = evs @ tr"
    and evs: "\<forall>ev \<in> set evs. \<exists>x \<in> set (pre @ [c]). asked dbSpec (members_with SrvCentral (w_db w)) x ev"
    using forward_Ok [OF call] unfolding central by blast
  from v obtain t where t: "w_trace w' = Http (p_url c) ''GET'' (schema_path dbSpec ''active'') # t"
    "e_http E t (p_url c) ''GET'' (schema_path dbSpec ''active'') JNull = Inr (JStr v)" unfolding answers_def by blast
  have "\<forall>ev \<in> set evs. \<exists>x \<in> set (pre @ [c]). ev = Http (p_url x) ''GET'' (schema_path dbSpec ''active'') \<and> ?central x"
    using evs unfolding asked_def central by blast
  with \<open>ok\<close> ps c tr t show ?thesis by blast
qed

text \<open>A request is never answered when every central member has an IPv6 address: the client address is
  built without the brackets that the registered addresses have, so no member is ever asked.\<close>

theorem forward_fails_for_ipv6:
  assumes v6: "\<And>m. m \<in> set (members (w_db w)) \<Longrightarrow> (m_name m, SrvCentral) \<in> abs_services (w_db w) \<Longrightarrow>
      \<exists>ip port. CHR '':'' \<in> set ip \<and> m_addr m = JoinHostPort ip port"
    and hosts: "\<And>tr ps c. e_peers E tr False = Inr ps \<Longrightarrow> c \<in> set ps \<Longrightarrow> take 1 (p_host c) \<noteq> ''[''"
  shows "fst (forwardActiveSchemaVersion E dbSpec w) = Ok internal_error"
proof -
  obtain r w' where call: "forwardActiveSchemaVersion E dbSpec w = (Ok r, w')" by (rule total_ioE [OF tot_forward])
  have "r \<noteq> SyncResponse True v" for v
  proof
    assume "r = SyncResponse True v"
    with call have "forwardActiveSchemaVersion E dbSpec w = (Ok (SyncResponse True v), w')" by simp
    from forward_Ok [OF this] obtain tr pre c post m where ps: "e_peers E tr False = Inr (pre @ c # post)"
      and n: "m \<in> set (members_with SrvCentral (w_db w))" "client_addr c = m_addr m" by blast
    then have p: "e_peers E tr False = Inr (pre @ c # post)" "c \<in> set (pre @ c # post)"
      and m: "m \<in> set (members (w_db w))" "(m_name m, SrvCentral) \<in> abs_services (w_db w)" "client_addr c = m_addr m"
      by (simp_all add: members_with_def)
    from v6 [OF m(1,2)] m(3) have "take 1 (client_addr c) = ''[''" by (auto simp: JoinHostPort_def)
    with hosts [OF p] show False by (cases "p_host c") (auto simp: client_addr_def)
  qed
  with forward_answer [OF call] call show ?thesis by auto
qed

text \<open>The report of the expected versions names this member first and then every client of the cluster, in
  the order of the queries, whether it answered or not.\<close>

theorem report_covers_cluster:
  assumes call: "getAllExpectedSchemaVersions E raw w = (Ok (SyncResponse ok report), w')"
  shows "ok \<and> (\<exists>ps tr. e_peers E tr False = Inr ps \<and> map Schema_Host report = e_host E # map p_host ps \<and>
    Schema_Error (hd report) = SchemaErrorNone)"
proof -
  obtain d where "(or_resp (\<lambda>_. internal_error) (ExpectedOvsdbSchemaVersion E d) (\<lambda>localExpectedVersion.
     or_resp (\<lambda>_. internal_error) (peers E False) (\<lambda>clusterClient.
     bind (fold_io (member_version E d) clusterClient
        [\<lparr>Schema_Host = e_host E, SchemaVersion = localExpectedVersion, Schema_Error = SchemaErrorNone\<rparr>])
     (\<lambda>report. ret (SyncResponse True report))))) w = (Ok (SyncResponse ok report), w')"
    using call unfolding getAllExpectedSchemaVersions_def by (rule parseDbSpec_Ok)
  then obtain lv w1 ps w2 w3 where p: "peers E False w1 = (Ok ps, w2)" and ok: ok
    and f: "fold_io (member_version E d) ps
        [\<lparr>Schema_Host = e_host E, SchemaVersion = lv, Schema_Error = SchemaErrorNone\<rparr>] w2 = (Ok report, w3)"
    by (auto elim!: or_resp_OkE bind_OkE)
  from p have "e_peers E (w_trace w1) False = Inr ps" by (auto simp: run_peers split: sum.splits)
  moreover from member_report [OF f] obtain as where "report =
      \<lparr>Schema_Host = e_host E, SchemaVersion = lv, Schema_Error = SchemaErrorNone\<rparr> # as"
    "map Schema_Host as = map p_host ps" by auto
  ultimately show ?thesis using ok by auto
qed

section \<open>Witnesses\<close>

theorem enableService_answer_witness:
  "\<exists>resp :: ServiceControlResponse. \<not> EvenCentral (Warnings resp) \<and> \<not> FewCentral (Warnings resp)"
proof -
  let ?q = "enableService sample_env ''switch'' (Inr (enc_ExtraServiceConfig (Some None))) world_with_env"
  have d: "dec_ExtraServiceConfig (enc_ExtraServiceConfig (Some None)) = Inr None"
    using extra_wire.roundtrip [of "Some None"] by simp
  have p: "path_unescape ''switch'' = Some SrvSwitch" by (simp add: srv_defs)
  have "\<exists>resp. fst ?q = Ok (SyncResponse True resp)"
    by (simp add: enableService_def path_var_def p decode_def d control_answer_def evals world_with_env_def)
  then obtain resp where c: "?q = (Ok (SyncResponse True resp), snd ?q)" by (metis prod.collapse)
  note answer = enableService_answer [OF db_ok_sample(2) p c]
  then have "abs_services (w_db (snd ?q)) = {(''n1'', SrvSwitch)}"
    by (simp add: world_with_env_def sample_world_def sample_db_def sample_env_def abs_services_def)
  then have "members_with SrvCentral (w_db (snd ?q)) = []" by (simp add: members_with_def srv_defs)
  with answer show ?thesis by (auto simp: Let_def)
qed

text \<open>A cluster of one central member, reached over IPv4 or over IPv6.\<close>

definition central_env :: "string \<Rightarrow> env" where
  "central_env host = sample_env\<lparr>e_peers := (\<lambda>t n. Inr [\<lparr>p_url = ''u1'', p_host = host, p_port = ''6443''\<rparr>]),
     e_http := (\<lambda>t c m p b. Inr (JStr ''20.41.0''))\<rparr>"

definition central_world :: "string \<Rightarrow> world" where
  "central_world addr = world_with_central\<lparr>w_db := (w_db world_with_central)\<lparr>members :=
     [\<lparr>m_id = 1, m_name = ''n1'', m_addr = addr\<rparr>]\<rparr>\<rparr>"

theorem forwarded_version_from_central_witness:
  "\<exists>t. w_trace (snd (forwardActiveSchemaVersion (central_env ''10.0.0.1'') tiny_spec (central_world ''10.0.0.1:6443''))) =
     Http ''u1'' ''GET'' (schema_path tiny_spec ''active'') # t"
proof -
  let ?f = "forwardActiveSchemaVersion (central_env ''10.0.0.1'') tiny_spec (central_world ''10.0.0.1:6443'')"
  have "fst ?f = Ok (SyncResponse True ''20.41.0'')"
    by (simp add: forwardActiveSchemaVersion_def central_env_def central_world_def world_with_central_def client_addr_def
        c_GetActiveOvsdbSchemaVersion_def getOvsdbSchemaVersion_def query_def dec_str_def evals)
  then have "?f = (Ok (SyncResponse True ''20.41.0''), snd ?f)" by (metis prod.collapse)
  from forwarded_version_from_central [OF this] obtain tr pre c post t where
    "e_peers (central_env ''10.0.0.1'') tr False = Inr (pre @ c # post)"
    "w_trace (snd ?f) = Http (p_url c) ''GET'' (schema_path tiny_spec ''active'') # t" by blast
  moreover from this(1) have "p_url c = ''u1''"
    by (cases pre) (auto simp: central_env_def)
  ultimately show ?thesis by auto
qed

theorem forward_fails_for_ipv6_witness:
  "fst (forwardActiveSchemaVersion (central_env ''fd00::1'') tiny_spec (central_world ''[fd00::1]:6443'')) =
     Ok internal_error"
proof (rule forward_fails_for_ipv6)
  fix m assume "m \<in> set (members (w_db (central_world ''[fd00::1]:6443'')))"
  then have "m_addr m = JoinHostPort ''fd00::1'' ''6443''" by (simp add: central_world_def JoinHostPort_def)
  then show "\<exists>ip port. CHR '':'' \<in> set ip \<and> m_addr m = JoinHostPort ip port"
    by (intro exI [of _ "''fd00::1''"] exI) auto
qed (auto simp: central_env_def)

theorem report_covers_cluster_witness:
  "\<exists>report :: OvsdbSchemaVersionResult list. map Schema_Host report = [''10.0.0.1'', ''h1'']"
proof -
  let ?f = "getAllExpectedSchemaVersions (central_env ''h1'') ''sb'' sample_world"
  have "\<exists>report. fst ?f = Ok (SyncResponse True report)"
    by (simp add: getAllExpectedSchemaVersions_def parseDbSpec_def path_var_def to_lower_def lower_char_def
        supportedDBs_def NewOvsdbSpec_def ExpectedOvsdbSchemaVersion_def member_version_def central_env_def
        c_GetExpectedOvsdbSchemaVersion_def getOvsdbSchemaVersion_def query_def dec_str_def evals)
  then obtain report where "?f = (Ok (SyncResponse True report), snd ?f)" by (metis prod.collapse)
  from report_covers_cluster [OF this] have "map Schema_Host report = [''10.0.0.1'', ''h1'']"
    by (auto simp: central_env_def sample_env_def)
  then show ?thesis by (rule exI [of _ report])
qed

end
