(* ===== verification/Daemon.thy ===== *)
theory Daemon
  imports ConfigApi CertApi ServiceApi
begin

text \<open>
  The daemon as a whole (cmd/microovnd/main.go, api/endpoints.go, version/version.go): the hooks it
  registers with the cluster library, the table of its endpoints, and the steps the cluster takes
  when members run hooks and serve requests, one after the other, on the shared database.
\<close>

section \<open>Hooks\<close>

definition MajorVersion :: "string \<Rightarrow> string" where
  "MajorVersion version = (let versionSlice = split_on CHR ''.'' version in
     join ''.'' (take (min 2 (length versionSlice)) versionSlice))"

text \<open>The events for which the library calls the daemon, with the options of \<open>init\<close> or \<open>join\<close>.\<close>

datatype hook = PostBootstrap "(string \<times> string) list" | PreJoin "(string \<times> string) list"
  | OnNewMember | PreRemove | PostRemove | OnStart

definition run_hook :: "env \<Rightarrow> ((string \<times> DevlinkPort) list \<Rightarrow> (string \<times> DevlinkPort) list) \<Rightarrow> hook \<Rightarrow> unit io" where
  "run_hook E order h = (case h of
       PostBootstrap initConfig \<Rightarrow> Bootstrap E order initConfig
     | PreJoin initConfig \<Rightarrow> Join E order initConfig
     | OnNewMember \<Rightarrow> Refresh E
     | PreRemove \<Rightarrow> Leave E
     | PostRemove \<Rightarrow> Refresh E
     | OnStart \<Rightarrow> bind (StartDaemon E) (\<lambda>_. ret ()))"

section \<open>Endpoints\<close>

datatype endpoint = ListCmd | ServiceControlCmd string | RegenerateEnvEndpoint
  | IssueCertificatesEndpoint string | IssueCertificatesAllEndpoint | RegenerateCaEndpoint
  | ActiveSchemaVersion string | AllExpectedSchemaVersions string | ExpectedSchemaVersion string
  | ConfigEndpoint | BgpSetupEndpoint | BgpCheckInterfaceEndpoint

text \<open>The path below the prefix \<open>types.APIVersion\<close>; a variable of the path is one segment
  that is not empty.\<close>

definition find_endpoint :: "string list \<Rightarrow> endpoint option" where
  "find_endpoint p =
     (if p = [''services''] then Some ListCmd
      else if p = [''env''] then Some RegenerateEnvEndpoint
      else if p = [''certificates''] then Some IssueCertificatesAllEndpoint
      else if p = [''ca''] then Some RegenerateCaEndpoint
      else if p = [''config''] then Some ConfigEndpoint
      else if p = [''bgp'', ''setup''] then Some BgpSetupEndpoint
      else if p = [''bgp'', ''check-interface''] then Some BgpCheckInterfaceEndpoint
      else (case p of
          [a, s] \<Rightarrow> if s = [] then None else if a = ''service'' then Some (ServiceControlCmd s)
                     else if a = ''certificates'' then Some (IssueCertificatesEndpoint s) else None
        | [a, b, s, c] \<Rightarrow> if s = [] then None else if a = ''ovsdb'' \<and> b = ''schema'' \<and> c = ''active'' then Some (ActiveSchemaVersion s)
                     else if a = ''ovsdb'' \<and> b = ''schema'' \<and> c = ''expected'' then Some (ExpectedSchemaVersion s) else None
        | [a, b, s, c, d] \<Rightarrow> if s \<noteq> [] \<and> a = ''ovsdb'' \<and> b = ''schema'' \<and> c = ''expected'' \<and> d = ''all''
                     then Some (AllExpectedSchemaVersions s) else None
        | _ \<Rightarrow> None))"

definition served :: "('a \<Rightarrow> json) \<Rightarrow> 'a response io \<Rightarrow> json response io" where
  "served enc h = bind h (\<lambda>r. ret (map_response enc r))"

definition enc_list :: "('a \<Rightarrow> json) \<Rightarrow> 'a list \<Rightarrow> json" where
  "enc_list enc xs = JList (map enc xs)"

text \<open>\<open>r.URL.Query().Get("name")\<close> of a query with one plain parameter.\<close>

definition query_name :: "string \<Rightarrow> string" where
  "query_name q = (case cut CHR ''='' q of Some (n, v) \<Rightarrow> if n = ''name'' then v else [] | None \<Rightarrow> [])"

text \<open>The action of an endpoint for a method; \<open>notification\<close> says that the request comes from a member.\<close>

fun action :: "env \<Rightarrow> bool \<Rightarrow> string \<Rightarrow> string \<Rightarrow> goerr + json \<Rightarrow> endpoint \<Rightarrow> json response io option" where
  "action E notification q meth body ListCmd =
     (if meth = ''GET'' then Some (served (enc_list enc_Service) (cmdServicesGet E)) else None)"
| "action E notification q meth body (ServiceControlCmd s) =
     (if meth = ''DELETE'' then Some (served enc_ServiceControlResponse (disableService E s body))
      else if meth = ''PUT'' then Some (served enc_ServiceControlResponse (enableService E s body)) else None)"
| "action E notification q meth body RegenerateEnvEndpoint =
     (if meth = ''POST'' then Some (served enc_RegenerateEnvResponse (regenerateEnvPost E notification)) else None)"
| "action E notification q meth body (IssueCertificatesEndpoint s) =
     (if meth = ''PUT'' then Some (served enc_IssueCertificateResponse (issueCertificatesPut E s)) else None)"
| "action E notification q meth body IssueCertificatesAllEndpoint =
     (if meth = ''PUT'' then Some (served enc_IssueCertificateResponse (issueCertificatesAllPut E)) else None)"
| "action E notification q meth body RegenerateCaEndpoint =
     (if meth = ''PUT'' then Some (served enc_RegenerateCaResponse (regenerateCaPut E notification))
      else if meth = ''POST'' then Some (served enc_RegenerateCaResponse (setCaPost E notification body))
      else if meth = ''GET'' then Some (served enc_CaInfo (infoCaGet E)) else None)"
| "action E notification q meth body (ActiveSchemaVersion s) =
     (if meth = ''GET'' then Some (served JStr (getActiveSchemaVersion E s)) else None)"
| "action E notification q meth body (AllExpectedSchemaVersions s) =
     (if meth = ''GET'' then Some (served (enc_list enc_SchemaVersionResult) (getAllExpectedSchemaVersions E s)) else None)"
| "action E notification q meth body (ExpectedSchemaVersion s) =
     (if meth = ''GET'' then Some (served JStr (getExpectedSchemaVersion E s)) else None)"
| "action E notification q meth body ConfigEndpoint =
     (if meth = ''GET'' then Some (served enc_GetConfigResponse (getConfig E body))
      else if meth = ''POST'' then Some (served enc_SetConfigResponse (setConfig E body))
      else if meth = ''DELETE'' then Some (served enc_SetConfigResponse (deleteConfig E body)) else None)"
| "action E notification q meth body BgpSetupEndpoint =
     (if meth = ''POST'' then Some (served enc_SetupBgpResponse (setupBgpHandler E notification body)) else None)"
| "action E notification q meth body BgpCheckInterfaceEndpoint =
     (if meth = ''GET'' then Some (served (\<lambda>m. JObj (map (\<lambda>(k, b). (k, JBool b)) m)) (checkInterfaceHandler E (query_name q)))
      else None)"

definition route :: "env \<Rightarrow> bool \<Rightarrow> string \<Rightarrow> string \<Rightarrow> goerr + json \<Rightarrow> json response io option" where
  "route E notification meth url body =
     (case (case cut CHR ''?'' url of None \<Rightarrow> (url, []) | Some pq \<Rightarrow> pq) of (path, q) \<Rightarrow>
        Option.bind (find_endpoint (split_on CHR ''/'' path)) (action E notification q meth body))"

section \<open>Steps of the cluster\<close>

inductive daemon_step :: "env \<Rightarrow> world \<Rightarrow> world \<Rightarrow> bool" for E where
  hook: "run_hook E order h w = (r, w') \<Longrightarrow> daemon_step E w w'"
| request: "route E notification meth url body = Some h \<Longrightarrow> h w = (r, w') \<Longrightarrow> daemon_step E w w'"

text \<open>
  The database is shared: a step of another member is seen through its tables. The library adds and
  removes members, and with a member its services.
\<close>

inductive cluster_step :: "env \<Rightarrow> world \<Rightarrow> world \<Rightarrow> bool" for E where
  here: "daemon_step E w w' \<Longrightarrow> cluster_step E w w'"
| elsewhere: "daemon_step E' v v' \<Longrightarrow> w_db v = w_db w \<Longrightarrow> w' = w\<lparr>w_db := w_db v'\<rparr> \<Longrightarrow> cluster_step E w w'"
| membership: "db_ok (w_db w') \<Longrightarrow> set (services (w_db w')) \<subseteq> set (services (w_db w)) \<Longrightarrow>
    configs (w_db w') = configs (w_db w) \<Longrightarrow> cluster_step E w w'"

section \<open>Invariants of the tables\<close>

text \<open>
  An invariant that single statements of a member keep: adding the row of a known service of its own,
  removing one, and writing an option, which for \<open>ovn.central-ips\<close> has to be a list of addresses. What
  writes no entry of the security log then keeps it.
\<close>

definition option_ok :: "string \<Rightarrow> string \<Rightarrow> bool" where
  "option_ok k v \<longleftrightarrow> (k = ''ovn.central-ips'' \<longrightarrow> central_ips_ok v)"

locale table_writes = b: fs_blind P for P +
  fixes E :: env
  assumes rollback: "P w \<Longrightarrow> P w' \<Longrightarrow> P (w'\<lparr>w_db := w_db w\<rparr>)"
    and insert: "P w \<Longrightarrow> CheckValidService s \<Longrightarrow> insert_service (e_name E) s (w_db w) = Inr (d', i) \<Longrightarrow> P (w\<lparr>w_db := d'\<rparr>)"
    and delete: "P w \<Longrightarrow> delete_by_member_service (e_name E) s (w_db w) = Inr (d', i) \<Longrightarrow> P (w\<lparr>w_db := d'\<rparr>)"
    and insert_option: "P w \<Longrightarrow> option_ok k v \<Longrightarrow> insert_config k v (w_db w) = Inr (d', i) \<Longrightarrow> P (w\<lparr>w_db := d'\<rparr>)"
    and update_option: "P w \<Longrightarrow> option_ok k v \<Longrightarrow> update_config k v j (w_db w) = Inr (d', i) \<Longrightarrow> P (w\<lparr>w_db := d'\<rparr>)"
    and delete_option: "P w \<Longrightarrow> delete_config k (w_db w) = Inr (d', i) \<Longrightarrow> P (w\<lparr>w_db := d'\<rparr>)"
begin

lemma keeps_exec:
  "(\<And>w d' x. P w \<Longrightarrow> f (w_db w) = Inr (d', x) \<Longrightarrow> P (w\<lparr>w_db := d'\<rparr>)) \<Longrightarrow> keeps P (exec_stmt E n f)"
  unfolding exec_stmt_def by (intro keeps_rules b.keeps_step) (auto simp: keeps_def split: sum.splits)

lemma keeps_transaction: "keeps P m \<Longrightarrow> keeps P (transaction E m)"
proof (rule keepsI)
  fix w r w' assume m: "keeps P m" and w: "P w" and run: "transaction E m w = (r, w')"
  let ?m = "bind (step E (Sql ''BEGIN'')) (\<lambda>_. bind m (\<lambda>x. andthen (step E (Sql ''COMMIT'')) (ret x)))"
  have "keeps P ?m" by (intro keeps_rules b.keeps_step m)
  then have "P (snd (?m w))" using w by (simp add: keeps_def)
  with run w rollback [OF w] show "P w'"
    by (auto simp: transaction_def split: prod.splits res.splits)
qed

lemma keeps_statements:
  "CheckValidService s \<Longrightarrow> keeps P (exec_stmt E n (insert_service (e_name E) s))"
  "keeps P (exec_stmt E n (delete_by_member_service (e_name E) s))"
  "option_ok k v \<Longrightarrow> keeps P (exec_stmt E n (insert_config k v))"
  "option_ok k v \<Longrightarrow> keeps P (exec_stmt E n (update_config k v j))"
  "keeps P (exec_stmt E n (delete_config k))"
  by (rule keeps_exec; blast intro: insert delete insert_option update_option delete_option)+

lemma keeps_mapper:
  "CheckValidService srv \<Longrightarrow> keeps P (CreateService E (row_of (e_name E) srv))"
  "keeps P (Database.DeleteService E (e_name E) srv)"
  "option_ok (ci_key c) (ci_value c) \<Longrightarrow> keeps P (CreateConfigItem E c)"
  "option_ok (ci_key c) (ci_value c) \<Longrightarrow> keeps P (UpdateConfigItem E k c)"
  "keeps P (DeleteConfigItem E k)"
  unfolding mapper_defs row_of_def service.select_convs
  by (intro keeps_rules keeps_statements b.keeps_step b.keeps_ServiceExists b.keeps_ConfigItemExists
      b.keeps_GetConfigItemID b.keeps_rows_affected; assumption)+

lemma keeps_options:
  "option_ok k v \<Longrightarrow> keeps P (SetConfig E k v)"
  "keeps P (DeleteConfig E k)"
  unfolding SetConfig_def DeleteConfig_def
  by (intro keeps_on_err keeps_transaction keeps_rules keeps_mapper b.keeps_ConfigItemExists;
      simp add: config_item_def)+

lemma keeps_storeCA: "keeps P (storeCA E c k r)"
proof -
  have "option_ok k' v" if "k' \<in> {CACertRecordName, CAKeyRecordName, CAAutoRenew}" for k' v
    using that by (auto simp: option_ok_def CACertRecordName_def CAKeyRecordName_def CAAutoRenew_def)
  then show ?thesis
    unfolding storeCA_def store_item_def Let_def
    by (intro keeps_transaction keeps_rules keeps_mapper b.keeps_GetConfigItem; simp add: config_item_def)
qed

text \<open>The two operations after their entry in the security log.\<close>

lemma keeps_service_bodies:
  "keeps P (bind (HasServiceActive E srv) (\<lambda>exists.
     if exists then fail (ErrS ''this service is already enabled'')
     else if \<not> CheckValidService srv then fail (ErrS ''service does not exist'')
     else
       bind (transaction E (CreateService E (row_of (e_name E) srv))) (\<lambda>_.
       andthen (on_err (wrapf ''failed to regenerate environment file after enabling central service: '')
          (GenerateEnvironment E))
       (start_or_rollback E srv c))))"
  "keeps P (bind (HasServiceActive E srv) (\<lambda>exists.
     if \<not> exists then fail (ErrS ''this service is not enabled'')
     else
       bind (check_last_central E srv allow) (\<lambda>lastCentral.
       andthen (transaction E (DeleteService E (e_name E) srv))
       (stop_service E srv lastCentral))))"
  unfolding start_or_rollback_def
  by (intro keeps_rules keeps_transaction keeps_mapper b.keeps_node_reads b.keeps_check_last
      b.keeps_start_stop b.keeps_GenerateEnvironment; simp)+

lemma keeps_check_chain: "keeps P (for_each (check_ca_cert E) chain)"
  by (intro keeps_rules)

lemma keeps_set_body: "accepted body = Some v \<Longrightarrow> keeps P (SetConfig E ''ovn.central-ips'' v)"
  by (rule keeps_options) (simp add: option_ok_def accepted_ok)

end

text \<open>An invariant that also survives the entries of the security log: every hook and every handler keeps it,
  whatever fails on the way.\<close>

locale table_inv = table_writes +
  assumes log: "P w \<Longrightarrow> e_security_log E \<Longrightarrow> P (w\<lparr>w_trace := Audit m c # w_trace w\<rparr>)"
begin

lemma keeps_Log: "keeps P (Log E cat ev x f a)"
  by (cases "e_security_log E") (auto simp: keeps_def Log_def Let_def log run)

lemma keeps_log_stored: "keeps P (log_stored E a msg u)"
  unfolding log_stored_def by (intro keeps_rules keeps_Log)

lemma keeps_services:
  "keeps P (EnableService E srv c)"
  "keeps P (DisableService E srv allow)"
  unfolding EnableService_def DisableService_def by (intro keeps_andthen keeps_Log keeps_service_bodies)+

lemma keeps_CA:
  "keeps P (GenerateNewCACertificate E)"
  "keeps P (SetNewCACertificate E c k)"
  unfolding GenerateNewCACertificate_def SetNewCACertificate_def
  by (intro keeps_rules keeps_storeCA keeps_log_stored)+

lemma keeps_bgp:
  "keeps P (EnableBgpOnNodeFromClusterConfig E)"
  "keeps P (EnableBgpFromOVSExternalIDs E)"
  unfolding EnableBgpOnNodeFromClusterConfig_def EnableBgpFromOVSExternalIDs_def enable_on_bridge_def Let_def
  by (intro keeps_rules b.keeps_GetConfig b.keeps_get_or_nil b.keeps_bgp_reads b.keeps_node_reads
      keeps_services)+

lemma keeps_start_requested:
  "keeps P m \<Longrightarrow> keeps P (start_requested E srvs ip m)"
  unfolding start_requested_def
  by (intro keeps_rules keeps_services b.keeps_setup)

lemma keeps_finish_setup: "keeps P (finish_setup E order)"
  unfolding finish_setup_def by (intro keeps_rules keeps_bgp b.keeps_setup)

lemma keeps_activation: "keeps P (ActivateEnabledServices E b)"
  unfolding ActivateEnabledServices_def
  by (intro keeps_transaction keeps_rules b.keeps_GetServices b.keeps_activate)

lemma keeps_hook: "keeps P (run_hook E order h)"
proof (cases h)
  case (PostBootstrap cs)
  show ?thesis
    unfolding run_hook_def PostBootstrap hook.case Bootstrap_def bootstrap_ca_def
    by (intro keeps_rules b.keeps_setup b.keeps_options keeps_CA b.keeps_DumpCA keeps_start_requested
        keeps_finish_setup b.keeps_cluster)
next
  case (PreJoin cs)
  show ?thesis
    unfolding run_hook_def PreJoin hook.case Join_def
    by (intro keeps_rules b.keeps_setup b.keeps_options b.keeps_count b.keeps_DumpCA keeps_start_requested
        keeps_finish_setup b.keeps_cluster b.keeps_GetConfig b.keeps_bgp_reads keeps_bgp keeps_Log)
next
  case PreRemove
  show ?thesis
    unfolding run_hook_def PreRemove hook.case Leave_def DisableAllServices_def
    by (intro keeps_rules keeps_services b.keeps_setup keeps_Log)
next
  case OnStart
  show ?thesis
    unfolding run_hook_def OnStart hook.case StartDaemon_def
    by (intro keeps_rules b.keeps_setup keeps_activation b.keeps_node_reads b.keeps_cluster b.keeps_run_cmd keeps_Log)
qed (auto simp: run_hook_def intro: b.keeps_refresh)

lemma keeps_served: "keeps P h \<Longrightarrow> keeps P (served enc h)"
  unfolding served_def by (intro keeps_rules)

lemma keeps_warnings: "keeps P (ServiceWarnings E)"
  unfolding ServiceWarnings_def by (intro keeps_rules b.keeps_node_reads)

lemma keeps_control: "keeps P (enableService E s body)" "keeps P (disableService E s body)"
  unfolding enableService_def disableService_def control_answer_def
  by (intro keeps_rules keeps_services keeps_warnings)+

lemma keeps_ca_handlers:
  "keeps P (regenerateCaPut E n)" "keeps P (setCaPost E n body)"
  unfolding regenerateCaPut_def setCaPost_def
  by (intro keeps_rules keeps_CA b.keeps_update_cluster keeps_Log)+

lemma keeps_issue_handlers:
  "keeps P (issueCertificatesPut E s)" "keeps P (issueCertificatesAllPut E)"
  "keeps P (infoCaGet E)"
  unfolding issueCertificatesPut_def issueCertificatesAllPut_def infoCaGet_def
  by (intro keeps_rules b.keeps_reissue b.keeps_GenerateNewServiceCertificate b.keeps_enabled
      b.keeps_IsCaRenewable keeps_Log)+

lemma keeps_config_handlers: "keeps P (setConfig E body)" "keeps P (deleteConfig E body)"
proof -
  show "keeps P (setConfig E body)"
  proof (cases "accepted body")
    case None
    then show ?thesis by (auto simp: parse_set_None setConfig_def intro: keeps_pure)
  next
    case (Some v)
    note p = Some [unfolded parse_set_Some]
    show ?thesis
      unfolding setConfig_def p sum.case prod.case run_handler_def option.case SetConfigRequest.select_convs
      by (intro keeps_rules keeps_or_resp keeps_Log keeps_set_body [OF Some] b.keeps_handler)
  qed
  show "keeps P (deleteConfig E body)"
  proof (cases "parse_get body")
    case (Inl e)
    then show ?thesis by (simp add: deleteConfig_def keeps_pure)
  next
    case (Inr p)
    then obtain req h where p: "parse_get body = Inr (req, h)" by (cases p) simp
    with parse_get_Inr [OF p] show ?thesis
      unfolding deleteConfig_def p sum.case prod.case run_handler_def
      by (auto intro!: keeps_rules keeps_or_resp keeps_Log keeps_options b.keeps_handler)
  qed
qed

lemma keeps_save_entries:
  "(\<And>k v m. ((k, v), m) \<in> set es \<Longrightarrow> option_ok k v) \<Longrightarrow> keeps P k \<Longrightarrow>
    keeps P (save_entries E es k)"
proof (induction es)
  case (Cons e es)
  obtain key val msg where e: "e = ((key, val), msg)" by (metis prod.exhaust)
  have "option_ok key val" using Cons.prems(1) by (auto simp: e)
  moreover have "keeps P (save_entries E es k)" using Cons by auto
  ultimately show ?case
    unfolding e save_entries.simps by (intro keeps_or_resp keeps_options)
qed simp

lemma keeps_setup_handler: "keeps P (setupBgpHandler E n body)"
proof -
  have h: "keeps P (setup_here E errs)" for errs
    unfolding setup_here_def Let_def by (intro keeps_rules keeps_bgp)
  have c: "keeps P (setup_cluster E req)" for req
    unfolding setup_cluster_def by (intro keeps_rules h b.keeps_bgp_reads)
  have "option_ok k v" if "((k, v), m) \<in> set (setup_entries req)" for k v m req
    using that by (auto simp: setup_entries_def option_ok_def BgpConfigKeyCluster_def BgpConfigKeyInterface_def
        BgpConfigKeyBridge_def BgpConfigKeyAsn_def BgpConfigKeyAsnRange_def BgpConfigKeyConnectionIP4Range_def
        split: if_splits)
  then show ?thesis
    unfolding setupBgpHandler_def by (intro keeps_rules keeps_save_entries h c)
qed

lemma keeps_readers:
  "keeps P (cmdServicesGet E)" "keeps P (regenerateEnvPost E n)"
  "keeps P (getExpectedSchemaVersion E s)" "keeps P (getAllExpectedSchemaVersions E s)"
  "keeps P (getActiveSchemaVersion E s)"
  unfolding cmdServicesGet_def regenerateEnvPost_def refresh_member_def getExpectedSchemaVersion_def parseDbSpec_def
    getAllExpectedSchemaVersions_def member_version_def getActiveSchemaVersion_def forwardActiveSchemaVersion_def
    ExpectedOvsdbSchemaVersion_def Let_def
  by (intro keeps_rules b.keeps_node_reads b.keeps_refresh b.keeps_client b.keeps_ask_clients
      b.keeps_ctl b.keeps_run_cmd)+

lemma keeps_action:
  assumes "action E notification q meth body ep = Some h"
  shows "keeps P h"
  using assms
  by (cases ep)
     (auto split: if_splits intro!: keeps_served keeps_control keeps_ca_handlers keeps_issue_handlers
        keeps_config_handlers keeps_setup_handler b.keeps_getConfig b.keeps_interface
        keeps_readers)

lemma keeps_route: "route E notification meth url body = Some h \<Longrightarrow> keeps P h"
  by (auto simp: route_def bind_eq_Some_conv split: prod.splits dest: keeps_action)

lemma keeps_daemon_step: "daemon_step E w w' \<Longrightarrow> P w \<Longrightarrow> P w'"
  by (induction rule: daemon_step.induct) (auto dest: keepsD [OF keeps_hook] keepsD [OF keeps_route])

end

text \<open>The case of an invariant of the tables alone.\<close>

lemma table_inv_db:
  assumes "\<And>d s d' i. I d \<Longrightarrow> CheckValidService s \<Longrightarrow> insert_service (e_name E) s d = Inr (d', i) \<Longrightarrow> I d'"
    and "\<And>d s d' i. I d \<Longrightarrow> delete_by_member_service (e_name E) s d = Inr (d', i) \<Longrightarrow> I d'"
    and "\<And>d k v d' i. I d \<Longrightarrow> option_ok k v \<Longrightarrow> insert_config k v d = Inr (d', i) \<Longrightarrow> I d'"
    and "\<And>d k v j d' i. I d \<Longrightarrow> option_ok k v \<Longrightarrow> update_config k v j d = Inr (d', i) \<Longrightarrow> I d'"
    and "\<And>d k d' i. I d \<Longrightarrow> delete_config k d = Inr (d', i) \<Longrightarrow> I d'"
  shows "table_inv (\<lambda>w. I (w_db w)) E"
  by unfold_locales (simp_all, (blast intro: assms)+)

section \<open>The invariants\<close>

definition tables_ok :: "db \<Rightarrow> bool" where
  "tables_ok d \<longleftrightarrow> db_ok d \<and> (\<forall>r \<in> set (services d). CheckValidService (sr_service r)) \<and>
     (\<forall>r \<in> set (configs d). option_ok (cr_key r) (cr_value r))"

lemma statement_rows:
  "insert_service m s d = Inr (d', i) \<Longrightarrow> configs d' = configs d \<and>
     (\<forall>r \<in> set (services d'). r \<in> set (services d) \<or> sr_service r = s)"
  "delete_rows p d = Inr (d', i) \<Longrightarrow> configs d' = configs d \<and> set (services d') \<subseteq> set (services d)"
  "insert_config k v d = Inr (d', i) \<Longrightarrow> services d' = services d \<and>
     (\<forall>r \<in> set (configs d'). r \<in> set (configs d) \<or> cr_key r = k \<and> cr_value r = v)"
  "update_config k v j d = Inr (d', i) \<Longrightarrow> services d' = services d \<and>
     (\<forall>r \<in> set (configs d'). r \<in> set (configs d) \<or> cr_key r = k \<and> cr_value r = v)"
  "delete_config k d = Inr (d', i) \<Longrightarrow> services d' = services d \<and> set (configs d') \<subseteq> set (configs d)"
  by (auto simp: insert_service_def delete_rows_def insert_config_def update_config_def delete_config_def Let_def
      split: option.splits if_splits)

interpretation tables: table_inv "\<lambda>w. tables_ok (w_db w)" E for E
proof (rule table_inv_db)
  fix d d' s i assume "tables_ok d" and "CheckValidService s" and "insert_service (e_name E) s d = Inr (d', i)"
  then show "tables_ok d'"
    using insert_service_ok [of d "e_name E" s d' i] statement_rows(1) [of "e_name E" s d d' i]
    unfolding tables_ok_def by metis
next
  fix d d' s i assume "tables_ok d" and "delete_by_member_service (e_name E) s d = Inr (d', i)"
  then show "tables_ok d'"
    using delete_rows_ok [of d _ d' i] statement_rows(2) [of _ d d' i]
    unfolding tables_ok_def delete_by_member_service_def by (metis subsetD)
next
  fix d d' k v i assume "tables_ok d" and "option_ok k v" and "insert_config k v d = Inr (d', i)"
  then show "tables_ok d'"
    using insert_config_ok [of d k v d' i] statement_rows(3) [of k v d d' i] unfolding tables_ok_def by metis
next
  fix d d' k v j i assume "tables_ok d" and "option_ok k v" and "update_config k v j d = Inr (d', i)"
  then show "tables_ok d'"
    using update_config_ok [of d k v j d' i] statement_rows(4) [of k v j d d' i] unfolding tables_ok_def by metis
next
  fix d d' k i assume "tables_ok d" and "delete_config k d = Inr (d', i)"
  then show "tables_ok d'"
    using delete_config_ok [of d k d' i] statement_rows(5) [of k d d' i] unfolding tables_ok_def by (metis subsetD)
qed

text \<open>What a member finds of the others in the registry.\<close>

definition of_others :: "string \<Rightarrow> db \<Rightarrow> (string \<times> string) set" where
  "of_others me d = {(m, s) \<in> abs_services d. m \<noteq> me}"

lemma insert_statement:
  assumes "db_ok d" and "insert_service m s d = Inr (d', i)"
  shows "db_ok d'" and "of_others m d' = of_others m d" and "members d' = members d"
  using insert_service_ok [OF assms] abs_insert_service [OF assms] assms(2)
  by (auto simp: of_others_def insert_service_def split: option.splits if_splits)

lemma delete_statement:
  assumes "db_ok d" and "delete_by_member_service m s d = Inr (d', i)"
  shows "db_ok d'" and "of_others m d' = of_others m d" and "members d' = members d"
proof -
  show "db_ok d'" using assms(2) unfolding delete_by_member_service_def by (rule delete_rows_ok [OF assms(1)])
  show "of_others m d' = of_others m d" using abs_delete_service [OF assms] by (auto simp: of_others_def)
  show "members d' = members d" using assms(2) by (auto simp: delete_by_member_service_def delete_rows_def)
qed

lemma option_members:
  "insert_config k v d = Inr (d', i) \<Longrightarrow> members d' = members d"
  "update_config k v j d = Inr (d', i) \<Longrightarrow> members d' = members d"
  "delete_config k d = Inr (d', i) \<Longrightarrow> members d' = members d"
  by (auto simp: insert_config_def update_config_def delete_config_def Let_def split: if_splits)

lemma option_others:
  "insert_config k v d = Inr (d', i) \<Longrightarrow> of_others me d' = of_others me d"
  "update_config k v j d = Inr (d', i) \<Longrightarrow> of_others me d' = of_others me d"
  "delete_config k d = Inr (d', i) \<Longrightarrow> of_others me d' = of_others me d"
  unfolding of_others_def by (simp_all only: config_writes_services)

interpretation others: table_inv "\<lambda>w. db_ok (w_db w) \<and> of_others (e_name E) (w_db w) = X \<and> members (w_db w) = M" E for E X M
proof (rule table_inv_db [where I = "\<lambda>d. db_ok d \<and> of_others (e_name E) d = X \<and> members d = M"])
  fix d d' s i assume "db_ok d \<and> of_others (e_name E) d = X \<and> members d = M"
    and "insert_service (e_name E) s d = Inr (d', i)"
  then show "db_ok d' \<and> of_others (e_name E) d' = X \<and> members d' = M"
    using insert_statement [of d "e_name E" s d' i] by simp
next
  fix d d' s i assume "db_ok d \<and> of_others (e_name E) d = X \<and> members d = M"
    and "delete_by_member_service (e_name E) s d = Inr (d', i)"
  then show "db_ok d' \<and> of_others (e_name E) d' = X \<and> members d' = M"
    using delete_statement [of d "e_name E" s d' i] by simp
next
  fix d d' k v i assume "db_ok d \<and> of_others (e_name E) d = X \<and> members d = M"
    and "insert_config k v d = Inr (d', i)"
  then show "db_ok d' \<and> of_others (e_name E) d' = X \<and> members d' = M"
    using insert_config_ok [of d k v d' i] option_members(1) option_others(1) by metis
next
  fix d d' k v j i assume "db_ok d \<and> of_others (e_name E) d = X \<and> members d = M"
    and "update_config k v j d = Inr (d', i)"
  then show "db_ok d' \<and> of_others (e_name E) d' = X \<and> members d' = M"
    using update_config_ok [of d k v j d' i] option_members(2) option_others(2) by metis
next
  fix d d' k i assume "db_ok d \<and> of_others (e_name E) d = X \<and> members d = M" and "delete_config k d = Inr (d', i)"
  then show "db_ok d' \<and> of_others (e_name E) d' = X \<and> members d' = M"
    using delete_config_ok [of d k d' i] option_members(3) option_others(3) by metis
qed

lemma cluster_step_tables: "cluster_step E w w' \<Longrightarrow> tables_ok (w_db w) \<Longrightarrow> tables_ok (w_db w')"
  by (induction rule: cluster_step.induct) (auto dest: tables.keeps_daemon_step simp: tables_ok_def)

lemma cluster_steps_tables: "(cluster_step E)\<^sup>*\<^sup>* w w' \<Longrightarrow> tables_ok (w_db w) \<Longrightarrow> tables_ok (w_db w')"
  by (induction rule: rtranclp_induct) (auto dest: cluster_step_tables)

lemma CheckValidService_names: "CheckValidService s \<longleftrightarrow> s \<in> set ServiceNames"
proof -
  have "CheckValidService_loop ns s \<longleftrightarrow> s \<in> set ns" for ns by (induction ns) auto
  then show ?thesis by (simp add: CheckValidService_def)
qed

text \<open>C1: Whatever hooks and requests the members of a cluster run, in whatever order and with whatever
  failures, from empty tables on, the schema holds, only known services are registered, and the option
  \<open>ovn.central-ips\<close>, when it is set, is a nonempty list of IP addresses.\<close>

theorem reachable_tables_ok:
  assumes "(cluster_step E)\<^sup>*\<^sup>* w w'" and "members_keys (w_db w)" and "services (w_db w) = []" and "configs (w_db w) = []"
  shows "db_ok (w_db w') \<and> snd ` abs_services (w_db w') \<subseteq> set ServiceNames \<and>
    (case abs_config (w_db w') ''ovn.central-ips'' of None \<Rightarrow> True | Some v \<Rightarrow> central_ips_ok v)"
proof -
  have "tables_ok (w_db w)"
    using assms(2-4) by (simp add: tables_ok_def db_ok_def services_schema_def config_schema_def)
  then have ok: "tables_ok (w_db w')" by (rule cluster_steps_tables [OF assms(1)])
  have "central_ips_ok v" if "abs_config (w_db w') ''ovn.central-ips'' = Some v" for v
    using ok that by (auto simp: tables_ok_def db_ok_def abs_config_iff option_ok_def)
  with ok show ?thesis
    by (auto simp: tables_ok_def in_abs_services CheckValidService_names split: option.splits)
qed

text \<open>C15: A hook or a request changes only the registrations of the member that runs it, and never the
  list of members.\<close>

theorem daemon_changes_own_services:
  assumes "db_ok (w_db w)" and "daemon_step E w w'"
  shows "of_others (e_name E) (w_db w') = of_others (e_name E) (w_db w) \<and> members (w_db w') = members (w_db w)"
  using others.keeps_daemon_step [OF assms(2)] assms(1) by blast

section \<open>The client and the endpoints\<close>

text \<open>
  What the cluster library promises: a request that is routed to a handler and answered with a value
  reaches the client as that value, be it marked as a success or not.
\<close>

definition delivers :: "env \<Rightarrow> string \<Rightarrow> env \<Rightarrow> world \<Rightarrow> bool" where
  "delivers E c E' v \<longleftrightarrow> (\<forall>t meth url body h ok j. route E' False meth url (Inr body) = Some h \<longrightarrow>
     fst (h v) = Ok (SyncResponse ok j) \<longrightarrow> e_http E t c meth url body = Inr j)"

text \<open>A request that is not answered with a value, because there is no such endpoint, the handler refused it or
  it panicked, is an error of the client.\<close>

definition relays :: "env \<Rightarrow> string \<Rightarrow> env \<Rightarrow> world \<Rightarrow> bool" where
  "relays E c E' v \<longleftrightarrow> delivers E c E' v \<and>
     (\<forall>t meth url body h. route E' False meth url (Inr body) = Some h \<longrightarrow>
        (\<forall>ok j. fst (h v) \<noteq> Ok (SyncResponse ok j)) \<longrightarrow> (\<exists>e. e_http E t c meth url body = Inl e))"

text \<open>The client function returns what the handler answers.\<close>

definition answered_by :: "'b io \<Rightarrow> world \<Rightarrow> 'a response io \<Rightarrow> world \<Rightarrow> ('a \<Rightarrow> 'b) \<Rightarrow> bool" where
  "answered_by call w handler v f \<longleftrightarrow>
     (\<forall>ok x. fst (handler v) = Ok (SyncResponse ok x) \<longrightarrow> fst (call w) = Ok (f x))"

lemma query_answered:
  assumes "delivers E c E' v" and "route E' False meth url (Inr body) = Some (served enc h)"
    and "\<And>x. dec (enc x) = Inr (f x)"
  shows "answered_by (query E c meth url body dec) w h v f"
  unfolding answered_by_def
proof (intro allI impI)
  fix ok x assume h: "fst (h v) = Ok (SyncResponse ok x)"
  then have "fst (served enc h v) = Ok (SyncResponse ok (enc x))"
    by (cases "h v") (simp add: served_def bind_def ret_def)
  then have "e_http E (w_trace w) c meth url body = Inr (enc x)"
    using assms(1,2) unfolding delivers_def by blast
  then show "fst (query E c meth url body dec w) = Ok (f x)"
    by (simp add: query_def bind_def http_def assms(3) ret_def)
qed

lemma query_relayed:
  assumes "relays E c E' v" and "route E' False meth url (Inr body) = Some (served enc h)"
    and "fst (query E c meth url body dec w) = Ok x"
  shows "\<exists>ok y. fst (h v) = Ok (SyncResponse ok y)"
proof (rule ccontr)
  assume no: "\<nexists>ok y. fst (h v) = Ok (SyncResponse ok y)"
  have "fst (served enc h v) \<noteq> Ok (SyncResponse ok j)" for ok j
  proof (cases h v rule: io_cases)
    case (Ok r w1)
    then show ?thesis using no by (cases r) (auto simp: served_def bind_def ret_def)
  qed (simp_all add: served_def bind_def)
  then obtain e where "e_http E (w_trace w) c meth url body = Inl e"
    using assms(1,2) unfolding relays_def by blast
  then show False
    using assms(3) by (simp add: query_def bind_def http_def)
qed

lemma answered_on_err: "answered_by m w h v f \<Longrightarrow> answered_by (on_err g m) w h v f"
  unfolding answered_by_def by (auto simp: on_err_def attempt_def bind_def ret_def split: prod.splits res.splits)

lemma answered_then:
  assumes "answered_by m w h v f" and "\<And>x w1. k (f x) w1 = (Ok (g x), w1)"
  shows "answered_by (bind m k) w h v g"
  using assms unfolding answered_by_def
  by (auto simp: bind_def split: prod.splits res.splits)

definition plain_segment :: "string \<Rightarrow> bool" where
  "plain_segment s \<longleftrightarrow> s \<noteq> [] \<and> CHR ''/'' \<notin> set s \<and> CHR ''?'' \<notin> set s"

lemma fixed_routes:
  "route E n ''GET'' ''services'' b = Some (served (enc_list enc_Service) (cmdServicesGet E))"
  "route E n ''POST'' ''env'' b = Some (served enc_RegenerateEnvResponse (regenerateEnvPost E n))"
  "route E n ''PUT'' ''certificates'' b = Some (served enc_IssueCertificateResponse (issueCertificatesAllPut E))"
  "route E n ''PUT'' ''ca'' b = Some (served enc_RegenerateCaResponse (regenerateCaPut E n))"
  "route E n ''POST'' ''ca'' b = Some (served enc_RegenerateCaResponse (setCaPost E n b))"
  "route E n ''GET'' ''ca'' b = Some (served enc_CaInfo (infoCaGet E))"
  "route E n ''GET'' ''config'' b = Some (served enc_GetConfigResponse (getConfig E b))"
  "route E n ''POST'' ''config'' b = Some (served enc_SetConfigResponse (setConfig E b))"
  "route E n ''DELETE'' ''config'' b = Some (served enc_SetConfigResponse (deleteConfig E b))"
  "route E n ''POST'' ''bgp/setup'' b = Some (served enc_SetupBgpResponse (setupBgpHandler E n b))"
  by (simp_all add: route_def find_endpoint_def)

lemma routes_with_variable:
  assumes "plain_segment s"
  shows "route E n ''PUT'' (''certificates/'' @ s) b = Some (served enc_IssueCertificateResponse (issueCertificatesPut E s))"
    and "route E n ''PUT'' (service_path s t) b = Some (served enc_ServiceControlResponse (enableService E s b))"
    and "route E n ''DELETE'' (service_path s t) b = Some (served enc_ServiceControlResponse (disableService E s b))"
    and "ShortName d = s \<Longrightarrow> route E n ''GET'' (schema_path d ''active'') b = Some (served JStr (getActiveSchemaVersion E s))"
    and "ShortName d = s \<Longrightarrow> route E n ''GET'' (schema_path d ''expected'') b =
      Some (served JStr (getExpectedSchemaVersion E s))"
    and "ShortName d = s \<Longrightarrow> route E n ''GET'' (schema_path d ''expected/all'') b =
      Some (served (enc_list enc_SchemaVersionResult) (getAllExpectedSchemaVersions E s))"
proof -
  have full: "s \<noteq> []" and slash: "CHR ''/'' \<notin> set s" and mark: "CHR ''?'' \<notin> set s"
    using assms by (simp_all add: plain_segment_def)
  from slash mark have "cut CHR ''?'' (s @ CHR ''/'' # r) = map_option (\<lambda>(a, b). (s @ CHR ''/'' # a, b)) (cut CHR ''?'' r)" for r
    by (induction s) (auto split: option.splits)
  note simps = route_def find_endpoint_def service_path_def schema_path_def full split_on_no_sep [OF slash]
    split_on_append_sep [OF slash] cut_None_iff [THEN iffD2, OF mark] cut_append [OF mark] this
  show "route E n ''PUT'' (''certificates/'' @ s) b = Some (served enc_IssueCertificateResponse (issueCertificatesPut E s))"
    by (simp add: simps)
  show "route E n ''PUT'' (service_path s t) b = Some (served enc_ServiceControlResponse (enableService E s b))"
    "route E n ''DELETE'' (service_path s t) b = Some (served enc_ServiceControlResponse (disableService E s b))"
    by (simp_all add: simps)
  assume d: "ShortName d = s"
  show "route E n ''GET'' (schema_path d ''active'') b = Some (served JStr (getActiveSchemaVersion E s))"
    "route E n ''GET'' (schema_path d ''expected'') b = Some (served JStr (getExpectedSchemaVersion E s))"
    "route E n ''GET'' (schema_path d ''expected/all'') b =
      Some (served (enc_list enc_SchemaVersionResult) (getAllExpectedSchemaVersions E s))"
    by (simp_all add: d simps)
qed

text \<open>What a call returns when the handler answers with a value, and that it fails, in the way \<open>bad\<close> of the call,
  when the handler does not.\<close>

definition repeats :: "'b io \<Rightarrow> world \<Rightarrow> 'a response io \<Rightarrow> world \<Rightarrow> ('a \<Rightarrow> 'b) \<Rightarrow> ('b res \<Rightarrow> bool) \<Rightarrow> bool" where
  "repeats call w handler v good bad \<longleftrightarrow> (case fst (handler v) of
       Ok (SyncResponse ok x) \<Rightarrow> fst (call w) = Ok (good x)
     | _ \<Rightarrow> bad (fst (call w)))"

definition failed :: "'b res \<Rightarrow> bool" where
  "failed r \<longleftrightarrow> (\<exists>e. r = Er e)"

definition no_version :: "(string \<times> OvsdbSchemaFetchError) res \<Rightarrow> bool" where
  "no_version r \<longleftrightarrow> (\<exists>e. r = Ok ([], e) \<and> e \<noteq> SchemaErrorNone)"

text \<open>The calls that change a service: after the answer the environment of the members is regenerated when the
  service is central, and the result of that request is part of what is returned.\<close>

definition repeats_control :: "(WarningSet \<times> RegenerateEnvResponse) io \<Rightarrow> world \<Rightarrow> ServiceControlResponse response io \<Rightarrow>
    world \<Rightarrow> (RegenerateEnvResponse io) option \<Rightarrow> bool" where
  "repeats_control call w handler v regenerate \<longleftrightarrow> (case fst (handler v) of
       Ok (SyncResponse ok x) \<Rightarrow> (case regenerate of
           None \<Rightarrow> fst (call w) = Ok (Warnings x, NewRegenerateEnvResponse)
         | Some m \<Rightarrow> (\<exists>w1. call w = bind m (\<lambda>env. ret (Warnings x, env)) w1))
     | _ \<Rightarrow> failed (fst (call w)))"

lemma sync_cases:
  fixes q :: "'a response res"
  obtains ok x where "q = Ok (SyncResponse ok x)" | "\<nexists>ok x. q = Ok (SyncResponse ok x)"
  by blast

lemma other_case: "\<nexists>ok x. q = Ok (SyncResponse ok x) \<Longrightarrow> (case q of Ok (SyncResponse ok x) \<Rightarrow> f ok x | _ \<Rightarrow> g) = g"
  by (cases q) (auto split: response.split)

lemma query_repeats:
  assumes "relays E c E' v" and "route E' False meth url (Inr body) = Some (served enc h)"
    and "\<And>x. dec (enc x) = Inr (f x)"
  shows "repeats (query E c meth url body dec) w h v f failed"
proof (cases "fst (h v)" rule: sync_cases)
  case (1 ok x)
  have "delivers E c E' v" using assms(1) by (simp add: relays_def)
  then have "answered_by (query E c meth url body dec) w h v f"
    by (rule query_answered [OF _ assms(2)]) (rule assms(3))
  with 1 show ?thesis by (simp add: repeats_def answered_by_def)
next
  case 2
  have np: "no_panic (query E c meth url body dec)" by (rule np_query)
  have "fst (query E c meth url body dec w) \<noteq> Ok x" for x
    using query_relayed [OF assms(1,2), of dec w x] 2 by blast
  with np have "failed (fst (query E c meth url body dec w))"
    by (cases "query E c meth url body dec" w rule: io_cases) (auto simp: failed_def dest: no_panicD)
  with 2 show ?thesis unfolding repeats_def by (subst other_case) auto
qed

lemma repeats_on_err: "repeats m w h v f failed \<Longrightarrow> repeats (on_err g m) w h v f failed"
  unfolding repeats_def failed_def
  by (cases m w rule: io_cases) (auto simp: run split: res.splits response.splits)

text \<open>C13: For every function of the client the table of the endpoints leads its method and path to the handler that
  reads the message it sends, and the function returns what that handler answers. When the handler answers
  with an error, or not at all, the function returns an error; the two that ask for a schema version then
  report which error it was. After enabling or disabling the central service the functions return with the
  warnings what the members answered to the request to regenerate their environment.\<close>

theorem client_answered_by_endpoints:
  assumes "relays E c E' v" and "plain_segment srv" and "plain_segment (ShortName d)"
  shows "repeats (c_GetServices E c) w (cmdServicesGet E') v id failed
    \<and> repeats_control (c_EnableService E c srv cfg target) w (enableService E' srv (Inr (enc_ExtraServiceConfig cfg))) v
        (if srv = SrvCentral then Some (c_RegenerateEnvironment E c) else None)
    \<and> repeats_control (c_DisableService E c srv b target) w
        (disableService E' srv (Inr (enc_DisableServiceRequest \<lparr>AllowDisableLastCentral = b\<rparr>))) v
        (if srv = SrvCentral then Some (c_RegenerateEnvironment E c) else None)
    \<and> repeats (c_RegenerateEnvironment E c) w (regenerateEnvPost E' False) v id failed
    \<and> repeats (c_ReissueCertificate E c srv) w (issueCertificatesPut E' srv) v id failed
    \<and> repeats (c_ReissueAllCertificate E c) w (issueCertificatesAllPut E') v id failed
    \<and> repeats (c_RegenerateCA E c) w (regenerateCaPut E' False) v id failed
    \<and> repeats (c_SetCA E c cert key) w
        (setCaPost E' False (Inr (enc_CustomCaRequest \<lparr>Ca_Certificate = cert, Ca_PrivateKey = key\<rparr>))) v id failed
    \<and> repeats (c_GetCaInfo E c) w (infoCaGet E') v id failed
    \<and> repeats (c_GetActiveOvsdbSchemaVersion E c d) w (getActiveSchemaVersion E' (ShortName d)) v
        (\<lambda>x. (x, SchemaErrorNone)) no_version
    \<and> repeats (c_GetExpectedOvsdbSchemaVersion E c d) w (getExpectedSchemaVersion E' (ShortName d)) v
        (\<lambda>x. (x, SchemaErrorNone)) no_version
    \<and> repeats (c_GetAllExpectedOvsdbSchemaVersions E c d) w (getAllExpectedSchemaVersions E' (ShortName d)) v id failed
    \<and> repeats (c_SetConfig E c k val) w (setConfig E' (Inr (enc_SetConfigRequest \<lparr>Set_Key = k, Set_Value = val\<rparr>))) v id failed
    \<and> repeats (c_GetConfig E c k) w (getConfig E' (Inr (enc_GetConfigRequest \<lparr>Get_Key = k\<rparr>))) v id failed
    \<and> repeats (c_DeleteConfig E c k) w (deleteConfig E' (Inr (enc_GetConfigRequest \<lparr>Get_Key = k\<rparr>))) v id failed
    \<and> repeats (c_SetupBgp E c req) w (setupBgpHandler E' False (Inr (enc_SetupBgpRequest req))) v id failed"
proof -
  have lists: "dec_list dec_Service (enc_list enc_Service xs) = Inr (id xs)"
    "dec_list dec_SchemaVersionResult (enc_list enc_SchemaVersionResult ys) = Inr (id ys)" for xs ys
    using service_wire.list_roundtrip [of xs] schema_wire.list_roundtrip [of ys] by (simp_all add: enc_list_def dec_list_def)
  note send = query_repeats [OF assms(1)] and fixed = fixed_routes
    and var = routes_with_variable [OF assms(2)] and schema = routes_with_variable [OF assms(3)]
  have control: "repeats_control (bind (on_err g (query E c meth url body dec_ServiceControlResponse)) (regenerate_after E c srv)) w
      h v (if srv = SrvCentral then Some (c_RegenerateEnvironment E c) else None)"
    if r: "route E' False meth url (Inr body) = Some (served enc_ServiceControlResponse h)" for g meth url body h
  proof -
    let ?q = "on_err g (query E c meth url body dec_ServiceControlResponse)"
    have q: "repeats ?q w h v id failed"
      by (rule repeats_on_err, rule send, rule r, rule control_wire.roundtrip)
    then show ?thesis
      unfolding repeats_def repeats_control_def failed_def
      by (cases ?q w rule: io_cases)
        (auto simp: bind_def [where m = ?q] regenerate_after_def NewRegenerateEnvResponse_def run_ret split: res.splits response.splits)
  qed
  have version: "repeats (getOvsdbSchemaVersion E c d target) w h v (\<lambda>x. (x, SchemaErrorNone)) no_version"
    if r: "route E' False ''GET'' (schema_path d target) (Inr JNull) = Some (served JStr h)" for target h
  proof -
    let ?q = "query E c ''GET'' (schema_path d target) JNull dec_str"
    have "repeats ?q w h v id failed"
      by (rule send, rule r, rule str_wire.roundtrip)
    then show ?thesis unfolding repeats_def failed_def no_version_def getOvsdbSchemaVersion_def
      by (cases ?q w rule: io_cases) (auto simp: bind_def attempt_def ret_def split: res.splits response.splits)
  qed
  show ?thesis
    unfolding c_GetServices_def c_EnableService_def c_DisableService_def c_RegenerateEnvironment_def [of E c]
      c_ReissueCertificate_def c_ReissueAllCertificate_def c_RegenerateCA_def c_SetCA_def c_GetCaInfo_def
      c_GetExpectedOvsdbSchemaVersion_def c_GetActiveOvsdbSchemaVersion_def c_GetAllExpectedOvsdbSchemaVersions_def
      c_SetConfig_def c_GetConfig_def c_DeleteConfig_def c_SetupBgp_def
    by ((rule conjI repeats_on_err control [unfolded c_RegenerateEnvironment_def [of E c]] version fixed var schema lists
        service_wire.roundtrip env_wire.roundtrip
        issue_wire.roundtrip ca_wire.roundtrip info_wire.roundtrip set_response_wire.roundtrip
        get_response_wire.roundtrip setup_response_wire.roundtrip refl) | rule send)+
qed

section \<open>Witnesses\<close>

text \<open>A request that sets the central addresses, on a member with empty tables.\<close>

lemma sample_request: "\<exists>w'. daemon_step sample_env sample_world w'"
proof -
  obtain h where h: "route sample_env False ''POST'' ''config'' address_request = Some h"
    using fixed_routes(8) by blast
  obtain r w' where "h sample_world = (r, w')" by fastforce
  with h show ?thesis by (blast intro: daemon_step.request)
qed

theorem reachable_tables_ok_witness:
  "\<exists>w'. cluster_step sample_env sample_world w' \<and> db_ok (w_db w') \<and> snd ` abs_services (w_db w') \<subseteq> set ServiceNames"
proof -
  obtain w' where step: "cluster_step sample_env sample_world w'"
    using sample_request by (blast intro: cluster_step.here)
  have "members_keys (w_db sample_world)" "services (w_db sample_world) = []" "configs (w_db sample_world) = []"
    by (simp_all add: sample_world_def sample_db_def members_keys_def)
  from reachable_tables_ok [OF r_into_rtranclp [of "cluster_step sample_env", OF step] this] step show ?thesis by blast
qed

theorem daemon_changes_own_services_witness:
  "\<exists>w'. daemon_step sample_env sample_world w' \<and> of_others ''n1'' (w_db w') = {} \<and>
     map m_name (members (w_db w')) = [''n1'']"
proof -
  obtain w' where step: "daemon_step sample_env sample_world w'" using sample_request by blast
  have "of_others ''n1'' (w_db sample_world) = {}" "map m_name (members (w_db sample_world)) = [''n1'']"
    "e_name sample_env = ''n1''"
    by (simp_all add: of_others_def abs_services_def sample_world_def sample_db_def sample_env_def)
  with daemon_changes_own_services [OF db_ok_sample(1) step] step show ?thesis by metis
qed

text \<open>A library that delivers what the endpoints of \<open>sample_env\<close> answer.\<close>

definition wired_env :: "world \<Rightarrow> env" where
  "wired_env v = sample_env\<lparr>e_http := (\<lambda>t c meth url body.
     case route sample_env False meth url (Inr body) of
       None \<Rightarrow> Inl (StatusErr 404 ''Not Found'')
     | Some h \<Rightarrow> (case fst (h v) of
           Ok (SyncResponse ok j) \<Rightarrow> Inr j
         | _ \<Rightarrow> Inl (StatusErr 500 ''Internal Server Error'')))\<rparr>"

theorem client_answered_by_endpoints_witness:
  "repeats (c_GetConfig (wired_env sample_world) ''local'' ''ovn.central-ips'') sample_world
     (getConfig sample_env (Inr (enc_GetConfigRequest \<lparr>Get_Key = ''ovn.central-ips''\<rparr>))) sample_world id failed"
proof -
  have relays: "relays (wired_env sample_world) ''local'' sample_env sample_world"
    by (auto simp: relays_def delivers_def wired_env_def split: res.splits response.splits)
  have "plain_segment SrvCentral" by (simp add: plain_segment_def srv_defs)
  from client_answered_by_endpoints [OF relays this, of tiny_spec] show ?thesis
    by (simp add: tiny_spec_def plain_segment_def)
qed

end
