(* ===== verification/Schema.thy ===== *)
theory Schema
  imports Database
begin

text \<open>
  The migrations of package \<open>database\<close> (schema.go): \<open>schemaUpdate1\<close> to \<open>schemaUpdate3\<close> as sequences of SQL
  statements on a catalogue of tables, each with its constraints, its rows and its \<open>AUTOINCREMENT\<close>
  counter. The lemmas show that a database of any earlier version ends, with all its rows, in the
  tables that theory \<open>Database\<close> is about, and that an \<open>INSERT\<close> under those constraints is
  \<open>insert_service\<close> and \<open>insert_config\<close> of that theory.
\<close>

section \<open>Tables and statements\<close>

datatype sql_value = VNull | VInt nat | VText string

datatype column_type = INTEGER | TEXT

text \<open>A foreign key refers to the column \<open>id\<close> of its table.\<close>

record foreign_key =
  fk_column :: string
  fk_table :: string
  fk_cascade :: bool

text \<open>
  In every table of the program the first column is \<open>id INTEGER PRIMARY KEY AUTOINCREMENT\<close> and every
  column is \<open>NOT NULL\<close>.
\<close>

record table_def =
  td_columns :: "(string \<times> column_type) list"
  td_unique :: "string list list"
  td_foreign :: "foreign_key list"

record sql_table =
  t_def :: table_def
  t_rows :: "sql_value list list"
  t_seq :: nat

type_synonym catalog = "string \<Rightarrow> sql_table option"

datatype sql =
    CreateTable string table_def
  | InsertSelect string "string list" string   \<comment> \<open>\<open>INSERT INTO t SELECT columns FROM s\<close>\<close>
  | DropTable string
  | RenameTable string string
  | Pragma string

definition column_names :: "sql_table \<Rightarrow> string list" where
  "column_names t = map fst (td_columns (t_def t))"

definition field :: "sql_table \<Rightarrow> sql_value list \<Rightarrow> string \<Rightarrow> sql_value option" where
  "field t row col = map_of (zip (column_names t) row) col"

definition key :: "sql_table \<Rightarrow> string list \<Rightarrow> sql_value list \<Rightarrow> sql_value option list" where
  "key t cols row = map (field t row) cols"

definition no_such_table :: "string \<Rightarrow> goerr" where
  "no_such_table name = ErrS (''no such table: '' @ name)"

text \<open>The constraints of a row, in the order in which SQLite checks them.\<close>

definition null_column :: "sql_table \<Rightarrow> sql_value list \<Rightarrow> (string \<times> sql_value) option" where
  "null_column t row = find (\<lambda>(col, v). v = VNull) (tl (zip (column_names t) row))"

definition violated_key :: "sql_table \<Rightarrow> sql_value list \<Rightarrow> string list option" where
  "violated_key t row =
     find (\<lambda>cols. list_ex (\<lambda>r. key t cols r = key t cols row) (t_rows t)) ([''id''] # td_unique (t_def t))"

definition refers :: "catalog \<Rightarrow> sql_table \<Rightarrow> sql_value list \<Rightarrow> foreign_key \<Rightarrow> bool" where
  "refers c t row fk = (case c (fk_table fk) of None \<Rightarrow> False
     | Some p \<Rightarrow> list_ex (\<lambda>r. field p r ''id'' = field t row (fk_column fk)) (t_rows p))"

definition of_table :: "string \<Rightarrow> string \<Rightarrow> string" where
  "of_table name col = name @ ''.'' @ col"

text \<open>\<open>fks\<close> says whether the connection enforces foreign keys. Without a value for \<open>id\<close> the counter gives it.\<close>

definition insert_row :: "bool \<Rightarrow> string \<Rightarrow> sql_value list \<Rightarrow> catalog \<Rightarrow> goerr + catalog \<times> nat" where
  "insert_row fks name row c = (case c name of
       None \<Rightarrow> Inl (no_such_table name)
     | Some t \<Rightarrow> (case null_column t row of
         Some (col, _) \<Rightarrow> Inl (ErrS (''NOT NULL constraint failed: '' @ of_table name col))
       | None \<Rightarrow>
           let i = (case hd row of VInt i \<Rightarrow> i | _ \<Rightarrow> t_seq t + 1); row' = VInt i # tl row in
           (case violated_key t row' of
              Some cols \<Rightarrow> Inl (ErrS (''UNIQUE constraint failed: '' @ join '', '' (map (of_table name) cols)))
            | None \<Rightarrow>
                if fks \<and> \<not> list_all (refers c t row') (td_foreign (t_def t))
                then Inl (ErrS ''FOREIGN KEY constraint failed'')
                else Inr (c(name \<mapsto> t\<lparr>t_rows := t_rows t @ [row'], t_seq := max (t_seq t) i\<rparr>), i))))"

fun insert_rows :: "bool \<Rightarrow> string \<Rightarrow> sql_value list list \<Rightarrow> catalog \<Rightarrow> goerr + catalog" where
  "insert_rows fks name [] c = Inr c"
| "insert_rows fks name (r # rs) c = (case insert_row fks name r c of
       Inl e \<Rightarrow> Inl e | Inr (c', _) \<Rightarrow> insert_rows fks name rs c')"

text \<open>
  A statement that runs inside a transaction; there \<open>PRAGMA foreign_keys\<close> has no effect. No foreign key
  refers to a table that is dropped or renamed here.
\<close>

fun sql_exec :: "bool \<Rightarrow> sql \<Rightarrow> catalog \<Rightarrow> goerr + catalog" where
  "sql_exec fks (CreateTable name td) c =
     (if c name \<noteq> None then Inl (ErrS (''table '' @ name @ '' already exists''))
      else Inr (c(name \<mapsto> \<lparr>t_def = td, t_rows = [], t_seq = 0\<rparr>)))"
| "sql_exec fks (InsertSelect name cols src) c = (case c src of
       None \<Rightarrow> Inl (no_such_table src)
     | Some t \<Rightarrow> (case find (\<lambda>col. col \<notin> set (column_names t)) cols of
         Some col \<Rightarrow> Inl (ErrS (''no such column: '' @ col))
       | None \<Rightarrow> insert_rows fks name (map (\<lambda>r. map (\<lambda>col. case field t r col of None \<Rightarrow> VNull | Some v \<Rightarrow> v) cols)
           (t_rows t)) c))"
| "sql_exec fks (DropTable name) c =
     (if c name = None then Inl (no_such_table name) else Inr (c(name := None)))"
| "sql_exec fks (RenameTable old new) c = (case c old of
       None \<Rightarrow> Inl (no_such_table old)
     | Some t \<Rightarrow> if c new \<noteq> None then Inl (ErrS (''there is already another table or index with this name: '' @ new))
         else Inr (c(old := None, new \<mapsto> t)))"
| "sql_exec fks (Pragma p) c = Inr c"

fun sql_exec_all :: "bool \<Rightarrow> sql list \<Rightarrow> catalog \<Rightarrow> goerr + catalog" where
  "sql_exec_all fks [] c = Inr c"
| "sql_exec_all fks (s # ss) c = (case sql_exec fks s c of Inl e \<Rightarrow> Inl e | Inr c' \<Rightarrow> sql_exec_all fks ss c')"

section \<open>The updates\<close>

text \<open>
  \<open>F\<close> is the database: it may fail a query or an execution, given by its name. A list of statements in one
  text is one execution.
\<close>

type_synonym faults = "string \<Rightarrow> goerr option"

definition exec_context :: "faults \<Rightarrow> bool \<Rightarrow> sql list \<Rightarrow> catalog \<Rightarrow> goerr + catalog" where
  "exec_context F fks ss c = (case F ''exec'' of Some e \<Rightarrow> Inl e | None \<Rightarrow> sql_exec_all fks ss c)"

definition member_tables :: "catalog \<Rightarrow> string list" where
  "member_tables c = filter (\<lambda>n. c n \<noteq> None) [''internal_cluster_members'', ''core_cluster_members'']"

definition getClusterTableName :: "faults \<Rightarrow> catalog \<Rightarrow> goerr + string" where
  "getClusterTableName F c = (case F ''select'' of Some e \<Rightarrow> Inl e
     | None \<Rightarrow> (case member_tables c of
         [t] \<Rightarrow> if t = [] then Inl (ErrS ''no cluster members table found'') else Inr t
       | _ \<Rightarrow> Inl (ErrS ''no cluster members table found'')))"

definition config_columns :: table_def where
  "config_columns = \<lparr>td_columns = [(''id'', INTEGER), (''key'', TEXT), (''value'', TEXT)],
     td_unique = [[''key'']], td_foreign = []\<rparr>"

definition services_columns :: "string \<Rightarrow> bool \<Rightarrow> table_def" where
  "services_columns tableName cascade =
     \<lparr>td_columns = [(''id'', INTEGER), (''member_id'', INTEGER), (''service'', TEXT)],
      td_unique = [[''member_id'', ''service'']],
      td_foreign = [\<lparr>fk_column = ''member_id'', fk_table = tableName, fk_cascade = cascade\<rparr>]\<rparr>"

definition schemaUpdate1 :: "faults \<Rightarrow> bool \<Rightarrow> catalog \<Rightarrow> goerr + catalog" where
  "schemaUpdate1 F fks c = (case getClusterTableName F c of Inl e \<Rightarrow> Inl e
     | Inr tableName \<Rightarrow> exec_context F fks
         [CreateTable ''config'' config_columns, CreateTable ''services'' (services_columns tableName False)] c)"

definition schemaUpdate2 :: "faults \<Rightarrow> bool \<Rightarrow> catalog \<Rightarrow> goerr + catalog" where
  "schemaUpdate2 F fks c = (case getClusterTableName F c of Inl e \<Rightarrow> Inl e
     | Inr tableName \<Rightarrow> exec_context F fks
         [Pragma ''foreign_keys = OFF'',
          CreateTable ''services_new'' (services_columns tableName True),
          InsertSelect ''services_new'' [''id'', ''member_id'', ''service''] ''services'',
          DropTable ''services'',
          RenameTable ''services_new'' ''services'',
          Pragma ''foreign_keys = ON''] c)"

definition schemaUpdate3 :: "faults \<Rightarrow> bool \<Rightarrow> catalog \<Rightarrow> goerr + catalog" where
  "schemaUpdate3 F fks c = exec_context F fks
     [CreateTable ''services_new'' (services_columns ''core_cluster_members'' True),
      InsertSelect ''services_new'' [''id'', ''member_id'', ''service''] ''services'',
      DropTable ''services'',
      RenameTable ''services_new'' ''services''] c"

definition SchemaExtensions :: "(faults \<Rightarrow> bool \<Rightarrow> catalog \<Rightarrow> goerr + catalog) list" where
  "SchemaExtensions = [schemaUpdate1, schemaUpdate2, schemaUpdate3]"

text \<open>The cluster library applies, in order, the updates a database of version \<open>v\<close> does not have yet.\<close>

fun run_updates :: "(faults \<Rightarrow> bool \<Rightarrow> catalog \<Rightarrow> goerr + catalog) list \<Rightarrow> faults \<Rightarrow> bool \<Rightarrow> catalog \<Rightarrow> goerr + catalog" where
  "run_updates [] F fks c = Inr c"
| "run_updates (u # us) F fks c = (case u F fks c of Inl e \<Rightarrow> Inl e | Inr c' \<Rightarrow> run_updates us F fks c')"

definition upgrade_from :: "nat \<Rightarrow> faults \<Rightarrow> bool \<Rightarrow> catalog \<Rightarrow> goerr + catalog" where
  "upgrade_from v = run_updates (drop v SchemaExtensions)"

section \<open>The tables of theory Database in the catalogue\<close>

definition member_columns :: table_def where
  "member_columns = \<lparr>td_columns = [(''id'', INTEGER), (''name'', TEXT), (''address'', TEXT)],
     td_unique = [[''name'']], td_foreign = []\<rparr>"

definition members_table :: "db \<Rightarrow> sql_table" where
  "members_table d = \<lparr>t_def = member_columns,
     t_rows = map (\<lambda>m. [VInt (m_id m), VText (m_name m), VText (m_addr m)]) (members d), t_seq = 0\<rparr>"

definition config_table :: "db \<Rightarrow> sql_table" where
  "config_table d = \<lparr>t_def = config_columns,
     t_rows = map (\<lambda>r. [VInt (cr_id r), VText (cr_key r), VText (cr_value r)]) (configs d), t_seq = next_config d - 1\<rparr>"

definition service_values :: "service_row \<Rightarrow> sql_value list" where
  "service_values r = [VInt (sr_id r), VInt (sr_member r), VText (sr_service r)]"

definition services_table :: "string \<Rightarrow> bool \<Rightarrow> db \<Rightarrow> sql_table" where
  "services_table tableName cascade d = \<lparr>t_def = services_columns tableName cascade,
     t_rows = map service_values (services d), t_seq = next_service d - 1\<rparr>"

text \<open>
  The catalogue at version \<open>v\<close>: the tables of the cluster library in \<open>B\<close>, its table of members, and from
  version 1 on the two tables of the program. At the versions 1 and 2 the foreign key refers to the table
  that existed when the update ran. This is a specification: theorem \<open>updates_keep_rows\<close> shows that the
  statements of the updates lead from each version to the next, the cascade of the foreign key included.
\<close>

definition catalog_at :: "catalog \<Rightarrow> string \<Rightarrow> nat \<Rightarrow> db \<Rightarrow> catalog" where
  "catalog_at B tableName v d =
     (let c = B(''core_cluster_members'' \<mapsto> members_table d) in
      if v = 0 then c
      else c(''config'' \<mapsto> config_table d,
             ''services'' \<mapsto> services_table (if v < 3 then tableName else ''core_cluster_members'') (1 < v) d))"


lemmas table_defs = field_def key_def column_names_def config_columns_def services_columns_def member_columns_def

definition max_id :: "service_row list \<Rightarrow> nat" where
  "max_id rs = fold (\<lambda>r. max (sr_id r)) rs 0"

text \<open>A migrated table starts its counter anew, at the greatest identifier it holds.\<close>

definition renumbered :: "db \<Rightarrow> db" where
  "renumbered d = d\<lparr>next_service := Suc (max_id (services d))\<rparr>"

section \<open>Inserting under the constraints of the tables\<close>

lemma null_services_row [simp]:
  "null_column \<lparr>t_def = services_columns r b, t_rows = rs, t_seq = n\<rparr> [i, v, s] =
     (if v = VNull then Some (''member_id'', v) else if s = VNull then Some (''service'', s) else None)"
  by (simp add: null_column_def table_defs)

lemma violated_services_key [simp]:
  "violated_key \<lparr>t_def = services_columns t b, t_rows = map service_values rs, t_seq = n\<rparr> [VInt i, VInt m, VText s] =
     (if i \<in> set (map sr_id rs) then Some [''id'']
      else if (m, s) \<in> set (map (\<lambda>r. (sr_member r, sr_service r)) rs) then Some [''member_id'', ''service''] else None)"
  by (auto simp: violated_key_def service_values_def list_ex_iff table_defs)

lemma refers_member:
  assumes "c ''core_cluster_members'' = Some (members_table d)"
  shows "list_all (refers c \<lparr>t_def = services_columns ''core_cluster_members'' b, t_rows = rs, t_seq = n\<rparr> [i, VInt m, s])
     (td_foreign (services_columns ''core_cluster_members'' b)) \<longleftrightarrow> m \<in> set (map m_id (members d))"
  by (auto simp: refers_def assms members_table_def list_ex_iff table_defs)

lemma insert_row_Ok:
  assumes "c name = Some t" and "null_column t (VInt i # vs) = None" and "violated_key t (VInt i # vs) = None"
    and "list_all (refers c t (VInt i # vs)) (td_foreign (t_def t))"
  shows "insert_row fks name (VInt i # vs) c =
    Inr (c(name \<mapsto> t\<lparr>t_rows := t_rows t @ [VInt i # vs], t_seq := max (t_seq t) i\<rparr>), i)"
  using assms by (simp add: insert_row_def)

lemma insert_rows_services:
  assumes "distinct (map sr_id (ps @ rs))" and "distinct (map (\<lambda>r. (sr_member r, sr_service r)) (ps @ rs))"
    and "\<forall>r \<in> set rs. sr_member r \<in> set (map m_id (members d))"
    and "c ''core_cluster_members'' = Some (members_table d)"
  shows "insert_rows fks ''services_new'' (map service_values rs)
      (c(''services_new'' \<mapsto> \<lparr>t_def = services_columns ''core_cluster_members'' b, t_rows = map service_values ps, t_seq = n\<rparr>)) =
    Inr (c(''services_new'' \<mapsto> \<lparr>t_def = services_columns ''core_cluster_members'' b,
      t_rows = map service_values (ps @ rs), t_seq = fold (\<lambda>r. max (sr_id r)) rs n\<rparr>))"
  using assms(1-3)
proof (induction rs arbitrary: ps n)
  case (Cons r rs)
  let ?c = "\<lambda>ps n. c(''services_new'' \<mapsto> \<lparr>t_def = services_columns ''core_cluster_members'' b,
      t_rows = map service_values ps, t_seq = n\<rparr>)"
  let ?t = "\<lparr>t_def = services_columns ''core_cluster_members'' b, t_rows = map service_values ps, t_seq = n\<rparr>"
  let ?vs = "[VInt (sr_member r), VText (sr_service r)]"
  have "null_column ?t (VInt (sr_id r) # ?vs) = None"
    by (simp only: null_services_row) simp
  moreover have "violated_key ?t (VInt (sr_id r) # ?vs) = None"
    using Cons.prems(1,2) by (simp only: violated_services_key) auto
  moreover have "?c ps n ''core_cluster_members'' = Some (members_table d)"
    using assms(4) by simp
  then have "list_all (refers (?c ps n) ?t (VInt (sr_id r) # ?vs)) (td_foreign (t_def ?t))"
    using Cons.prems(3) by (simp only: refers_member sql_table.simps) simp
  ultimately have "insert_row fks ''services_new'' (VInt (sr_id r) # ?vs) (?c ps n) = Inr ((?c ps n)(''services_new'' \<mapsto>
      ?t\<lparr>t_rows := t_rows ?t @ [VInt (sr_id r) # ?vs], t_seq := max (t_seq ?t) (sr_id r)\<rparr>), sr_id r)"
    by (intro insert_row_Ok) simp_all
  then have "insert_row fks ''services_new'' (service_values r) (?c ps n) = Inr (?c (ps @ [r]) (max (sr_id r) n), sr_id r)"
    by (simp add: service_values_def max.commute)
  then show ?case
    using Cons.IH [of "ps @ [r]" "max (sr_id r) n"] Cons.prems by (simp del: fun_upd_apply)
qed simp


section \<open>The updates keep every row\<close>

definition services_at :: "string \<Rightarrow> bool \<Rightarrow> db \<Rightarrow> catalog \<Rightarrow> catalog" where
  "services_at tableName cascade d c = c(''services'' \<mapsto> services_table tableName cascade d)"

lemma service_values_selected:
  "map (\<lambda>r. map (\<lambda>col. case field (services_table t b d) r col of None \<Rightarrow> VNull | Some v \<Rightarrow> v)
      [''id'', ''member_id'', ''service'']) (map service_values rs) = map service_values rs"
  by (simp add: service_values_def services_table_def table_defs)

lemma rebuild_services:
  assumes "services_schema d" and "c ''core_cluster_members'' = Some (members_table d)" and "c ''services_new'' = None"
  shows "sql_exec_all fks [CreateTable ''services_new'' (services_columns ''core_cluster_members'' True),
      InsertSelect ''services_new'' [''id'', ''member_id'', ''service''] ''services'',
      DropTable ''services'', RenameTable ''services_new'' ''services''] (services_at t b d c) =
    Inr (services_at ''core_cluster_members'' True (renumbered d) c)"
proof -
  let ?new = "\<lambda>rs n. \<lparr>t_def = services_columns ''core_cluster_members'' True, t_rows = map service_values rs, t_seq = n\<rparr>"
  let ?c = "services_at t b d c"
  have "sql_exec fks (CreateTable ''services_new'' (services_columns ''core_cluster_members'' True)) ?c =
      Inr (?c(''services_new'' \<mapsto> ?new [] 0))"
    using assms(3) by (simp add: services_at_def)
  moreover have "sql_exec fks (InsertSelect ''services_new'' [''id'', ''member_id'', ''service''] ''services'')
      (?c(''services_new'' \<mapsto> ?new [] 0)) = Inr (?c(''services_new'' \<mapsto> ?new (services d) (max_id (services d))))"
  proof -
    have "insert_rows fks ''services_new'' (map service_values (services d)) (?c(''services_new'' \<mapsto> ?new [] 0)) =
        Inr (?c(''services_new'' \<mapsto> ?new ([] @ services d) (max_id (services d))))"
      unfolding max_id_def
      by (rule insert_rows_services) (use assms(1,2) in \<open>auto simp: services_schema_def services_at_def\<close>)
    moreover have "(?c(''services_new'' \<mapsto> ?new [] 0)) ''services'' = Some (services_table t b d)"
      by (simp add: services_at_def)
    moreover have "find (\<lambda>col. col \<notin> set (column_names (services_table t b d))) [''id'', ''member_id'', ''service''] = None"
      by (simp add: services_table_def table_defs)
    moreover have "t_rows (services_table t b d) = map service_values (services d)"
      by (simp add: services_table_def)
    ultimately show ?thesis
      by (simp only: sql_exec.simps option.case service_values_selected append.simps)
  qed
  moreover have "sql_exec_all fks [DropTable ''services'', RenameTable ''services_new'' ''services'']
      (?c(''services_new'' \<mapsto> ?new (services d) (max_id (services d)))) =
      Inr (services_at ''core_cluster_members'' True (renumbered d) c)"
    using assms(3) by (auto simp: services_at_def services_table_def renumbered_def)
  ultimately show ?thesis
    by (simp only: sql_exec_all.simps(2) [of _ "CreateTable _ _"] sql_exec_all.simps(2) [of _ "InsertSelect _ _ _"] sum.case)
qed


lemma getClusterTableName_core:
  assumes "F ''select'' = None" and "c ''internal_cluster_members'' = None" and "c ''core_cluster_members'' \<noteq> None"
  shows "getClusterTableName F c = Inr ''core_cluster_members''"
  using assms by (simp add: getClusterTableName_def member_tables_def)

lemma catalog_at_services:
  "0 < v \<Longrightarrow> catalog_at B t v d = services_at (if v < 3 then t else ''core_cluster_members'') (1 < v) d
     (B(''core_cluster_members'' \<mapsto> members_table d, ''config'' \<mapsto> config_table d))"
  by (simp add: catalog_at_def services_at_def)

lemma renumbered_simps [simp]:
  "members_table (renumbered d) = members_table d" "config_table (renumbered d) = config_table d"
  "services (renumbered d) = services d" "renumbered (renumbered d) = renumbered d"
  by (simp_all add: renumbered_def members_table_def config_table_def)

lemma le_fold_max: "n \<le> fold (\<lambda>r. max (f r)) rs (n::nat)" "r \<in> set rs \<Longrightarrow> f r \<le> fold (\<lambda>r. max (f r)) rs n"
proof (induction rs arbitrary: n)
  case (Cons a rs)
  { case 1 show ?case using Cons.IH(1) [of "max (f a) n"] by simp }
  { case 2 then show ?case using Cons.IH(1) [of "max (f a) n"] Cons.IH(2) [of "max (f a) n"] by auto }
qed simp_all

lemma db_ok_renumbered: "db_ok d \<Longrightarrow> db_ok (renumbered d)"
  using le_fold_max(2) [of _ "services d" sr_id 0]
  by (auto simp: db_ok_def members_keys_def services_schema_def config_schema_def renumbered_def max_id_def less_Suc_eq_le)

lemma schemaUpdate3_keeps_rows:
  assumes "db_ok d" and "B ''services_new'' = None"
  shows "schemaUpdate3 (\<lambda>_. None) fks (catalog_at B t 2 d) = Inr (catalog_at B t 3 (renumbered d))"
  unfolding schemaUpdate3_def exec_context_def option.case
  using assms by (simp add: catalog_at_services rebuild_services db_ok_def del: sql_exec_all.simps)

lemma schemaUpdate2_keeps_rows:
  assumes "db_ok d" and "B ''services_new'' = None" and "B ''internal_cluster_members'' = None"
  shows "schemaUpdate2 (\<lambda>_. None) fks (catalog_at B t 1 d) = Inr (catalog_at B ''core_cluster_members'' 2 (renumbered d))"
proof -
  let ?c = "catalog_at B t 1 d"
  have name: "getClusterTableName (\<lambda>_. None) ?c = Inr ''core_cluster_members''"
    using assms(3) by (intro getClusterTableName_core) (simp_all add: catalog_at_def)
  have pragma: "sql_exec_all fks (ss @ [Pragma p]) c = sql_exec_all fks ss c" for ss p c
    by (induction ss arbitrary: c) (auto split: sum.split)
  show ?thesis
    unfolding schemaUpdate2_def name sum.case exec_context_def option.case
    using assms rebuild_services [of d "B(''core_cluster_members'' \<mapsto> members_table d, ''config'' \<mapsto> config_table d)" fks t False]
      pragma [of "[CreateTable _ _, InsertSelect _ _ _, DropTable _, RenameTable _ _]"]
    by (simp add: catalog_at_services db_ok_def sql_exec_all.simps(2) [of _ "Pragma _"] del: sql_exec_all.simps)
qed

lemma schemaUpdate1_creates:
  assumes "services d = []" and "configs d = []" and "next_config d \<le> 1" and "next_service d \<le> 1"
    and "B ''services'' = None" and "B ''config'' = None" and "B ''internal_cluster_members'' = None"
  shows "schemaUpdate1 (\<lambda>_. None) fks (catalog_at B t 0 d) = Inr (catalog_at B ''core_cluster_members'' 1 d)"
proof -
  have name: "getClusterTableName (\<lambda>_. None) (catalog_at B t 0 d) = Inr ''core_cluster_members''"
    using assms(7) by (intro getClusterTableName_core) (simp_all add: catalog_at_def)
  show ?thesis
    unfolding schemaUpdate1_def name sum.case exec_context_def option.case
    using assms by (simp add: catalog_at_def config_table_def services_table_def)
qed


lemma updates_lead:
  assumes "db_ok d" and "v \<le> 3" and "B ''services_new'' = None" and "B ''internal_cluster_members'' = None"
    and "v = 0 \<longrightarrow> services d = [] \<and> configs d = [] \<and> next_config d \<le> 1 \<and> next_service d \<le> 1 \<and>
      B ''services'' = None \<and> B ''config'' = None"
  shows "upgrade_from v (\<lambda>_. None) fks (catalog_at B t v d) =
      Inr (catalog_at B ''core_cluster_members'' 3 (if v = 3 then d else renumbered d))"
proof -
  note updates = upgrade_from_def SchemaExtensions_def
  note u3 = schemaUpdate3_keeps_rows [where B = B and fks = fks]
  note u2 = schemaUpdate2_keeps_rows [where B = B and fks = fks]
  have ok: "db_ok (renumbered d)"
    using assms(1) by (rule db_ok_renumbered)
  consider "v = 0" | "v = 1" | "v = 2" | "v = 3"
    using assms(2) by linarith
  then show ?thesis
  proof cases
    case 1
    then show ?thesis
      using assms(5) schemaUpdate1_creates [of d B fks t] u2 [OF assms(1,3,4)] u3 [OF ok assms(3)] assms(4)
      by (simp add: updates)
  next
    case 2
    then show ?thesis
      using u2 [OF assms(1,3,4)] u3 [OF ok assms(3)] by (simp add: updates)
  next
    case 3
    then show ?thesis
      using u3 [OF assms(1,3)] by (simp add: updates numeral_2_eq_2 catalog_at_def)
  next
    case 4
    then show ?thesis
      by (simp add: updates numeral_3_eq_3 catalog_at_def)
  qed
qed

text \<open>C29: A database of any earlier version, with whatever rows its tables hold, is brought to the newest
  schema with all its rows; what changes is only the counter of the services table. A new database gets
  the two tables empty.\<close>

theorem updates_keep_rows:
  assumes "db_ok d" and "v \<le> 3" and "B ''services_new'' = None" and "B ''internal_cluster_members'' = None"
    and "v = 0 \<longrightarrow> services d = [] \<and> configs d = [] \<and> next_config d \<le> 1 \<and> next_service d \<le> 1 \<and>
      B ''services'' = None \<and> B ''config'' = None"
  shows "upgrade_from v (\<lambda>_. None) fks (catalog_at B t v d) =
      Inr (catalog_at B ''core_cluster_members'' 3 (if v = 3 then d else renumbered d)) \<and>
    db_ok (if v = 3 then d else renumbered d)"
  using updates_lead [OF assms] db_ok_renumbered [OF assms(1)] assms(1) by simp

text \<open>The newest catalogue determines the rows; the counters that are not below 1 with it keep the constraints.\<close>

lemma newest_determines:
  assumes "db_ok d" and "catalog_at B t 3 d' = catalog_at B t 3 d" and "1 \<le> next_service d'" and "1 \<le> next_config d'"
  shows "db_ok d' \<and> services d' = services d \<and> configs d' = configs d"
proof -
  have "catalog_at B t 3 d' ''services'' = catalog_at B t 3 d ''services''"
    "catalog_at B t 3 d' ''config'' = catalog_at B t 3 d ''config''"
    "catalog_at B t 3 d' ''core_cluster_members'' = catalog_at B t 3 d ''core_cluster_members''"
    using assms(2) by simp_all
  then have rows: "map service_values (services d') = map service_values (services d)"
      "map (\<lambda>r. [VInt (cr_id r), VText (cr_key r), VText (cr_value r)]) (configs d') =
       map (\<lambda>r. [VInt (cr_id r), VText (cr_key r), VText (cr_value r)]) (configs d)"
      "map (\<lambda>m. [VInt (m_id m), VText (m_name m), VText (m_addr m)]) (members d') =
       map (\<lambda>m. [VInt (m_id m), VText (m_name m), VText (m_addr m)]) (members d)"
    and seq: "next_service d' - 1 = next_service d - 1" "next_config d' - 1 = next_config d - 1"
    by (simp_all add: catalog_at_def services_table_def config_table_def members_table_def)
  have "inj service_values" "inj (\<lambda>r::config_row. [VInt (cr_id r), VText (cr_key r), VText (cr_value r)])"
    "inj (\<lambda>m::member_row. [VInt (m_id m), VText (m_name m), VText (m_addr m)])"
    by (auto simp: inj_def service_values_def intro!: config_row.equality member_row.equality)
  with rows have same: "services d' = services d" "configs d' = configs d" "members d' = members d"
    by (simp_all add: inj_map_eq_map)
  moreover have "next_service d \<le> next_service d'" "next_config d \<le> next_config d'"
    using seq assms(3,4) by simp_all
  then have "db_ok d'"
    using assms(1) same by (force simp: db_ok_def members_keys_def services_schema_def config_schema_def)
  ultimately show ?thesis by simp
qed

section \<open>Rows accepted by the tables\<close>

text \<open>The statements \<open>serviceCreate\<close> and \<open>configItemCreate\<close> of the mappers.\<close>

definition member_id_query :: "catalog \<Rightarrow> string \<Rightarrow> sql_value" where
  "member_id_query c member = (case c ''core_cluster_members'' of
       None \<Rightarrow> VNull
     | Some p \<Rightarrow> (case find (\<lambda>r. field p r ''name'' = Some (VText member)) (t_rows p) of
         None \<Rightarrow> VNull
       | Some r \<Rightarrow> (case field p r ''id'' of None \<Rightarrow> VNull | Some v \<Rightarrow> v)))"

definition serviceCreate :: "bool \<Rightarrow> string \<Rightarrow> string \<Rightarrow> catalog \<Rightarrow> goerr + catalog \<times> nat" where
  "serviceCreate fks member srv c = insert_row fks ''services'' [VNull, member_id_query c member, VText srv] c"

definition configItemCreate :: "bool \<Rightarrow> string \<Rightarrow> string \<Rightarrow> catalog \<Rightarrow> goerr + catalog \<times> nat" where
  "configItemCreate fks k v c = insert_row fks ''config'' [VNull, VText k, VText v] c"

abbreviation newest :: "catalog \<Rightarrow> db \<Rightarrow> catalog" where
  "newest B \<equiv> catalog_at B ''core_cluster_members'' 3"

lemma member_id_query_newest:
  "member_id_query (newest B d) member = (case member_id_of d member of None \<Rightarrow> VNull | Some i \<Rightarrow> VInt i)"
proof -
  have "find (\<lambda>r. field (members_table d) r ''name'' = Some (VText member))
      (map (\<lambda>m. [VInt (m_id m), VText (m_name m), VText (m_addr m)]) ms) =
      map_option (\<lambda>m. [VInt (m_id m), VText (m_name m), VText (m_addr m)]) (find (\<lambda>m. m_name m = member) ms)" for ms :: "member_row list"
    by (induction ms) (simp_all add: members_table_def table_defs)
  moreover have "field (members_table d) [VInt i, n, a] ''id'' = Some (VInt i)" for i n a
    by (simp add: members_table_def table_defs)
  moreover have "t_rows (members_table d) = map (\<lambda>m. [VInt (m_id m), VText (m_name m), VText (m_addr m)]) (members d)"
    by (simp add: members_table_def)
  moreover have "newest B d ''core_cluster_members'' = Some (members_table d)"
    by (simp add: catalog_at_def)
  ultimately show ?thesis
    by (simp add: member_id_query_def member_id_of_def split: option.split)
qed


lemma violated_config_key:
  "violated_key (config_table d) [VInt i, VText k, v] =
     (if i \<in> set (map cr_id (configs d)) then Some [''id'']
      else if k \<in> set (map cr_key (configs d)) then Some [''key''] else None)"
  by (auto simp: violated_key_def config_table_def list_ex_iff table_defs)

lemma newest_tables:
  "newest B d ''services'' = Some (services_table ''core_cluster_members'' True d)"
  "newest B d ''config'' = Some (config_table d)"
  "newest B d ''core_cluster_members'' = Some (members_table d)"
  by (simp_all add: catalog_at_def)

text \<open>C30: Under the constraints of the newest schema, the statement that creates a service does exactly what
  the mapper's statement on the tables does: the same row, the same new identifier, and the same
  violated constraint.\<close>

theorem serviceCreate_refines:
  assumes "db_ok d" and "1 \<le> next_service d"
  shows "serviceCreate fks member srv (newest B d) = (case insert_service member srv d of
      Inl e \<Rightarrow> Inl e | Inr (d', i) \<Rightarrow> Inr (newest B d', i))"
proof (cases "member_id_of d member")
  case None
  then show ?thesis
    by (simp add: serviceCreate_def insert_row_def newest_tables member_id_query_newest insert_service_def
        services_table_def of_table_def)
next
  case (Some m)
  let ?t = "services_table ''core_cluster_members'' True d" and ?i = "next_service d"
  have "m \<in> set (map m_id (members d))"
    using Some by (auto simp: member_id_of_def dest: find_SomeD)
  then have "list_all (refers (newest B d) ?t [VInt ?i, VInt m, VText srv]) (td_foreign (t_def ?t))"
    using newest_tables(3) by (simp only: services_table_def sql_table.simps refers_member)
  moreover have "?i \<notin> set (map sr_id (services d))"
    using assms(1) by (auto simp: db_ok_def services_schema_def)
  then have "violated_key ?t [VInt ?i, VInt m, VText srv] =
      (if (m, srv) \<in> set (map (\<lambda>r. (sr_member r, sr_service r)) (services d)) then Some [''member_id'', ''service''] else None)"
    by (simp only: services_table_def violated_services_key if_False)
  moreover have "null_column ?t [VNull, VInt m, VText srv] = None"
    by (simp add: services_table_def)
  moreover have "t_seq ?t + 1 = ?i"
    using assms(2) by (simp add: services_table_def)
  moreover have "\<And>d'. services d' = services d @ [\<lparr>sr_id = ?i, sr_member = m, sr_service = srv\<rparr>] \<Longrightarrow>
      next_service d' = ?i + 1 \<Longrightarrow> members d' = members d \<Longrightarrow> configs d' = configs d \<Longrightarrow>
      next_config d' = next_config d \<Longrightarrow> (newest B d)(''services'' \<mapsto> ?t\<lparr>t_rows := t_rows ?t @
        [[VInt ?i, VInt m, VText srv]], t_seq := max (t_seq ?t) ?i\<rparr>) = newest B d'"
    by (auto simp: catalog_at_def services_table_def service_values_def config_table_def members_table_def)
  ultimately show ?thesis
    unfolding serviceCreate_def insert_row_def newest_tables(1) option.case member_id_query_newest Some insert_service_def
    by (simp add: Let_def of_table_def del: set_map list_all_iff)
qed

text \<open>The same holds of the statement that creates an option of the configuration.\<close>

lemma configItemCreate_refines:
  assumes "db_ok d" and "1 \<le> next_config d"
  shows "configItemCreate fks k v (newest B d) = (case insert_config k v d of
      Inl e \<Rightarrow> Inl e | Inr (d', i) \<Rightarrow> Inr (newest B d', i))"
proof -
  let ?t = "config_table d" and ?i = "next_config d"
  have "?i \<notin> set (map cr_id (configs d))"
    using assms(1) by (auto simp: db_ok_def config_schema_def)
  then have "violated_key ?t [VInt ?i, VText k, VText v] =
      (if k \<in> set (map cr_key (configs d)) then Some [''key''] else None)"
    by (simp only: violated_config_key if_False)
  moreover have "null_column ?t [VNull, VText k, VText v] = None" "td_foreign (t_def ?t) = []"
    by (simp_all add: config_table_def null_column_def table_defs)
  moreover have "t_seq ?t + 1 = ?i"
    using assms(2) by (simp add: config_table_def)
  moreover have "(newest B d)(''config'' \<mapsto> ?t\<lparr>t_rows := t_rows ?t @ [[VInt ?i, VText k, VText v]],
      t_seq := max (t_seq ?t) ?i\<rparr>) =
      newest B (d\<lparr>configs := configs d @ [\<lparr>cr_id = ?i, cr_key = k, cr_value = v\<rparr>], next_config := ?i + 1\<rparr>)"
    by (auto simp: catalog_at_def services_table_def config_table_def members_table_def)
  ultimately show ?thesis
    unfolding configItemCreate_def insert_row_def newest_tables(2) option.case insert_config_def
    by (simp add: Let_def of_table_def del: set_map)
qed

section \<open>Witnesses\<close>

definition old_db :: db where
  "old_db = \<lparr>members = [\<lparr>m_id = 1, m_name = ''n1'', m_addr = ''10.0.0.1''\<rparr>],
     services = [\<lparr>sr_id = 7, sr_member = 1, sr_service = ''central''\<rparr>],
     configs = [], next_service = 20, next_config = 1\<rparr>"

lemma old_db_ok: "db_ok old_db"
  by (simp add: old_db_def db_ok_def members_keys_def services_schema_def config_schema_def)

theorem updates_keep_rows_witness:
  "\<exists>c. upgrade_from 1 (\<lambda>_. None) True (catalog_at Map.empty ''internal_cluster_members'' 1 old_db) = Inr c
    \<and> map_option t_rows (c ''services'') = Some [[VInt 7, VInt 1, VText ''central'']]
    \<and> map_option t_seq (c ''services'') = Some 7"
  using updates_keep_rows [of old_db 1 Map.empty True "''internal_cluster_members''"] old_db_ok
  by (simp add: catalog_at_def services_table_def renumbered_def max_id_def service_values_def old_db_def)

theorem serviceCreate_refines_witness:
  "\<exists>c. serviceCreate True ''n1'' ''switch'' (newest Map.empty old_db) = Inr (c, 20)
    \<and> map_option t_rows (c ''services'') =
      Some [[VInt 7, VInt 1, VText ''central''], [VInt 20, VInt 1, VText ''switch'']]"
  using serviceCreate_refines [of old_db True "''n1''" "''switch''" Map.empty] old_db_ok
  by (simp add: insert_service_def member_id_of_def catalog_at_def services_table_def service_values_def old_db_def)

end
