(* ===== verification/Console.thy ===== *)
theory Console
  imports CertApi ServiceApi
begin

text \<open>
  What the commands of the client program share (cmd/microovn): the terminal, the client library
  microcluster, and the answers of the daemon as they are printed (the methods \<open>PrettyPrint\<close> of
  package \<open>types\<close>). A command is a program of type \<open>io\<close> whose result is the error cobra reports.
\<close>

section \<open>The terminal and the client library\<close>

text \<open>A member as \<open>m.GetClusterMembers\<close> lists it: its name and \<open>Address.Addr().String()\<close>.\<close>

record cluster_member =
  cm_name :: string
  cm_ip :: string

text \<open>The values of the flags and questions of \<open>microovn init\<close>.\<close>

record InitValues =
  iv_Mode :: string
  iv_Name :: string
  iv_Address :: string
  iv_Services :: string
  iv_Token :: string
  iv_CustomEncapsulationIP :: string
  iv_CustomCACert :: string
  iv_CustomCAKey :: string
  iv_AdditionalServers :: "string list"

text \<open>
  What is outside the client program: \<open>c_app\<close> makes the application object, \<open>c_local\<close> the client of the
  local daemon (its URL), \<open>c_members\<close> lists the members, \<open>c_new_cluster\<close>, \<open>c_join_cluster\<close> and
  \<open>c_join_token\<close> are the calls of microcluster; \<open>c_hostname\<close> is \<open>os.Hostname\<close>; \<open>c_interface_address\<close>,
  \<open>c_canonical\<close> and \<open>c_network_address\<close> are helpers of LXD; \<open>c_ask_bool\<close> and \<open>c_ask_string\<close> are the
  answers of the user to a question with its default; \<open>c_stdin\<close> is the standard input, \<open>c_terminal\<close>
  says whether it is a terminal, and \<open>c_preseed\<close> is the YAML decoder on it; \<open>c_json\<close> writes a JSON value.
\<close>

record cli =
  c_app :: "event list \<Rightarrow> goerr option"
  c_local :: "event list \<Rightarrow> goerr + string"
  c_members :: "event list \<Rightarrow> goerr + cluster_member list"
  c_new_cluster :: "event list \<Rightarrow> string \<Rightarrow> string \<Rightarrow> (string \<times> string) list \<Rightarrow> goerr option"
  c_join_cluster :: "event list \<Rightarrow> string \<Rightarrow> string \<Rightarrow> string \<Rightarrow> (string \<times> string) list \<Rightarrow> goerr option"
  c_join_token :: "event list \<Rightarrow> string \<Rightarrow> goerr + string"
  c_hostname :: "event list \<Rightarrow> goerr + string"
  c_interface_address :: "event list \<Rightarrow> string"
  c_canonical :: "string \<Rightarrow> string"
  c_network_address :: "string \<Rightarrow> goerr option"
  c_ask_bool :: "event list \<Rightarrow> string \<Rightarrow> string \<Rightarrow> goerr + bool"
  c_ask_string :: "event list \<Rightarrow> string \<Rightarrow> string \<Rightarrow> goerr + string"
  c_stdin :: "event list \<Rightarrow> goerr + string"
  c_terminal :: "event list \<Rightarrow> goerr + bool"
  c_preseed :: "event list \<Rightarrow> goerr + InitValues"
  c_json :: "json \<Rightarrow> goerr + string"

definition outside :: "(event list \<Rightarrow> goerr + 'a) \<Rightarrow> 'a io" where
  "outside f = bind (reads (\<lambda>w. f (w_trace w))) of_sum"

definition outside_err :: "(event list \<Rightarrow> goerr option) \<Rightarrow> unit io" where
  "outside_err f = bind (reads (\<lambda>w. f (w_trace w))) ret_err"

text \<open>A question is printed before it is answered; a call of the cluster library is recorded like a request,
  with the name of the call, whether it fails or not.\<close>

definition AskBool :: "cli \<Rightarrow> string \<Rightarrow> string \<Rightarrow> bool io" where
  "AskBool C question def = andthen (print question) (outside (\<lambda>t. c_ask_bool C t question def))"

definition AskString :: "cli \<Rightarrow> string \<Rightarrow> string \<Rightarrow> string io" where
  "AskString C question def = andthen (print question) (outside (\<lambda>t. c_ask_string C t question def))"

definition cluster_call :: "string \<Rightarrow> string \<Rightarrow> 'a io \<Rightarrow> 'a io" where
  "cluster_call call name m = (\<lambda>w. case m w of (r, w') \<Rightarrow> (r, w'\<lparr>w_trace := Http ''microcluster'' call name # w_trace w'\<rparr>))"

definition NewCluster :: "cli \<Rightarrow> string \<Rightarrow> string \<Rightarrow> (string \<times> string) list \<Rightarrow> unit io" where
  "NewCluster C name addr config = cluster_call ''NewCluster'' name (outside_err (\<lambda>t. c_new_cluster C t name addr config))"

definition JoinCluster :: "cli \<Rightarrow> string \<Rightarrow> string \<Rightarrow> string \<Rightarrow> (string \<times> string) list \<Rightarrow> unit io" where
  "JoinCluster C name addr token config =
     cluster_call ''JoinCluster'' name (outside_err (\<lambda>t. c_join_cluster C t name addr token config))"

definition NewJoinToken :: "cli \<Rightarrow> string \<Rightarrow> string io" where
  "NewJoinToken C name = cluster_call ''NewJoinToken'' name (outside (\<lambda>t. c_join_token C t name))"

definition println :: "string \<Rightarrow> unit io" where
  "println s = print (s @ [CHR 0x0A])"

text \<open>\<open>m, err := microcluster.App(...)\<close> and \<open>cli, err := m.LocalClient()\<close>\<close>

definition local_client :: "cli \<Rightarrow> string io" where
  "local_client C = andthen (outside_err (c_app C)) (outside (c_local C))"

section \<open>Answers as text\<close>

text \<open>The slices of these answers are built by \<open>append\<close> from nil, so empty and nil are the same.\<close>

definition IssueCertificate_PrettyPrint :: "IssueCertificateResponse \<Rightarrow> unit io" where
  "IssueCertificate_PrettyPrint r =
     andthen (println ''Local certificates reissued successfully:'')
     (andthen (if Issue_Success r = [] then println ''None'' else for_each println (Issue_Success r))
     (if Issue_Failed r \<noteq> []
      then andthen (println (CHR 0x0A # ''Local certificates reissue failed:'')) (for_each println (Issue_Failed r))
      else ret ()))"

text \<open>The hosts come in the order in which Go ranges over the map.\<close>

definition print_host :: "string \<times> IssueCertificateResponse \<Rightarrow> unit io" where
  "print_host h =
     andthen (print (CHR 0x0A # ''[Host '' @ fst h @ '']'' @ [CHR 0x0A]))
     (andthen (for_each (\<lambda>srv. println (srv @ '': Success'')) (Issue_Success (snd h)))
     (for_each (\<lambda>srv. println (srv @ '': Failed!'')) (Issue_Failed (snd h))))"

definition RegenerateCa_PrettyPrint :: "RegenerateCaResponse \<Rightarrow> unit io" where
  "RegenerateCa_PrettyPrint r =
     andthen (print (''New CA certificate: '' @ (if NewCa r then ''Issued'' else ''Not Issued'') @
       [CHR 0x0A, CHR 0x0A]))
     (andthen (print ''Service certificate re-issued for following services:'')
     (andthen (for_each print_host (ReissuedCertificates r))
     (andthen (if Ca_Errors r \<noteq> []
               then andthen (println (CHR 0x0A # ''[Errors]'')) (for_each println (Ca_Errors r)) else ret ())
     (if (\<exists>h \<in> set (ReissuedCertificates r). Issue_Failed (snd h) \<noteq> []) \<or> Ca_Errors r \<noteq> []
      then println (CHR 0x0A # '' Some of the service certificates failed to be re-issued. You can inspect logs and '' @
        ''attempt to re-issue these certificates using microovn CLI on affected cluster members.'')
      else ret ()))))"

text \<open>The warnings go to the log of the program, on standard error (the time stamp in front is left out).\<close>

definition WarningSet_PrettyPrint :: "WarningSet \<Rightarrow> bool \<Rightarrow> unit io" where
  "WarningSet_PrettyPrint ws verbose =
     andthen (if EvenCentral ws then
        (if verbose
         then println (''[central] Warning: Cluster with even number of members has same fault tolerance, '' @
           ''but higher quorum requirements, than cluster with one less member.'')
         else println ''[central] Warning: OVN Cluster has even number of members'') else ret ())
     (if FewCentral ws then
        (if verbose
         then println ''[central] Warning: Cluster with less than 3 nodes can't tolerate any node failures.''
         else println ''[central] Warning: OVN Cluster has critically few members'') else ret ())"

definition RegenerateEnv_PrettyPrint :: "RegenerateEnvResponse \<Rightarrow> unit io" where
  "RegenerateEnv_PrettyPrint r =
     andthen (print (''New Environment: '' @ (if Env_Success r then ''Generated'' else ''Not Generated'') @
       [CHR 0x0A, CHR 0x0A]))
     (if Env_Errors r \<noteq> []
      then andthen (println (CHR 0x0A # ''[Errors]'')) (for_each println (Env_Errors r)) else ret ())"

section \<open>Commands that ask and print\<close>

definition config_failed :: "string \<Rightarrow> string \<Rightarrow> goerr \<Rightarrow> goerr" where
  "config_failed verb key = errf (''failed to '' @ verb @ '' config option '' @ squoted key @ '': '')"

definition config_set_Run :: "env \<Rightarrow> cli \<Rightarrow> string \<Rightarrow> string \<Rightarrow> unit io" where
  "config_set_Run E C key val =
     bind (local_client C) (\<lambda>cli.
     bind (on_err (config_failed ''set'' key) (c_SetConfig E cli key val)) (\<lambda>resp.
     if Set_Error resp \<noteq> [] then fail (config_failed ''set'' key (ErrS (Set_Error resp)))
     else println (''Successfully set config option '' @ squoted key)))"

definition config_get_Run :: "env \<Rightarrow> cli \<Rightarrow> string \<Rightarrow> unit io" where
  "config_get_Run E C key =
     bind (local_client C) (\<lambda>cli.
     bind (on_err (config_failed ''get'' key) (c_GetConfig E cli key)) (\<lambda>resp.
     if Get_Error resp \<noteq> [] then fail (config_failed ''get'' key (ErrS (Get_Error resp)))
     else if Get_IsSet resp then println (Get_Value resp) else ret ()))"

definition config_delete_Run :: "env \<Rightarrow> cli \<Rightarrow> string \<Rightarrow> unit io" where
  "config_delete_Run E C key =
     bind (local_client C) (\<lambda>cli.
     bind (on_err (config_failed ''delete'' key) (c_DeleteConfig E cli key)) (\<lambda>resp.
     if Set_Error resp \<noteq> [] then fail (config_failed ''delete'' key (ErrS (Set_Error resp)))
     else println (''Successfully deleted config option '' @ squoted key)))"

definition command_failed :: "goerr \<Rightarrow> goerr" where
  "command_failed = errf ''command failed: ''"

definition reissue_Run :: "env \<Rightarrow> cli \<Rightarrow> string \<Rightarrow> unit io" where
  "reissue_Run E C targetService =
     bind (local_client C) (\<lambda>cli.
     bind (on_err command_failed
       (if targetService = ''all'' then c_ReissueAllCertificate E cli else c_ReissueCertificate E cli targetService))
     IssueCertificate_PrettyPrint)"

definition regenerate_ca_Run :: "env \<Rightarrow> cli \<Rightarrow> unit io" where
  "regenerate_ca_Run E C =
     bind (local_client C) (\<lambda>cli. bind (on_err command_failed (c_RegenerateCA E cli)) RegenerateCa_PrettyPrint)"

section \<open>Frame lemmas\<close>

lemmas print_defs = println_def IssueCertificate_PrettyPrint_def print_host_def RegenerateCa_PrettyPrint_def
  WarningSet_PrettyPrint_def RegenerateEnv_PrettyPrint_def

lemma tot_case_prod [tot_rules]: "(\<And>a b. total_io (g a b)) \<Longrightarrow> total_io (case r of (a, b) \<Rightarrow> g a b)"
  by (cases r) auto

lemma tot_print [tot_rules]:
  "total_io (println s)" "total_io (IssueCertificate_PrettyPrint i)" "total_io (RegenerateCa_PrettyPrint r)"
  "total_io (WarningSet_PrettyPrint ws b)" "total_io (RegenerateEnv_PrettyPrint e)"
  unfolding print_defs by (intro tot_rules)+

lemma np_outside_answers [np_rules]: "no_panic (outside f)" "no_panic (outside_err g)" "no_panic (local_client C)"
  unfolding outside_def outside_err_def local_client_def by (intro np_rules)+

lemma run_outside: "outside f w = (case f (w_trace w) of Inl e \<Rightarrow> (Er e, w) | Inr x \<Rightarrow> (Ok x, w))"
  by (simp add: outside_def bind_def reads_def of_sum_def ret_def fail_def split: sum.splits)

lemma run_outside_err: "outside_err f w = (case f (w_trace w) of None \<Rightarrow> (Ok (), w) | Some e \<Rightarrow> (Er e, w))"
  by (simp add: outside_err_def bind_def reads_def ret_err_def ret_def fail_def split: option.splits)

section \<open>A sample terminal\<close>

text \<open>A terminal on which a preseed is piped, and a user who asks for one more server.\<close>

definition sample_cli :: cli where
  "sample_cli = \<lparr>c_app = (\<lambda>t. None), c_local = (\<lambda>t. Inr ''local''), c_members = (\<lambda>t. Inl (StatusErr 503 ''down'')),
     c_new_cluster = (\<lambda>t n a c. None), c_join_cluster = (\<lambda>t n a j c. None), c_join_token = (\<lambda>t n. Inr ''token''),
     c_hostname = (\<lambda>t. Inr ''n1''), c_interface_address = (\<lambda>t. ''10.0.0.1''), c_canonical = (\<lambda>a. a @ '':6443''),
     c_network_address = (\<lambda>a. None), c_ask_bool = (\<lambda>t q d. Inr False),
     c_ask_string = (\<lambda>t q d. if length t \<le> 1 then Inr ''n2'' else Inr []),
     c_stdin = (\<lambda>t. Inr []), c_terminal = (\<lambda>t. Inr False),
     c_preseed = (\<lambda>t. Inr \<lparr>iv_Mode = ''bootstrap'', iv_Name = [], iv_Address = [], iv_Services = [], iv_Token = [],
       iv_CustomEncapsulationIP = [], iv_CustomCACert = [], iv_CustomCAKey = [], iv_AdditionalServers = []\<rparr>),
     c_json = (\<lambda>j. Inr [])\<rparr>"

end
