(* ===== verification/CliStatus.thy ===== *)
theory CliStatus
  imports Console "HOL-Library.List_Lexorder" "HOL-Library.Char_ord"
begin

text \<open>
  \<open>microovn certificates list\<close> and \<open>microovn status\<close> (cmd/microovn/certificates_list.go and status.go):
  which certificates belong to this host, when they expire, and what the databases of the cluster
  run and expect.
\<close>

section \<open>Certificates of this host\<close>

record caCertInfo =
  ca_Cert :: string
  ca_AutoRenew :: bool
  ca_ExpDate :: string

record certBundle =
  cb_Cert :: string
  cb_Key :: string
  cb_ExpDate :: string

record ovnCertificatePaths =
  ocp_Ca :: "caCertInfo option"
  ocp_Nb :: "certBundle option"
  ocp_Sb :: "certBundle option"
  ocp_Northd :: "certBundle option"
  ocp_Chassis :: "certBundle option"
  ocp_Client :: "certBundle option"

text \<open>The end and the start of the validity, in seconds.\<close>

definition certExpDate :: "env \<Rightarrow> string \<Rightarrow> (nat \<times> nat) io" where
  "certExpDate E filePath =
     bind (os_ReadFile E filePath) (\<lambda>data.
     case e_pem_decode E data of
       None \<Rightarrow> fail (ErrS ''failed to decode certificate's PEM data'')
     | Some (certData, rest) \<Rightarrow>
         bind (of_sum (e_parse_cert E (snd certData))) (\<lambda>c. ret (c_not_after c, c_not_before c)))"

definition certIsExpired :: "env \<Rightarrow> string \<Rightarrow> (bool \<times> goerr option) io" where
  "certIsExpired E filePath =
     bind (attempt (certExpDate E filePath)) (\<lambda>r. case r of
       Inr (expDate, startDate) \<Rightarrow>
         bind (reads (\<lambda>w. e_now E (w_trace w))) (\<lambda>now. ret (now > expDate \<or> now < startDate, None))
     | Inl err \<Rightarrow> ret (True, Some err))"

text \<open>\<open>time.Time.String\<close> of a time in UTC, as \<open>x509\<close> parses it; the zero time when there is none.\<close>

definition time_String :: "nat option \<Rightarrow> string" where
  "time_String t = (case t of None \<Rightarrow> ''0001-01-01 00:00:00'' | Some n \<Rightarrow> format_datetime n) @ '' +0000 UTC''"

definition bundle_of :: "env \<Rightarrow> string \<Rightarrow> certBundle io" where
  "bundle_of E srv = (case getServiceCertFiles E srv of (cert, key) \<Rightarrow>
     bind (attempt (certExpDate E cert)) (\<lambda>r.
     ret \<lparr>cb_Cert = cert, cb_Key = key,
          cb_ExpDate = time_String (case r of Inl _ \<Rightarrow> None | Inr (t, _) \<Rightarrow> Some t)\<rparr>))"

definition expect_service :: "env \<Rightarrow> string \<Rightarrow> Service \<Rightarrow> ovnCertificatePaths \<Rightarrow> ovnCertificatePaths io" where
  "expect_service E localHostname srv certs =
     (if Service_location srv \<noteq> localHostname then ret certs
      else bind (if Service_service srv = SrvCentral
                 then bind (bundle_of E ''ovnnb'') (\<lambda>nb. bind (bundle_of E ''ovnsb'') (\<lambda>sb.
                      bind (bundle_of E ''ovn-northd'') (\<lambda>northd.
                      ret (certs\<lparr>ocp_Nb := Some nb, ocp_Sb := Some sb, ocp_Northd := Some northd\<rparr>))))
                 else ret certs) (\<lambda>certs.
           bind (if Service_service srv = SrvChassis
                 then bind (bundle_of E ''ovn-controller'') (\<lambda>ctl. ret (certs\<lparr>ocp_Chassis := Some ctl\<rparr>))
                 else ret certs) (\<lambda>certs.
           bind (bundle_of E ''client'') (\<lambda>client. ret (certs\<lparr>ocp_Client := Some client\<rparr>)))))"

definition no_certificates :: ovnCertificatePaths where
  "no_certificates = \<lparr>ocp_Ca = None, ocp_Nb = None, ocp_Sb = None, ocp_Northd = None, ocp_Chassis = None,
     ocp_Client = None\<rparr>"

definition populateExpectedCertificates :: "env \<Rightarrow> Service list \<Rightarrow> CaInfo \<Rightarrow> string \<Rightarrow> ovnCertificatePaths io" where
  "populateExpectedCertificates E srvs caInfo localHostname =
     bind (certExpDate E (PkiCaCertFile E)) (\<lambda>t.
     fold_io (expect_service E localHostname) srvs
       (no_certificates\<lparr>ocp_Ca := Some \<lparr>ca_Cert = PkiCaCertFile E, ca_AutoRenew = AutoRenew caInfo,
          ca_ExpDate = time_String (Some (fst t))\<rparr>\<rparr>))"

definition printFileStatus :: "env \<Rightarrow> string \<Rightarrow> unit io" where
  "printFileStatus E filePath =
     bind (attempt (os_NotExist E filePath)) (\<lambda>r.
     println (filePath @ '' ('' @ (if r = Inr False then ''OK: Present'' else ''Error: Missing file'') @ '')''))"

definition printCertExpDate :: "string \<Rightarrow> unit io" where
  "printCertExpDate expDate = println (''expiration date: '' @ expDate)"

definition certBundle_printCertStatus :: "env \<Rightarrow> certBundle option \<Rightarrow> unit io" where
  "certBundle_printCertStatus E bundle = (case bundle of
       None \<Rightarrow> println ''Not present.''
     | Some b \<Rightarrow> andthen (printFileStatus E (cb_Cert b))
         (andthen (printCertExpDate (cb_ExpDate b)) (printFileStatus E (cb_Key b))))"

definition caCertInfo_printCertStatus :: "env \<Rightarrow> caCertInfo option \<Rightarrow> unit io" where
  "caCertInfo_printCertStatus E caInfo = (case caInfo of
       None \<Rightarrow> println ''Not present.''
     | Some c \<Rightarrow> andthen (printFileStatus E (ca_Cert c)) (andthen (printCertExpDate (ca_ExpDate c))
         (println (''Auto-renew: '' @ (if ca_AutoRenew c then ''true'' else ''false'')))))"

definition printOvnCertStatus :: "env \<Rightarrow> ovnCertificatePaths \<Rightarrow> unit io" where
  "printOvnCertStatus E certificates =
     andthen (println ''[OVN CA]'')
     (andthen (caCertInfo_printCertStatus E (ocp_Ca certificates))
     (for_each (\<lambda>(title, bundle).
        andthen (println (CHR 0x0A # title)) (certBundle_printCertStatus E bundle))
       [(''[OVN Northbound Database]'', ocp_Nb certificates), (''[OVN Southbound Database]'', ocp_Sb certificates),
        (''[OVN Northd Service]'', ocp_Northd certificates), (''[OVN Chassis Service]'', ocp_Chassis certificates),
        (''[Client]'', ocp_Client certificates)]))"

definition enc_caCertInfo :: "caCertInfo \<Rightarrow> json" where
  "enc_caCertInfo c = JObj [(''cert'', JStr (ca_Cert c)), (''auto_renew'', JBool (ca_AutoRenew c)),
     (''expiration_date'', JStr (ca_ExpDate c))]"

definition enc_certBundle :: "certBundle \<Rightarrow> json" where
  "enc_certBundle b = JObj [(''cert'', JStr (cb_Cert b)), (''key'', JStr (cb_Key b)),
     (''expiration_date'', JStr (cb_ExpDate b))]"

definition enc_ptr :: "('a \<Rightarrow> json) \<Rightarrow> 'a option \<Rightarrow> json" where
  "enc_ptr f p = (case p of None \<Rightarrow> JNull | Some x \<Rightarrow> f x)"

definition enc_ovnCertificatePaths :: "ovnCertificatePaths \<Rightarrow> json" where
  "enc_ovnCertificatePaths c = JObj [(''ca'', enc_ptr enc_caCertInfo (ocp_Ca c)),
     (''ovnnb'', enc_ptr enc_certBundle (ocp_Nb c)), (''ovnsb'', enc_ptr enc_certBundle (ocp_Sb c)),
     (''ovn-northd'', enc_ptr enc_certBundle (ocp_Northd c)),
     (''ovn-controller'', enc_ptr enc_certBundle (ocp_Chassis c)), (''client'', enc_ptr enc_certBundle (ocp_Client c))]"

text \<open>The answer of the daemon about the CA, or the error in it.\<close>

definition ca_info :: "env \<Rightarrow> string \<Rightarrow> CaInfo io" where
  "ca_info E cli = bind (c_GetCaInfo E cli) (\<lambda>caInfo.
     if CaInfo_Error caInfo \<noteq> [] then fail (ErrS (CaInfo_Error caInfo)) else ret caInfo)"

definition certificates_list_Run :: "env \<Rightarrow> cli \<Rightarrow> string \<Rightarrow> unit io" where
  "certificates_list_Run E C outputFormat =
     bind (outside (c_hostname C)) (\<lambda>localHostname.
     bind (local_client C) (\<lambda>cli.
     bind (ca_info E cli) (\<lambda>caInfo.
     bind (c_GetServices E cli) (\<lambda>srvs.
     bind (populateExpectedCertificates E srvs caInfo localHostname) (\<lambda>expectedCertificates.
     if outputFormat = ''text'' then printOvnCertStatus E expectedCertificates
     else if outputFormat = ''json''
     then bind (of_sum (c_json C (enc_ovnCertificatePaths expectedCertificates))) print
     else fail (ErrS (''unknown output format specified: '' @ outputFormat)))))))"

section \<open>Schema versions of the databases\<close>

text \<open>The map counts how many nodes expect each version.\<close>

fun count_version :: "string \<Rightarrow> (string \<times> nat) list \<Rightarrow> (string \<times> nat) list" where
  "count_version v [] = [(v, 1)]"
| "count_version v ((u, n) # m) = (if u = v then (u, n + 1) # m else (u, n) # count_version v m)"

fun schema_loop :: "OvsdbSchemaVersionResult list \<Rightarrow> string \<times> (string \<times> nat) list \<times> bool \<Rightarrow>
    string \<times> (string \<times> nat) list \<times> bool" where
  "schema_loop [] s = s"
| "schema_loop (node # nodes) (expectedVersion, versionSet, nodeError) =
     schema_loop nodes (SchemaVersion node, count_version (SchemaVersion node) versionSet,
       nodeError \<or> Schema_Error node \<noteq> SchemaErrorNone)"

definition ovsdbSchemaRequiresAttention :: "string \<Rightarrow> OvsdbSchemaVersionResult list \<Rightarrow> goerr + bool" where
  "ovsdbSchemaRequiresAttention activeSchema expectedSchemas =
     (if expectedSchemas = [] then Inl (ErrS ''list of expected schema versions is empty'')
      else case schema_loop expectedSchemas (''0.0'', [], False) of (expectedVersion, versionSet, nodeError) \<Rightarrow>
        if nodeError then Inr True
        else if length versionSet > 1 then Inr True
        else Inr (activeSchema \<noteq> expectedVersion))"

definition printOvsdbSummaryError :: "goerr \<Rightarrow> OvsdbSpec option \<Rightarrow> unit io" where
  "printOvsdbSummaryError err ovsdbSpec =
     println (''Error creating OVN '' @ (case ovsdbSpec of None \<Rightarrow> [] | Some s \<Rightarrow> FriendlyName s) @
       '' Database summary: '' @ err_text err)"

text \<open>A node is shown by the name of the member with its address, or by the address itself.\<close>

definition node_name :: "cluster_member list \<Rightarrow> string \<Rightarrow> string" where
  "node_name ms addr = (case find (\<lambda>m. cm_ip m = addr) ms of Some m \<Rightarrow> cm_name m | None \<Rightarrow> addr)"

definition node_report :: "cluster_member list \<Rightarrow> OvsdbSchemaVersionResult \<Rightarrow> string" where
  "node_report ms node = CHR 0x09 # node_name ms (Schema_Host node) @ '': '' @
     (case Schema_Error node of
        SchemaErrorGeneric \<Rightarrow> ''Error. Failed to contact member''
      | SchemaErrorNotSupported \<Rightarrow> ''Missing API. MicroOVN needs upgrade''
      | _ \<Rightarrow> SchemaVersion node) @ [CHR 0x0A]"

definition printOvsdbSchemaReport :: "cli \<Rightarrow> OvsdbSpec \<Rightarrow> string \<Rightarrow> OvsdbSchemaVersionResult list \<Rightarrow> unit io" where
  "printOvsdbSchemaReport C dbSpec activeSchema expectedSchemas =
     (case ovsdbSchemaRequiresAttention activeSchema expectedSchemas of
        Inl err \<Rightarrow> printOvsdbSummaryError err (Some dbSpec)
      | Inr attentionRequired \<Rightarrow>
          if \<not> attentionRequired
          then println (''OVN '' @ FriendlyName dbSpec @ '': OK ('' @ activeSchema @ '')'')
          else bind (attempt (outside (c_members C))) (\<lambda>r.
               let clusterMembers = (case r of Inl _ \<Rightarrow> [] | Inr ms \<Rightarrow> ms) in
               print (''OVN '' @ FriendlyName dbSpec @ '': Upgrade or attention required!'' @ [CHR 0x0A] @
                 ''Currently active schema: '' @ activeSchema @ [CHR 0x0A] @
                 ''Cluster report (expected schema versions):'' @ [CHR 0x0A] @
                 concat (map (node_report clusterMembers) expectedSchemas) @ [CHR 0x0A])))"

definition reportOvsdbSchemaStatus :: "env \<Rightarrow> cli \<Rightarrow> string \<Rightarrow> OvsdbType \<Rightarrow> unit io" where
  "reportOvsdbSchemaStatus E C cli ovsdbType =
     (case NewOvsdbSpec E ovsdbType of
        Inl err \<Rightarrow> printOvsdbSummaryError err None
      | Inr ovnDB \<Rightarrow>
          bind (c_GetActiveOvsdbSchemaVersion E cli ovnDB) (\<lambda>(activeSchema, errType).
          andthen (if errType \<noteq> SchemaErrorNone
                   then printOvsdbSummaryError (ErrS (''failed to get OVN '' @ FriendlyName ovnDB @
                          '' active schema version'')) (Some ovnDB) else ret ())
          (bind (attempt (c_GetAllExpectedOvsdbSchemaVersions E cli ovnDB)) (\<lambda>r.
           andthen (case r of
               Inl _ \<Rightarrow> printOvsdbSummaryError (ErrS (''failed to get expected OVN '' @ FriendlyName ovnDB @
                          '' schema versions'')) (Some ovnDB)
             | Inr _ \<Rightarrow> ret ())
           (printOvsdbSchemaReport C ovnDB activeSchema (case r of Inl _ \<Rightarrow> [] | Inr vs \<Rightarrow> vs))))))"

section \<open>The command status\<close>

definition print_server :: "Service list \<Rightarrow> cluster_member \<Rightarrow> unit io" where
  "print_server srvs server =
     (let srvServices = sort (map Service_service (filter (\<lambda>s. Service_location s = cm_name server) srvs)) in
      andthen (println (''- '' @ cm_name server @ '' ('' @ cm_ip server @ '')''))
      (println (''  Services: '' @ join '', '' srvServices)))"

text \<open>\<open>cert\<close> is the path in the bundle, if there is a bundle.\<close>

definition printCertsSummaryHelper :: "env \<Rightarrow> string option \<Rightarrow> string \<Rightarrow> unit io" where
  "printCertsSummaryHelper E cert certName = (case cert of
       None \<Rightarrow> ret ()
     | Some path \<Rightarrow>
         bind (certIsExpired E path) (\<lambda>(result, err).
         andthen (case err of
             Some e \<Rightarrow> println (''Failed to get '' @ certName @ '' certificate expiration date: '' @ err_text e)
           | None \<Rightarrow> ret ())
         (if result then println (certName @ '' certificate has expired'') else ret ())))"

definition printCertsSummary :: "env \<Rightarrow> ovnCertificatePaths \<Rightarrow> unit io" where
  "printCertsSummary E certificates =
     for_each (\<lambda>(cert, certName). printCertsSummaryHelper E cert certName)
       [(map_option ca_Cert (ocp_Ca certificates), ''OVN CA''),
        (map_option cb_Cert (ocp_Nb certificates), ''OVN Northbound Database''),
        (map_option cb_Cert (ocp_Sb certificates), ''OVN Southbound Database''),
        (map_option cb_Cert (ocp_Northd certificates), ''OVN Northd Service''),
        (map_option cb_Cert (ocp_Chassis certificates), ''OVN Chassis Service''),
        (map_option cb_Cert (ocp_Client certificates), ''Client'')]"

definition status_Run :: "env \<Rightarrow> cli \<Rightarrow> unit io" where
  "status_Run E C =
     bind (local_client C) (\<lambda>cli.
     bind (c_GetServices E cli) (\<lambda>srvs.
     bind (outside (c_members C)) (\<lambda>clusterMembers.
     andthen (println ''MicroOVN deployment summary:'')
     (andthen (for_each (print_server srvs) clusterMembers)
     (andthen (println ''OVN Database summary:'')
     (andthen (reportOvsdbSchemaStatus E C cli OvsdbTypeNBLocal)
     (andthen (reportOvsdbSchemaStatus E C cli OvsdbTypeSBLocal)
     (bind (outside (c_hostname C)) (\<lambda>localHostname.
     bind (ca_info E cli) (\<lambda>caInfo.
     bind (populateExpectedCertificates E srvs caInfo localHostname)
     (printCertsSummary E)))))))))))"

section \<open>Frame lemmas\<close>

lemma np_certExpDate [np_rules]: "no_panic (certExpDate E p)"
  unfolding certExpDate_def by (intro np_rules)

lemma tot_expiry [tot_rules]: "total_io (certIsExpired E p)" "total_io (bundle_of E srv)"
  unfolding certIsExpired_def bundle_of_def by (intro tot_rules np_rules)+

lemma tot_expect_service [tot_rules]: "total_io (expect_service E h s c)"
  unfolding expect_service_def by (intro tot_rules)

lemma tot_printing [tot_rules]:
  "total_io (printFileStatus E p)" "total_io (printCertExpDate d)" "total_io (printOvsdbSummaryError e s)"
  "total_io (print_server ss m)" "total_io (printCertsSummaryHelper E c n)"
  unfolding printFileStatus_def printCertExpDate_def printOvsdbSummaryError_def print_server_def
    printCertsSummaryHelper_def Let_def
  by (intro tot_rules np_rules)+

lemma tot_printOvsdbSchemaReport [tot_rules]: "total_io (printOvsdbSchemaReport C spec a vs)"
  unfolding printOvsdbSchemaReport_def Let_def by (intro tot_rules np_rules)

lemma tot_active [tot_rules]: "total_io (c_GetActiveOvsdbSchemaVersion E c d)"
  unfolding c_GetActiveOvsdbSchemaVersion_def getOvsdbSchemaVersion_def query_def by (intro tot_rules np_rules)

lemma np_all_expected [np_rules]: "no_panic (c_GetAllExpectedOvsdbSchemaVersions E c d)"
  unfolding c_GetAllExpectedOvsdbSchemaVersions_def query_def by (intro np_rules)

lemma tot_reports [tot_rules]:
  "total_io (reportOvsdbSchemaStatus E C cli t)" "total_io (printCertsSummary E p)"
  unfolding reportOvsdbSchemaStatus_def printCertsSummary_def by (intro tot_rules np_rules)+

section \<open>When attention is required\<close>

lemma count_version_keys: "set (map fst (count_version v m)) = insert v (set (map fst m))"
  by (induction v m rule: count_version.induct) auto

lemma count_version_distinct: "distinct (map fst m) \<Longrightarrow> distinct (map fst (count_version v m))"
proof (induction v m rule: count_version.induct)
  case (2 v u n m)
  then show ?case using count_version_keys [of v m] by auto
qed simp

lemma schema_loop_eq:
  "schema_loop ns (v, m, e) =
     ((if ns = [] then v else SchemaVersion (last ns)), fold count_version (map SchemaVersion ns) m,
      e \<or> list_ex (\<lambda>n. Schema_Error n \<noteq> SchemaErrorNone) ns)"
  by (induction ns arbitrary: v m e) auto

lemma counted_versions:
  assumes "distinct (map fst m)"
  shows "distinct (map fst (fold count_version vs m)) \<and>
    set (map fst (fold count_version vs m)) = set (map fst m) \<union> set vs"
  using assms
proof (induction vs arbitrary: m)
  case (Cons v vs)
  show ?case
    using Cons.IH [OF count_version_distinct [OF Cons.prems]] count_version_keys [of v m] by auto
qed simp

lemma one_version:
  assumes "nodes \<noteq> []"
  shows "length (fold count_version (map SchemaVersion nodes) []) > 1 \<longleftrightarrow>
    list_ex (\<lambda>n. SchemaVersion n \<noteq> SchemaVersion (last nodes)) nodes"
proof -
  let ?m = "fold count_version (map SchemaVersion nodes) []" and ?V = "SchemaVersion ` set nodes"
  have "distinct (map fst ?m)" and "set (map fst ?m) = ?V"
    using counted_versions [of "[]" "map SchemaVersion nodes"] by auto
  then have "length ?m = card ?V" by (metis distinct_card length_map)
  moreover have "SchemaVersion (last nodes) \<in> ?V"
    using assms by simp
  then have "card ?V \<le> 1 \<longleftrightarrow> (\<forall>v \<in> ?V. v = SchemaVersion (last nodes))"
    unfolding One_nat_def card_le_Suc0_iff_eq [OF finite_imageI [OF finite_set]] by metis
  ultimately show ?thesis
    unfolding not_le [symmetric] by (simp add: list_ex_iff)
qed

text \<open>The user's attention is required exactly when some node could not be asked or expects a
  version other than the active one; an empty report is an error.\<close>

theorem ovsdbSchemaRequiresAttention_exact:
  "ovsdbSchemaRequiresAttention activeSchema nodes =
     (if nodes = [] then Inl (ErrS ''list of expected schema versions is empty'')
      else Inr (\<not> list_all (\<lambda>n. Schema_Error n = SchemaErrorNone \<and> SchemaVersion n = activeSchema) nodes))"
proof (cases "nodes = []")
  case False
  let ?error = "list_ex (\<lambda>n. Schema_Error n \<noteq> SchemaErrorNone) nodes" and ?v = "SchemaVersion (last nodes)"
  have result: "ovsdbSchemaRequiresAttention activeSchema nodes = Inr (?error \<or>
      list_ex (\<lambda>n. SchemaVersion n \<noteq> ?v) nodes \<or> activeSchema \<noteq> ?v)"
    using False by (simp add: ovsdbSchemaRequiresAttention_def schema_loop_eq one_version [OF False, simplified])
  have "list_ex (\<lambda>n. SchemaVersion n \<noteq> ?v) nodes \<or> activeSchema \<noteq> ?v \<longleftrightarrow>
      list_ex (\<lambda>n. SchemaVersion n \<noteq> activeSchema) nodes"
    using last_in_set [OF False] unfolding list_ex_iff by metis
  moreover have "\<not> list_all (\<lambda>n. Schema_Error n = SchemaErrorNone \<and> SchemaVersion n = activeSchema) nodes \<longleftrightarrow>
      ?error \<or> list_ex (\<lambda>n. SchemaVersion n \<noteq> activeSchema) nodes"
    unfolding list_ex_iff list_all_iff by blast
  ultimately show ?thesis
    unfolding result if_not_P [OF False] by (simp only:)
qed (simp add: ovsdbSchemaRequiresAttention_def)

section \<open>Which certificates are listed\<close>

definition runs_here :: "Service list \<Rightarrow> string \<Rightarrow> (string \<Rightarrow> bool) \<Rightarrow> bool" where
  "runs_here srvs host p \<longleftrightarrow> (\<exists>s \<in> set srvs. Service_location s = host \<and> p (Service_service s))"

definition bundle_files :: "certBundle option \<Rightarrow> (string \<times> string) option" where
  "bundle_files b = map_option (\<lambda>b. (cb_Cert b, cb_Key b)) b"

definition files_if :: "env \<Rightarrow> bool \<Rightarrow> string \<Rightarrow> (string \<times> string) option" where
  "files_if E c srv = (if c then Some (getServiceCertFiles E srv) else None)"

lemma bundle_of_files: "bundle_of E srv w = (Ok b, w') \<Longrightarrow> (cb_Cert b, cb_Key b) = getServiceCertFiles E srv"
  by (auto simp: bundle_of_def elim!: bind_OkE split: prod.splits)

lemma expect_service_files:
  assumes "expect_service E host s c w = (Ok c', w')"
  shows "ocp_Ca c' = ocp_Ca c"
    and "bundle_files (ocp_Nb c') = (if Service_location s = host \<and> Service_service s = SrvCentral
           then Some (getServiceCertFiles E ''ovnnb'') else bundle_files (ocp_Nb c))"
    and "bundle_files (ocp_Sb c') = (if Service_location s = host \<and> Service_service s = SrvCentral
           then Some (getServiceCertFiles E ''ovnsb'') else bundle_files (ocp_Sb c))"
    and "bundle_files (ocp_Northd c') = (if Service_location s = host \<and> Service_service s = SrvCentral
           then Some (getServiceCertFiles E ''ovn-northd'') else bundle_files (ocp_Northd c))"
    and "bundle_files (ocp_Chassis c') = (if Service_location s = host \<and> Service_service s = SrvChassis
           then Some (getServiceCertFiles E ''ovn-controller'') else bundle_files (ocp_Chassis c))"
    and "bundle_files (ocp_Client c') = (if Service_location s = host
           then Some (getServiceCertFiles E ''client'') else bundle_files (ocp_Client c))"
  using assms unfolding expect_service_def
  by (auto simp: bundle_files_def elim!: bind_OkE dest!: bundle_of_files split: if_splits)

lemma fold_io_set:
  assumes "fold_io body xs s w = (Ok s', w')"
    and "\<And>x s w s' w'. body x s w = (Ok s', w') \<Longrightarrow> f s' = (if p x then v else f s)"
  shows "f s' = (if \<exists>x \<in> set xs. p x then v else f s)"
  using assms(1)
proof (induction xs arbitrary: s w)
  case (Cons x xs)
  from Cons.prems obtain s1 w1 where "body x s w = (Ok s1, w1)" and "fold_io body xs s1 w1 = (Ok s', w')"
    by (auto elim: bind_OkE)
  with Cons.IH [of s1 w1] assms(2) [of x s w s1 w1] show ?case by auto
qed simp

lemma expect_services_files:
  assumes "fold_io (expect_service E host) srvs c w = (Ok c', w')"
  shows "ocp_Ca c' = ocp_Ca c"
    and "bundle_files (ocp_Nb c') = (if runs_here srvs host (\<lambda>n. n = SrvCentral)
           then Some (getServiceCertFiles E ''ovnnb'') else bundle_files (ocp_Nb c))"
    and "bundle_files (ocp_Sb c') = (if runs_here srvs host (\<lambda>n. n = SrvCentral)
           then Some (getServiceCertFiles E ''ovnsb'') else bundle_files (ocp_Sb c))"
    and "bundle_files (ocp_Northd c') = (if runs_here srvs host (\<lambda>n. n = SrvCentral)
           then Some (getServiceCertFiles E ''ovn-northd'') else bundle_files (ocp_Northd c))"
    and "bundle_files (ocp_Chassis c') = (if runs_here srvs host (\<lambda>n. n = SrvChassis)
           then Some (getServiceCertFiles E ''ovn-controller'') else bundle_files (ocp_Chassis c))"
    and "bundle_files (ocp_Client c') = (if runs_here srvs host (\<lambda>n. True)
           then Some (getServiceCertFiles E ''client'') else bundle_files (ocp_Client c))"
proof -
  note view = fold_io_set [OF assms]
  show "ocp_Ca c' = ocp_Ca c"
    using view [of ocp_Ca "\<lambda>_. False" None] by (auto dest: expect_service_files)
  show "bundle_files (ocp_Nb c') = (if runs_here srvs host (\<lambda>n. n = SrvCentral)
      then Some (getServiceCertFiles E ''ovnnb'') else bundle_files (ocp_Nb c))"
    unfolding runs_here_def by (rule view) (rule expect_service_files)
  show "bundle_files (ocp_Sb c') = (if runs_here srvs host (\<lambda>n. n = SrvCentral)
      then Some (getServiceCertFiles E ''ovnsb'') else bundle_files (ocp_Sb c))"
    unfolding runs_here_def by (rule view) (rule expect_service_files)
  show "bundle_files (ocp_Northd c') = (if runs_here srvs host (\<lambda>n. n = SrvCentral)
      then Some (getServiceCertFiles E ''ovn-northd'') else bundle_files (ocp_Northd c))"
    unfolding runs_here_def by (rule view) (rule expect_service_files)
  show "bundle_files (ocp_Chassis c') = (if runs_here srvs host (\<lambda>n. n = SrvChassis)
      then Some (getServiceCertFiles E ''ovn-controller'') else bundle_files (ocp_Chassis c))"
    unfolding runs_here_def by (rule view) (rule expect_service_files)
  show "bundle_files (ocp_Client c') = (if runs_here srvs host (\<lambda>n. True)
      then Some (getServiceCertFiles E ''client'') else bundle_files (ocp_Client c))"
    unfolding runs_here_def using view [of "\<lambda>c. bundle_files (ocp_Client c)" "\<lambda>s. Service_location s = host"] 
    by (simp add: expect_service_files(6))
qed

text \<open>The list of a host holds the CA and the files of exactly the services registered under its host
  name: the three certificates of \<open>central\<close>, the one of \<open>chassis\<close>, and the client certificate when there
  is any service.\<close>

theorem listed_certificates_exact:
  assumes "populateExpectedCertificates E srvs caInfo host w = (Ok certs, w')"
  shows "map_option ca_Cert (ocp_Ca certs) = Some (PkiCaCertFile E)
    \<and> map_option ca_AutoRenew (ocp_Ca certs) = Some (AutoRenew caInfo)
    \<and> map (\<lambda>f. bundle_files (f certs)) [ocp_Nb, ocp_Sb, ocp_Northd] =
        map (files_if E (runs_here srvs host (\<lambda>n. n = SrvCentral))) [''ovnnb'', ''ovnsb'', ''ovn-northd'']
    \<and> bundle_files (ocp_Chassis certs) = files_if E (runs_here srvs host (\<lambda>n. n = SrvChassis)) ''ovn-controller''
    \<and> bundle_files (ocp_Client certs) = files_if E (runs_here srvs host (\<lambda>n. True)) ''client''"
proof -
  obtain c w1 where "fold_io (expect_service E host) srvs c w1 = (Ok certs, w')"
    and "ocp_Ca c = Some \<lparr>ca_Cert = PkiCaCertFile E, ca_AutoRenew = AutoRenew caInfo, ca_ExpDate = ca_ExpDate (the (ocp_Ca c))\<rparr>"
    and "ocp_Nb c = None" "ocp_Sb c = None" "ocp_Northd c = None" "ocp_Chassis c = None" "ocp_Client c = None"
    using assms unfolding populateExpectedCertificates_def no_certificates_def by (auto elim!: bind_OkE)
  then show ?thesis
    using expect_services_files [of E host srvs c w1 certs w'] by (auto simp: files_if_def bundle_files_def)
qed

section \<open>What is reported\<close>

text \<open>A certificate is reported as expired when its validity has ended or has not begun, and also
  when it cannot be read at all, after the error.\<close>

theorem expiry_report_exact:
  "printCertsSummaryHelper E (Some path) name w =
     (case certExpDate E path w of
        (Ok (expDate, startDate), w1) \<Rightarrow>
          if startDate \<le> e_now E (w_trace w1) \<and> e_now E (w_trace w1) \<le> expDate then (Ok (), w1)
          else println (name @ '' certificate has expired'') w1
      | (Er err, w1) \<Rightarrow>
          andthen (println (''Failed to get '' @ name @ '' certificate expiration date: '' @ err_text err))
            (println (name @ '' certificate has expired'')) w1
      | (Panic s, w1) \<Rightarrow> (Panic s, w1))"
  by (cases "certExpDate E path w" rule: prod.exhaust; cases "fst (certExpDate E path w)")
     (auto simp: printCertsSummaryHelper_def certIsExpired_def run run_bind attempt_def bind_def ret_def reads_def
       andthen_def not_le split: prod.splits)

definition summary_error :: "string \<Rightarrow> event" where
  "summary_error msg = Print (''Error creating OVN Northbound Database summary: '' @ msg @ [CHR 0x0A])"

lemma unanswered:
  assumes "e_http E = (\<lambda>t p m q b. Inl err)"
  shows "c_GetActiveOvsdbSchemaVersion E cli d w =
      (Ok ([], if status_of err = Some 404 then SchemaErrorNotSupported else SchemaErrorGeneric),
       w\<lparr>w_trace := Http cli ''GET'' (schema_path d ''active'') # w_trace w\<rparr>)"
    and "c_GetAllExpectedOvsdbSchemaVersions E cli d w =
      (Er (wrapf ''failed to get expected ovsdb schema versions from cluster: '' err),
       w\<lparr>w_trace := Http cli ''GET'' (schema_path d ''expected/all'') # w_trace w\<rparr>)"
  using assms
  by (simp_all add: c_GetActiveOvsdbSchemaVersion_def getOvsdbSchemaVersion_def query_def
      c_GetAllExpectedOvsdbSchemaVersions_def http_def bind_def attempt_def ret_def on_err_def fail_def)

lemma printed_summary_error:
  "FriendlyName d = ''Northbound'' \<Longrightarrow> printOvsdbSummaryError (ErrS msg) (Some d) w =
     (Ok (), w\<lparr>w_trace := summary_error msg # w_trace w\<rparr>)"
  by (simp add: printOvsdbSummaryError_def println_def run summary_error_def)

text \<open>An error does not end the report of a database: when no request is answered, the failure of
  both requests is printed, and then the empty list of versions is reported as a third error.\<close>

theorem report_not_aborted:
  assumes "e_http E = (\<lambda>t p m q b. Inl err)"
  shows "\<exists>w'. reportOvsdbSchemaStatus E C cli OvsdbTypeNBLocal w = (Ok (), w') \<and>
    filter (\<lambda>ev. \<exists>s. ev = Print s) (take 5 (w_trace w')) =
      [summary_error ''list of expected schema versions is empty'',
       summary_error ''failed to get expected OVN Northbound schema versions'',
       summary_error ''failed to get OVN Northbound active schema version'']"
proof -
  obtain d where d: "NewOvsdbSpec E OvsdbTypeNBLocal = Inr d" and name: "FriendlyName d = ''Northbound''"
    by (simp add: NewOvsdbSpec_def)
  let ?q = "\<lambda>t. Http cli ''GET'' (schema_path d t)"
  have "reportOvsdbSchemaStatus E C cli OvsdbTypeNBLocal w = (Ok (), w\<lparr>w_trace :=
      summary_error ''list of expected schema versions is empty'' #
      summary_error (''failed to get expected OVN '' @ FriendlyName d @ '' schema versions'') # ?q ''expected/all'' #
      summary_error (''failed to get OVN '' @ FriendlyName d @ '' active schema version'') # ?q ''active'' # w_trace w\<rparr>)"
    unfolding reportOvsdbSchemaStatus_def printOvsdbSchemaReport_def
    by (simp add: ovsdbSchemaRequiresAttention_def d bind_def andthen_def attempt_def unanswered [OF assms] printed_summary_error [OF name] run_ret
        del: append.simps append_Cons)
  then show ?thesis
    by (simp add: name summary_error_def numeral_eq_Suc)
qed

section \<open>Witnesses\<close>

definition ca_world :: world where
  "ca_world = sample_world\<lparr>w_fs := (\<lambda>p. if p = ''/c/data/pki/cacert.pem''
     then Some (File 384 (''CERTIFICATE'' @ CHR 0x0A # ''CA'')) else None)\<rparr>"

theorem listed_certificates_exact_witness:
  "\<exists>certs w'. populateExpectedCertificates sample_env [\<lparr>Service_service = ''central'', Service_location = ''n1''\<rparr>]
      \<lparr>AutoRenew = True, CaInfo_Error = []\<rparr> ''n1'' ca_world = (Ok certs, w')
    \<and> bundle_files (ocp_Nb certs) = Some (getServiceCertFiles sample_env ''ovnnb'')
    \<and> bundle_files (ocp_Chassis certs) = None"
proof -
  let ?srv = "\<lparr>Service_service = ''central'', Service_location = ''n1''\<rparr>" and ?ca = "\<lparr>AutoRenew = True, CaInfo_Error = []\<rparr>"
  obtain t w1 where "certExpDate sample_env (PkiCaCertFile sample_env) ca_world = (Ok t, w1)"
    by (simp add: certExpDate_def PkiCaCertFile_def PkiDir_def evals ca_world_def)
  moreover obtain certs w' where "fold_io (expect_service sample_env ''n1'') [?srv]
      (no_certificates\<lparr>ocp_Ca := Some \<lparr>ca_Cert = PkiCaCertFile sample_env, ca_AutoRenew = AutoRenew ?ca,
          ca_ExpDate = time_String (Some (fst t))\<rparr>\<rparr>) w1 = (Ok certs, w')"
    by (rule total_ioE [OF tot_fold_io [OF tot_expect_service]])
  ultimately have run: "populateExpectedCertificates sample_env [?srv] ?ca ''n1'' ca_world = (Ok certs, w')"
    unfolding populateExpectedCertificates_def by (simp add: run)
  show ?thesis
    using run listed_certificates_exact [OF run]
    by (auto simp: files_if_def runs_here_def SrvCentral_def SrvChassis_def)
qed

theorem report_not_aborted_witness:
  "\<exists>w'. reportOvsdbSchemaStatus (sample_env\<lparr>e_http := (\<lambda>t p m q b. Inl (ErrS ''unreachable''))\<rparr>) sample_cli ''local'' OvsdbTypeNBLocal
      sample_world = (Ok (), w')"
  using report_not_aborted [of "sample_env\<lparr>e_http := (\<lambda>t p m q b. Inl (ErrS ''unreachable''))\<rparr>"
      "ErrS ''unreachable''" sample_cli "''local''" sample_world] by auto

end
