(* ===== verification/CliService.thy ===== *)
theory CliService
  imports Console
begin

text \<open>
  The commands that change services and the CA (cmd/microovn/service_control.go, setup_bgp.go and
  certificates_set_ca.go): the extra configuration of a service on the command line, the set-up of BGP,
  and the certificate and the key in one stream of PEM blocks.
\<close>

section \<open>Services\<close>

definition disable_Run :: "env \<Rightarrow> cli \<Rightarrow> bool \<Rightarrow> bool \<Rightarrow> string \<Rightarrow> string \<Rightarrow> unit io" where
  "disable_Run E C verbose allowDisableLastCentral nodeName targetService =
     bind (local_client C) (\<lambda>cli.
     bind (c_DisableService E cli targetService allowDisableLastCentral nodeName) (\<lambda>(ws, regenEnv).
     andthen (println (''Service '' @ targetService @ '' disabled''))
     (andthen (WarningSet_PrettyPrint ws verbose)
     (if verbose then RegenerateEnv_PrettyPrint regenEnv else ret ()))))"

text \<open>The loop over the arguments of \<open>--config\<close>; the map keeps its entries in the order of the arguments.\<close>

fun config_args :: "string list \<Rightarrow> (string \<times> string) list \<Rightarrow> goerr + (string \<times> string) list" where
  "config_args [] rawConfig = Inr rawConfig"
| "config_args (configString # rest) rawConfig = (case cut CHR ''='' configString of
       None \<Rightarrow> Inl (ErrS (''configuration '' @ squoted configString @ '' does not conform to the 'key=value' format''))
     | Some (key, value) \<Rightarrow>
         if map_of rawConfig key \<noteq> None
         then Inl (ErrS (''configuration '' @ squoted key @ '' already set''))
         else config_args rest (rawConfig @ [(key, value)]))"

text \<open>The result is the field \<open>BgpConfig\<close> of the extra configuration.\<close>

definition parseExtraConfig :: "string list \<Rightarrow> bool \<Rightarrow> string \<Rightarrow> goerr + ExtraBgpConfig option" where
  "parseExtraConfig extraConfig manualBgpdConfig targetService =
     (case config_args extraConfig [] of
        Inl err \<Rightarrow> Inl err
      | Inr rawConfig \<Rightarrow>
          if rawConfig = [] then Inr None
          else if targetService = SrvBgp then
            (case FromMap empty_bgp rawConfig of
               Inl err \<Rightarrow> Inl err
             | Inr bgpConfig \<Rightarrow> Inr (Some (bgpConfig\<lparr>ManualBgpdConfig := manualBgpdConfig\<rparr>)))
          else Inl (ErrS (''service '' @ squoted targetService @ '' does not accpet extra config'')))"

definition enable_Run :: "env \<Rightarrow> cli \<Rightarrow> bool \<Rightarrow> string list \<Rightarrow> bool \<Rightarrow> string \<Rightarrow> string \<Rightarrow> unit io" where
  "enable_Run E C verbose extraConfig manualBgpdConfig nodeName targetService =
     bind (local_client C) (\<lambda>cli.
     andthen (if targetService = SrvBgp
              then print ''Please note, BGP functionality is currently experimental and likely to change.'' else ret ())
     (bind (of_sum (parseExtraConfig extraConfig manualBgpdConfig targetService)) (\<lambda>bgpConfig.
     bind (c_EnableService E cli targetService (Some bgpConfig) nodeName) (\<lambda>(ws, regenEnv).
     andthen (println (''Service '' @ targetService @ '' enabled''))
     (andthen (WarningSet_PrettyPrint ws verbose)
     (if verbose then RegenerateEnv_PrettyPrint regenEnv else ret ()))))))"

section \<open>Set-up of BGP\<close>

definition setup_bgp_Run :: "env \<Rightarrow> cli \<Rightarrow> string \<Rightarrow> string \<Rightarrow> string \<Rightarrow> string \<Rightarrow> string \<Rightarrow> unit io" where
  "setup_bgp_Run E C interfaceName bridgeName asn asnRange connectionIP4Range =
     (if interfaceName = [] \<and> bridgeName = [] then fail (ErrS ''either --interface or --br must be provided'')
      else if interfaceName \<noteq> [] \<and> bridgeName \<noteq> [] then fail (ErrS ''--interface and --br are mutually exclusive'')
      else bind (local_client C) (\<lambda>cli.
        let req = ExtraBgpConfig.extend (empty_bgp\<lparr>ExternalConnection := interfaceName, Bridge := bridgeName, Asn := asn\<rparr>)
              (SetupBgpRequest.fields connectionIP4Range) in
        bind (if asnRange \<noteq> [] then bind (of_sum (ParseAsnRange asnRange)) (\<lambda>r. ret (req\<lparr>AsnRange := r\<rparr>))
              else ret req) (\<lambda>req.
        bind (on_err (wrapf ''BGP setup failed: '') (c_SetupBgp E cli req)) (\<lambda>resp.
        if \<not> Setup_Success resp
        then andthen (println (''BGP setup failed: '' @ Setup_Message resp))
          (andthen (for_each (\<lambda>e. println (''  '' @ e)) (Setup_Errors resp))
          (fail (ErrS ''BGP setup did not complete successfully'')))
        else println (Setup_Message resp)))))"

section \<open>A new CA from files or from the standard input\<close>

text \<open>
  A PEM block is its type and its contents (with its headers, if it has any); encoding a decoded block
  into a buffer does not fail. The loop ends when no block is left, so it ends only if the rest of the
  input shrinks.
\<close>

definition is_key_type :: "string \<Rightarrow> bool" where
  "is_key_type t \<longleftrightarrow> t \<in> {''RSA PRIVATE KEY'', ''PRIVATE KEY'', ''EC PRIVATE KEY''}"

definition take_block :: "env \<Rightarrow> string \<times> string \<Rightarrow> string \<times> string \<Rightarrow> string \<times> string" where
  "take_block E block bufs = (case bufs of (certsBuf, keyBuf) \<Rightarrow>
     if fst block = ''CERTIFICATE'' then (certsBuf @ e_pem_encode E (fst block) (snd block), keyBuf)
     else if is_key_type (fst block)
     then (certsBuf, if keyBuf = [] then e_pem_encode E (fst block) (snd block) else keyBuf)
     else (certsBuf, keyBuf))"

partial_function (option) block_loop :: "env \<Rightarrow> string \<Rightarrow> string \<times> string \<Rightarrow> (string \<times> string) option" where
  "block_loop E data bufs = (case e_pem_decode E data of
       None \<Rightarrow> Some bufs
     | Some (block, rest) \<Rightarrow> block_loop E rest (take_block E block bufs))"

definition extractCertsAndKey :: "env \<Rightarrow> string \<Rightarrow> (goerr + string \<times> string) option" where
  "extractCertsAndKey E data = map_option (\<lambda>(certsBuf, keyBuf).
       if certsBuf = [] then Inl (ErrS ''no certificates found'')
       else if keyBuf = [] then Inl (ErrS ''no private key found'')
       else Inr (certsBuf, keyBuf)) (block_loop E data ([], []))"

definition read_files :: "env \<Rightarrow> string \<Rightarrow> string \<Rightarrow> (string \<times> string) io" where
  "read_files E certPath keyPath =
     bind (on_err (wrapf ''failed to read certificate file: '') (os_ReadFile E certPath)) (\<lambda>certData.
     bind (on_err (wrapf ''failed to read private key file: '') (os_ReadFile E keyPath)) (\<lambda>keyData.
     ret (certData, keyData)))"

definition set_ca_request :: "env \<Rightarrow> cli \<Rightarrow> (string \<times> string) io \<Rightarrow> unit io" where
  "set_ca_request E C input =
     bind input (\<lambda>(certData, keyData).
     bind (local_client C) (\<lambda>cli.
     bind (on_err command_failed (c_SetCA E cli certData keyData)) RegenerateCa_PrettyPrint))"

definition from_stdin :: "(goerr + string \<times> string) \<Rightarrow> (string \<times> string) io" where
  "from_stdin r = on_err (wrapf ''failed to parse certificates and keys from stdin: '') (of_sum r)"

definition set_ca_Run :: "env \<Rightarrow> cli \<Rightarrow> string \<Rightarrow> string \<Rightarrow> bool \<Rightarrow> world \<Rightarrow> (unit res \<times> world) option" where
  "set_ca_Run E C certPath keyPath combined w =
     (let certPathExists = certPath \<noteq> []; keyPathExists = keyPath \<noteq> [] in
      if combined = (keyPathExists \<or> certPathExists)
      then Some (fail (ErrS ''you must use --combined xor (--key and --cert)'') w)
      else if keyPathExists \<noteq> certPathExists
      then Some (fail (ErrS ''you must use either both or none of --key and --cert'') w)
      else if combined then
        (case c_stdin C (w_trace w) of
           Inl err \<Rightarrow> Some (fail (wrapf ''failed to read stdin: '' err) w)
         | Inr stdinData \<Rightarrow> map_option (\<lambda>r. set_ca_request E C (from_stdin r) w) (extractCertsAndKey E stdinData))
      else Some (set_ca_request E C (read_files E certPath keyPath) w))"

section \<open>The extra configuration\<close>

lemma config_args_Inr:
  "config_args args acc = Inr raw \<longleftrightarrow>
     (\<exists>new. raw = acc @ new \<and> args = map (\<lambda>kv. fst kv @ ''='' @ snd kv) new \<and>
        list_all (\<lambda>kv. CHR ''='' \<notin> set (fst kv)) new \<and> distinct (map fst new) \<and>
        fst ` set new \<inter> fst ` set acc = {})"
proof (induction args arbitrary: acc)
  case (Cons a args)
  show ?case
  proof (cases "cut CHR ''='' a")
    case None
    have "a \<noteq> fst kv @ ''='' @ snd kv" for kv :: "string \<times> string"
      using None by (auto simp: cut_None_iff)
    with None show ?thesis by (auto simp: Cons_eq_map_conv)
  next
    case (Some kv)
    obtain k v where kv: "kv = (k, v)" by fastforce
    have a: "a = k @ ''='' @ v" and k: "CHR ''='' \<notin> set k"
      using cut_Some Some kv by force+
    have only: "a = fst p @ ''='' @ snd p \<Longrightarrow> CHR ''='' \<notin> set (fst p) \<Longrightarrow> p = (k, v)" for p
      using cut_append [of "CHR ''=''" "fst p" "snd p"] Some kv by (cases p) simp
    show ?thesis
    proof (cases "map_of acc k = None")
      case True
      then have fresh: "k \<notin> fst ` set acc" by (simp add: map_of_eq_None_iff)
      have "config_args (a # args) acc = Inr raw \<longleftrightarrow> config_args args (acc @ [(k, v)]) = Inr raw"
        using Some True by (simp add: kv)
      also have "\<dots> \<longleftrightarrow> (\<exists>new. raw = acc @ (k, v) # new \<and> args = map (\<lambda>kv. fst kv @ ''='' @ snd kv) new \<and>
          list_all (\<lambda>kv. CHR ''='' \<notin> set (fst kv)) new \<and> distinct (map fst new) \<and>
          fst ` set new \<inter> (fst ` set acc \<union> {k}) = {})"
        unfolding Cons.IH by simp
      also have "\<dots> \<longleftrightarrow> (\<exists>new. raw = acc @ new \<and> a # args = map (\<lambda>kv. fst kv @ ''='' @ snd kv) new \<and>
          list_all (\<lambda>kv. CHR ''='' \<notin> set (fst kv)) new \<and> distinct (map fst new) \<and>
          fst ` set new \<inter> fst ` set acc = {})" (is "?L \<longleftrightarrow> ?R")
      proof
        assume ?L
        then obtain new where "raw = acc @ (k, v) # new" and "args = map (\<lambda>kv. fst kv @ ''='' @ snd kv) new"
          and "list_all (\<lambda>kv. CHR ''='' \<notin> set (fst kv)) new" and "distinct (map fst new)"
          and "fst ` set new \<inter> (fst ` set acc \<union> {k}) = {}" by blast
        with a k fresh show ?R by (intro exI [of _ "(k, v) # new"]) auto
      next
        assume ?R
        then obtain p new where "raw = acc @ p # new" and "a = fst p @ ''='' @ snd p"
          and "args = map (\<lambda>kv. fst kv @ ''='' @ snd kv) new"
          and "list_all (\<lambda>kv. CHR ''='' \<notin> set (fst kv)) (p # new)" and "distinct (map fst (p # new))"
          and "fst ` set (p # new) \<inter> fst ` set acc = {}" by (auto simp: Cons_eq_map_conv)
        with only [of p] show ?L by (intro exI [of _ new]) auto
      qed
      finally show ?thesis .
    next
      case False
      then have "k \<in> fst ` set acc" by (simp add: map_of_eq_None_iff)
      with False Some only show ?thesis
        by (auto simp: kv Cons_eq_map_conv)
    qed
  qed
qed auto

text \<open>C28: The extra configuration is absent exactly when no \<open>--config\<close> is given, whatever
  \<open>--manual-bgpd-config\<close> says; otherwise it needs the service \<open>bgp\<close>, arguments \<open>key=value\<close> with different
  keys, and values \<open>FromMap\<close> accepts.\<close>

theorem parseExtraConfig_exact:
  "parseExtraConfig args manual srv = Inr r \<longleftrightarrow>
     (if args = [] then r = None
      else srv = SrvBgp \<and> (\<exists>raw c. args = map (\<lambda>kv. fst kv @ ''='' @ snd kv) raw \<and>
        list_all (\<lambda>kv. CHR ''='' \<notin> set (fst kv)) raw \<and> distinct (map fst raw) \<and>
        FromMap empty_bgp raw = Inr c \<and> r = Some (c\<lparr>ManualBgpdConfig := manual\<rparr>)))"
proof (cases "config_args args []")
  case (Inl e)
  have "args \<noteq> []" using Inl by auto
  with Inl config_args_Inr [of args "[]"] show ?thesis
    by (auto simp: parseExtraConfig_def)
next
  case (Inr raw)
  have raw: "args = map (\<lambda>kv. fst kv @ ''='' @ snd kv) raw" "list_all (\<lambda>kv. CHR ''='' \<notin> set (fst kv)) raw"
    "distinct (map fst raw)"
    using config_args_Inr [of args "[]" raw] Inr by auto
  have only: "args = map (\<lambda>kv. fst kv @ ''='' @ snd kv) raw' \<Longrightarrow> list_all (\<lambda>kv. CHR ''='' \<notin> set (fst kv)) raw' \<Longrightarrow>
      distinct (map fst raw') \<Longrightarrow> raw' = raw" for raw'
    using config_args_Inr [of args "[]" raw'] Inr by auto
  show ?thesis
  proof (cases "args = []")
    case False
    then have ne: "raw \<noteq> []" using raw(1) by auto
    show ?thesis
    proof
      assume "parseExtraConfig args manual srv = Inr r"
      with False ne raw Inr show "if args = [] then r = None
        else srv = SrvBgp \<and> (\<exists>raw c. args = map (\<lambda>kv. fst kv @ ''='' @ snd kv) raw \<and>
        list_all (\<lambda>kv. CHR ''='' \<notin> set (fst kv)) raw \<and> distinct (map fst raw) \<and>
        FromMap empty_bgp raw = Inr c \<and> r = Some (c\<lparr>ManualBgpdConfig := manual\<rparr>))"
        by (auto simp: parseExtraConfig_def split: if_splits sum.splits)
    next
      assume "if args = [] then r = None
        else srv = SrvBgp \<and> (\<exists>raw c. args = map (\<lambda>kv. fst kv @ ''='' @ snd kv) raw \<and>
        list_all (\<lambda>kv. CHR ''='' \<notin> set (fst kv)) raw \<and> distinct (map fst raw) \<and>
        FromMap empty_bgp raw = Inr c \<and> r = Some (c\<lparr>ManualBgpdConfig := manual\<rparr>))"
      with False only ne Inr show "parseExtraConfig args manual srv = Inr r"
        by (auto simp: parseExtraConfig_def)
    qed
  qed (use Inr in \<open>auto simp: parseExtraConfig_def\<close>)
qed

text \<open>What the daemon refuses of a set-up of BGP because of its interface and bridge, the command
  refuses before asking, with the same error.\<close>

theorem setup_bgp_refused_like_daemon:
  assumes "SetupBgpRequest_Validate req = Some e"
  shows "setup_bgp_Run E C (ExternalConnection req) (Bridge req) asn asnRange ip4 w = (Er e, w)"
  using assms by (auto simp: SetupBgpRequest_Validate_def setup_bgp_Run_def run split: if_splits)

section \<open>The blocks of the standard input\<close>

text \<open>The blocks \<open>pem.Decode\<close> finds one after the other.\<close>

inductive blocks_of :: "env \<Rightarrow> string \<Rightarrow> (string \<times> string) list \<Rightarrow> bool" for E where
  none: "e_pem_decode E s = None \<Longrightarrow> blocks_of E s []"
| next_block: "e_pem_decode E s = Some (b, rest) \<Longrightarrow> blocks_of E rest bs \<Longrightarrow> blocks_of E s (b # bs)"

text \<open>What the command relies on: the remainder is shorter than the input, and no block is written as
  the empty text.\<close>

definition pem_laws :: "env \<Rightarrow> bool" where
  "pem_laws E \<longleftrightarrow> (\<forall>s b rest. e_pem_decode E s = Some (b, rest) \<longrightarrow> length rest < length s) \<and>
     (\<forall>t b. e_pem_encode E t b \<noteq> [])"

lemma blocks_exist:
  assumes "pem_laws E"
  shows "\<exists>bs. blocks_of E s bs"
proof (induction s rule: length_induct)
  case (1 s)
  show ?case
  proof (cases "e_pem_decode E s")
    case (Some br)
    then obtain b rest where br: "e_pem_decode E s = Some (b, rest)" by (cases br) simp
    with assms have "length rest < length s" unfolding pem_laws_def by blast
    with 1 obtain bs where "blocks_of E rest bs" by blast
    with br show ?thesis by (blast intro: blocks_of.intros)
  qed (blast intro: blocks_of.intros)
qed

lemma block_loop_blocks:
  "blocks_of E s bs \<Longrightarrow> block_loop E s bufs = Some (fold (take_block E) bs bufs)"
  by (induction arbitrary: bufs rule: blocks_of.induct) (simp_all add: block_loop.simps)

lemma block_loop_ends: "block_loop E s bufs = Some r \<Longrightarrow> \<exists>bs. blocks_of E s bs"
proof (erule block_loop.raw_induct [of "\<lambda>E s bufs r. \<exists>bs. blocks_of E s bs", rotated])
  fix loop E s bufs r
  assume IH: "\<And>E s bufs r. loop E s bufs = Some r \<Longrightarrow> \<exists>bs. blocks_of E s bs"
    and r: "(case e_pem_decode E s of None \<Rightarrow> Some bufs
      | Some (block, rest) \<Rightarrow> loop E rest (take_block E block bufs)) = Some r"
  show "\<exists>bs. blocks_of E s bs"
  proof (cases "e_pem_decode E s")
    case (Some p)
    with r IH [of E "snd p" "take_block E (fst p) bufs" r] show ?thesis
      by (cases p) (auto intro: blocks_of.intros)
  qed (blast intro: blocks_of.intros)
qed

lemma taken_blocks:
  assumes "pem_laws E"
  shows "fold (take_block E) bs (cs, k) =
    (cs @ concat (map (\<lambda>b. e_pem_encode E (fst b) (snd b)) (filter (\<lambda>b. fst b = ''CERTIFICATE'') bs)),
     if k = [] then concat (map (\<lambda>b. e_pem_encode E (fst b) (snd b)) (take 1 (filter (\<lambda>b. is_key_type (fst b)) bs)))
     else k)"
  using assms
  by (induction bs arbitrary: cs k) (auto simp: take_block_def pem_laws_def is_key_type_def)

text \<open>Reading the standard input returns exactly when the decoder runs out of blocks.\<close>

theorem extractCertsAndKey_returns_iff: "extractCertsAndKey E data \<noteq> None \<longleftrightarrow> (\<exists>bs. blocks_of E data bs)"
  using block_loop_ends [of E data "([], [])"] block_loop_blocks [of E data _ "([], [])"]
  by (auto simp: extractCertsAndKey_def simp del: not_None_eq)

text \<open>C32: It always returns, with all the certificates in their order and the first private key, or
  with an error when one of the two is missing.\<close>

theorem extractCertsAndKey_exact:
  assumes "pem_laws E"
  shows "\<exists>bs. blocks_of E data bs \<and> extractCertsAndKey E data = Some
    (if filter (\<lambda>b. fst b = ''CERTIFICATE'') bs = [] then Inl (ErrS ''no certificates found'')
     else if filter (\<lambda>b. is_key_type (fst b)) bs = [] then Inl (ErrS ''no private key found'')
     else Inr (concat (map (\<lambda>b. e_pem_encode E (fst b) (snd b)) (filter (\<lambda>b. fst b = ''CERTIFICATE'') bs)),
       (\<lambda>b. e_pem_encode E (fst b) (snd b)) (hd (filter (\<lambda>b. is_key_type (fst b)) bs))))"
proof -
  obtain bs where bs: "blocks_of E data bs" using blocks_exist [OF assms] by blast
  let ?cs = "filter (\<lambda>b. fst b = ''CERTIFICATE'') bs" and ?ks = "filter (\<lambda>b. is_key_type (fst b)) bs"
  have ne: "e_pem_encode E t b \<noteq> []" for t b using assms by (simp add: pem_laws_def)
  have "concat (map (\<lambda>b. e_pem_encode E (fst b) (snd b)) ?cs) = [] \<longleftrightarrow> ?cs = []"
    using ne by (auto simp: filter_empty_conv)
  moreover have "concat (map (\<lambda>b. e_pem_encode E (fst b) (snd b)) (take 1 ?ks)) =
      (if ?ks = [] then [] else (\<lambda>b. e_pem_encode E (fst b) (snd b)) (hd ?ks))"
    by (cases ?ks) auto
  ultimately show ?thesis
    using bs ne by (auto simp: extractCertsAndKey_def block_loop_blocks [OF bs] taken_blocks [OF assms])
qed

section \<open>Witnesses\<close>

theorem setup_bgp_refused_like_daemon_witness:
  "setup_bgp_Run sample_env sample_cli [] [] [] [] [] sample_world =
     (Er (ErrS ''either --interface or --br must be provided''), sample_world)"
  using setup_bgp_refused_like_daemon [of "ExtraBgpConfig.extend empty_bgp (SetupBgpRequest.fields [])"
      "ErrS ''either --interface or --br must be provided''" sample_env sample_cli "[]" "[]" "[]" sample_world]
  by (simp add: SetupBgpRequest_Validate_def empty_bgp_def ExtraBgpConfig.defs SetupBgpRequest.defs)

lemma sample_pem_laws: "pem_laws sample_env"
proof -
  have "cut CHR 0x0A s = Some p \<Longrightarrow> s \<noteq> []" for s p by auto
  then show ?thesis by (auto simp: pem_laws_def sample_env_def)
qed

theorem extractCertsAndKey_exact_witness:
  "extractCertsAndKey sample_env (''CERTIFICATE'' @ CHR 0x0A # ''CA'') = Some (Inl (ErrS ''no private key found''))"
proof -
  let ?data = "''CERTIFICATE'' @ CHR 0x0A # ''CA''"
  obtain bs where bs: "blocks_of sample_env ?data bs" and run: "extractCertsAndKey sample_env ?data = Some
    (if filter (\<lambda>b. fst b = ''CERTIFICATE'') bs = [] then Inl (ErrS ''no certificates found'')
     else if filter (\<lambda>b. is_key_type (fst b)) bs = [] then Inl (ErrS ''no private key found'')
     else Inr (concat (map (\<lambda>b. e_pem_encode sample_env (fst b) (snd b)) (filter (\<lambda>b. fst b = ''CERTIFICATE'') bs)),
       (\<lambda>b. e_pem_encode sample_env (fst b) (snd b)) (hd (filter (\<lambda>b. is_key_type (fst b)) bs))))"
    using extractCertsAndKey_exact [OF sample_pem_laws] by blast
  have none: "blocks_of sample_env [] bs \<longleftrightarrow> bs = []" for bs
    by (subst blocks_of.simps) (simp add: sample_env_def)
  have one: "blocks_of sample_env ?data bs \<longleftrightarrow> (\<exists>bs'. bs = (''CERTIFICATE'', ''CA'') # bs' \<and> blocks_of sample_env [] bs')" for bs
    by (subst blocks_of.simps) (auto simp: sample_env_def)
  have "bs = [(''CERTIFICATE'', ''CA'')]"
    using bs none unfolding one [of bs] by auto
  with run show ?thesis by (simp add: is_key_type_def)
qed

end
