(* ===== verification/CliInit.thy ===== *)
theory CliInit
  imports Console ConfigApi
begin

text \<open>
  \<open>microovn init\<close> (cmd/microovn/init.go, preseed.go): the values come from a YAML document on the standard
  input or from questions, are completed and checked, and are handed to the cluster library, which runs
  the hooks of the daemon with the options made of them.
\<close>

section \<open>Checking the values\<close>

definition Extensions :: "string list" where "Extensions = [''custom_encapsulation_ip'']"

definition validateMode :: "string \<Rightarrow> goerr option" where
  "validateMode mode =
     (if mode \<noteq> ''bootstrap'' \<and> mode \<noteq> ''join''
      then Some (ErrS (''mode must be 'bootstrap' or 'join', got '' @ quoted mode)) else None)"

definition validateToken :: "string \<Rightarrow> string \<Rightarrow> goerr option" where
  "validateToken mode token =
     (if mode = ''join'' \<and> token = [] then Some (ErrS ''token is required for join mode'')
      else if mode = ''bootstrap'' \<and> token \<noteq> [] then Some (ErrS ''token must not be set for bootstrap mode'')
      else None)"

definition validServices :: "string list" where "validServices = [''central'', ''chassis'', ''switch'', ''auto'']"

fun services_loop :: "string \<Rightarrow> string list \<Rightarrow> goerr option" where
  "services_loop srvs [] = None"
| "services_loop srvs (s # rest) =
     (if s \<notin> set validServices then Some (ErrS (''invalid service selected: '' @ s))
      else if s = ''auto'' \<and> length (split_on CHR '','' srvs) > 1
      then Some (ErrS ''cannot select multiple services when using auto'')
      else services_loop srvs rest)"

definition validateServices :: "string \<Rightarrow> goerr option" where
  "validateServices srvs = services_loop srvs (split_on CHR '','' srvs)"

definition validateCustomEncapsulationIP :: "cli \<Rightarrow> string \<Rightarrow> goerr option" where
  "validateCustomEncapsulationIP C ip = (if ip = [] then None else c_network_address C ip)"

text \<open>\<open>validate.IsNotEmpty\<close> of LXD, for values that are checked only when they are not empty.\<close>

definition IsNotEmpty :: "string \<Rightarrow> goerr option" where
  "IsNotEmpty v = (if v = [] then Some (ErrS ''Required value'') else None)"

definition validateCustomCACert :: "string \<Rightarrow> goerr option" where
  "validateCustomCACert path = (if path = [] then None else IsNotEmpty path)"

definition validateCustomCAKey :: "string \<Rightarrow> goerr option" where
  "validateCustomCAKey path = (if path = [] then None else IsNotEmpty path)"

text \<open>\<open>if err := f(); err != nil { return err }\<close>, one after the other.\<close>

fun first_error :: "goerr option list \<Rightarrow> goerr option" where
  "first_error [] = None"
| "first_error (r # rs) = (case r of Some err \<Rightarrow> Some err | None \<Rightarrow> first_error rs)"

definition validate :: "cli \<Rightarrow> InitValues \<Rightarrow> goerr option" where
  "validate C iv = first_error
     [validateMode (iv_Mode iv), validateToken (iv_Mode iv) (iv_Token iv), validateServices (iv_Services iv),
      validateCustomEncapsulationIP C (iv_CustomEncapsulationIP iv), validateCustomCACert (iv_CustomCACert iv),
      validateCustomCAKey (iv_CustomCAKey iv)]"

definition applyDefaults :: "cli \<Rightarrow> string \<Rightarrow> InitValues \<Rightarrow> InitValues io" where
  "applyDefaults C flagAddress iv =
     bind (if iv_Name iv = []
           then bind (attempt (outside (c_hostname C))) (\<lambda>r.
                ret (iv\<lparr>iv_Name := (case r of Inl _ \<Rightarrow> [] | Inr h \<Rightarrow> h)\<rparr>))
           else ret iv) (\<lambda>iv.
     bind (if iv_Address iv = [] \<and> flagAddress \<noteq> [] then ret (iv\<lparr>iv_Address := flagAddress\<rparr>)
           else if iv_Address iv = []
           then bind (reads (\<lambda>w. c_interface_address C (w_trace w))) (\<lambda>a. ret (iv\<lparr>iv_Address := a\<rparr>))
           else ret iv) (\<lambda>iv.
     ret (iv\<lparr>iv_Address := c_canonical C (iv_Address iv),
             iv_Services := (if iv_Services iv = [] then ''auto'' else iv_Services iv)\<rparr>)))"

section \<open>Questions\<close>

definition askCustomEncapsulationIP :: "cli \<Rightarrow> (string \<times> string) io" where
  "askCustomEncapsulationIP C =
     bind (AskBool C (''Would you like to define a custom encapsulation IP address for this member? (yes/no) '' @
       ''[default=no]: '') ''no'') (\<lambda>wants.
     if wants
     then bind (AskString C ''Please enter the custom encapsulation IP address for this member: '' []) (\<lambda>encapIP.
          andthen (ret_err (validateCustomEncapsulationIP C encapIP)) (ret (''ovn-encap-ip'', encapIP)))
     else ret ([], []))"

definition askCustomCA :: "cli \<Rightarrow> (string \<times> string) io" where
  "askCustomCA C =
     bind (AskBool C (''Would you like to provide your own CA certificate and private key for issuing OVN TLS '' @
       ''certificates? (yes/no) [default=no]: '') ''no'') (\<lambda>wants.
     if wants
     then bind (AskString C ''Please enter the path to the CA certificate file: '' []) (\<lambda>certPath.
          andthen (ret_err (validateCustomCACert certPath))
          (bind (AskString C ''Please enter the path to the CA private key file: '' []) (\<lambda>keyPath.
          andthen (ret_err (validateCustomCAKey keyPath)) (ret (certPath, keyPath)))))
     else ret ([], []))"

definition askServices :: "cli \<Rightarrow> string io" where
  "askServices C =
     bind (AskString C (''Please select comma-separated list services you would like to enable on this node '' @
       ''(central/chassis/switch) or let MicroOVN automatically decide (auto) [default=auto]: '') ''auto'') (\<lambda>serviceList.
     andthen (ret_err (validateServices serviceList)) (ret serviceList))"

definition no_values :: InitValues where
  "no_values = \<lparr>iv_Mode = [], iv_Name = [], iv_Address = [], iv_Services = [], iv_Token = [],
     iv_CustomEncapsulationIP = [], iv_CustomCACert = [], iv_CustomCAKey = [], iv_AdditionalServers = []\<rparr>"

definition ask_encapsulation :: "cli \<Rightarrow> InitValues \<Rightarrow> InitValues io" where
  "ask_encapsulation C iv =
     (if ''custom_encapsulation_ip'' \<in> set Extensions
      then bind (askCustomEncapsulationIP C) (\<lambda>(key, encapIP).
           ret (if key \<noteq> [] \<and> encapIP \<noteq> [] then iv\<lparr>iv_CustomEncapsulationIP := encapIP\<rparr> else iv))
      else ret iv)"

definition populateInteractively :: "cli \<Rightarrow> InitValues io" where
  "populateInteractively C =
     bind (reads (\<lambda>w. c_interface_address C (w_trace w))) (\<lambda>address.
     bind (AskString C (''Please choose the address MicroOVN will be listening on [default='' @ address @ '']: '') address) (\<lambda>a.
     bind (AskBool C ''Would you like to create a new MicroOVN cluster? (yes/no) [default=no]: '' ''no'') (\<lambda>wantsBootstrap.
     bind (askServices C) (\<lambda>srvs.
     let iv = no_values\<lparr>iv_Address := c_canonical C a, iv_Services := srvs\<rparr> in
     if wantsBootstrap
     then bind (on_err (wrapf ''failed to retrieve system hostname: '') (outside (c_hostname C))) (\<lambda>hostName.
          bind (AskString C (''Please choose a name for this system [default='' @ hostName @ '']: '') hostName) (\<lambda>name.
          bind (ask_encapsulation C (iv\<lparr>iv_Mode := ''bootstrap'', iv_Name := name\<rparr>)) (\<lambda>iv.
          bind (askCustomCA C) (\<lambda>(certPath, keyPath).
          ret (if certPath \<noteq> [] \<and> keyPath \<noteq> []
               then iv\<lparr>iv_CustomCACert := certPath, iv_CustomCAKey := keyPath\<rparr> else iv)))))
     else bind (AskString C ''Please enter your join token: '' []) (\<lambda>token.
          ask_encapsulation C (iv\<lparr>iv_Mode := ''join'', iv_Token := token\<rparr>))))))"

definition readPreseedConfig :: "cli \<Rightarrow> InitValues option io" where
  "readPreseedConfig C =
     bind (on_err (wrapf ''failed to stat stdin: '') (outside (c_terminal C))) (\<lambda>terminal.
     if terminal then ret None
     else bind (on_err (wrapf ''failed to parse preseed YAML from stdin: '') (outside (c_preseed C))) (\<lambda>iv.
          ret (Some iv)))"

section \<open>Acting on the values\<close>

definition init_options :: "InitValues \<Rightarrow> (string \<times> string) list" where
  "init_options iv = (''ovn-services'', iv_Services iv) #
     (if ''custom_encapsulation_ip'' \<in> set Extensions \<and> iv_CustomEncapsulationIP iv \<noteq> []
      then [(''ovn-encap-ip'', iv_CustomEncapsulationIP iv)] else []) @
     (if iv_Mode iv = ''bootstrap'' \<and> iv_CustomCACert iv \<noteq> [] \<and> iv_CustomCAKey iv \<noteq> []
      then [(''ovn-ca-cert'', iv_CustomCACert iv), (''ovn-ca-key'', iv_CustomCAKey iv)] else [])"

definition add_server :: "cli \<Rightarrow> string \<Rightarrow> unit io" where
  "add_server C tokenName = bind (NewJoinToken C tokenName) println"

definition applyInitValues :: "cli \<Rightarrow> bool \<Rightarrow> InitValues \<Rightarrow> unit io" where
  "applyInitValues C isUninitialized iv =
     andthen (if isUninitialized
              then (if iv_Mode iv = ''bootstrap''
                    then NewCluster C (iv_Name iv) (iv_Address iv) (init_options iv)
                    else JoinCluster C (iv_Name iv) (iv_Address iv) (iv_Token iv) (init_options iv))
              else print (''MicroOVN has already been initialized.'' @ [CHR 0x0A, CHR 0x0A]))
     (for_each (add_server C) (iv_AdditionalServers iv))"

text \<open>503 (service unavailable) says that the member is in no cluster yet.\<close>

definition is_uninitialized :: "cli \<Rightarrow> bool io" where
  "is_uninitialized C = bind (attempt (outside (c_members C))) (\<lambda>r. case r of
       Inl err \<Rightarrow> if status_of err = Some 503 then ret True else fail err
     | Inr _ \<Rightarrow> ret False)"

text \<open>The checked values, and whether they come from a preseed.\<close>

definition init_values :: "cli \<Rightarrow> string \<Rightarrow> (InitValues \<times> bool) io" where
  "init_values C flagAddress =
     bind (readPreseedConfig C) (\<lambda>preseed.
     bind (case preseed of Some iv \<Rightarrow> ret iv | None \<Rightarrow> populateInteractively C) (\<lambda>iv.
     bind (applyDefaults C flagAddress iv) (\<lambda>iv.
     andthen (ret_err (validate C iv)) (ret (iv, preseed \<noteq> None)))))"

text \<open>Up to the last question, whose answer is the result.\<close>

definition init_apply :: "cli \<Rightarrow> string \<Rightarrow> bool io" where
  "init_apply C flagAddress =
     andthen (outside_err (c_app C))
     (bind (is_uninitialized C) (\<lambda>isUninitialized.
     bind (init_values C flagAddress) (\<lambda>(iv, fromPreseed).
     andthen (applyInitValues C isUninitialized iv)
     (if \<not> fromPreseed \<and> iv_Mode iv \<noteq> ''join''
      then AskBool C ''Would you like to add additional servers to the cluster? (yes/no) [default=no]: '' ''no''
      else ret False))))"

definition server_question :: string where
  "server_question = ''What's the name of the new MicroOVN server? (empty to exit): ''"

partial_function (option) token_loop :: "cli \<Rightarrow> world \<Rightarrow> (unit res \<times> world) option" where
  "token_loop C w = (case AskString C server_question [] w of
       (Ok tokenName, w1) \<Rightarrow>
         if tokenName = [] then Some (Ok (), w1)
         else (case add_server C tokenName w1 of
             (Ok u, w2) \<Rightarrow> token_loop C w2
           | (Er e, w2) \<Rightarrow> Some (Er e, w2)
           | (Panic s, w2) \<Rightarrow> Some (Panic s, w2))
     | (Er e, w1) \<Rightarrow> Some (Er e, w1)
     | (Panic s, w1) \<Rightarrow> Some (Panic s, w1))"

definition init_Run :: "cli \<Rightarrow> string \<Rightarrow> world \<Rightarrow> (unit res \<times> world) option" where
  "init_Run C flagAddress w = (case init_apply C flagAddress w of
       (Ok wantsMachines, w1) \<Rightarrow> if wantsMachines then token_loop C w1 else Some (Ok (), w1)
     | (Er e, w1) \<Rightarrow> Some (Er e, w1)
     | (Panic s, w1) \<Rightarrow> Some (Panic s, w1))"

section \<open>Commands without questions\<close>

text \<open>\<open>microovn cluster bootstrap\<close> and \<open>microovn cluster join\<close> use the host name, the address of the
  network interface and no options.\<close>

definition own_address :: "cli \<Rightarrow> (string \<times> string) io" where
  "own_address C =
     bind (on_err (wrapf ''failed to retrieve system hostname: '') (outside (c_hostname C))) (\<lambda>hostname.
     bind (reads (\<lambda>w. c_interface_address C (w_trace w))) (\<lambda>address. ret (hostname, c_canonical C address)))"

definition cluster_bootstrap_Run :: "cli \<Rightarrow> unit io" where
  "cluster_bootstrap_Run C =
     andthen (on_err (wrapf ''unable to configure microovn: '') (outside_err (c_app C)))
     (bind (own_address C) (\<lambda>(hostname, address). NewCluster C hostname address []))"

definition cluster_join_Run :: "cli \<Rightarrow> string \<Rightarrow> unit io" where
  "cluster_join_Run C token =
     andthen (on_err (wrapf ''unable to configure microcluster: '') (outside_err (c_app C)))
     (bind (own_address C) (\<lambda>(hostname, address). JoinCluster C hostname address token []))"

definition config_list_Run :: "unit io" where
  "config_list_Run =
     andthen (println ''Available options:'') (for_each (\<lambda>keySpec. println (spec_Key keySpec)) AllowedConfigKeys)"

section \<open>What is accepted\<close>

lemma services_loop_None:
  "services_loop srvs xs = None \<longleftrightarrow>
     set xs \<subseteq> set validServices \<and> (''auto'' \<in> set xs \<longrightarrow> length (split_on CHR '','' srvs) \<le> 1)"
  by (induction xs) auto

lemma validateServices_None:
  "validateServices v = None \<longleftrightarrow>
     v = ''auto'' \<or> set (split_on CHR '','' v) \<subseteq> {''central'', ''chassis'', ''switch''}"
proof (cases "''auto'' \<in> set (split_on CHR '','' v)")
  case True
  have "length (split_on CHR '','' v) \<le> 1 \<longleftrightarrow> v = ''auto''"
  proof
    assume "length (split_on CHR '','' v) \<le> 1"
    with True have "split_on CHR '','' v = [''auto'']"
      by (cases "split_on CHR '','' v") auto
    then show "v = ''auto''"
      using join_split_on [of "CHR '',''" v] by simp
  next
    assume v: "v = ''auto''"
    show "length (split_on CHR '','' v) \<le> 1" unfolding v by simp
  qed
  moreover have "v = ''auto'' \<Longrightarrow> set (split_on CHR '','' v) \<subseteq> set validServices"
    by (simp add: validServices_def)
  ultimately show ?thesis
    using True by (auto simp: validateServices_def services_loop_None)
next
  case False
  then have "v \<noteq> ''auto''" by auto
  with False show ?thesis
    unfolding validateServices_def services_loop_None validServices_def by auto
qed

lemma parse_services_accepts:
  "(\<exists>r. parse_services v d w = (Ok r, w)) \<longleftrightarrow>
     v = ''auto'' \<or> set (split_on CHR '','' v) \<subseteq> {''central'', ''chassis'', ''switch''}"
proof (cases "v = ''auto''")
  case False
  have "(\<exists>r. newRequestedServices v = Inr r) \<longleftrightarrow> set (split_on CHR '','' v) \<subseteq> {''central'', ''chassis'', ''switch''}"
    by (simp add: newRequestedServices_def requested_loop_Inr)
  then show ?thesis
    using False by (cases "newRequestedServices v") (auto simp: parse_services_def on_err_def run_fail)
qed (simp add: parse_services_def)

text \<open>C33: The values of \<open>microovn init\<close> are accepted exactly when the mode fits the token, the address for
  the encapsulation is absent or an address, and the hooks of the daemon will accept the list of services.\<close>

theorem init_values_valid_iff:
  "validate C iv = None \<longleftrightarrow>
     (iv_Mode iv = ''bootstrap'' \<and> iv_Token iv = [] \<or> iv_Mode iv = ''join'' \<and> iv_Token iv \<noteq> []) \<and>
     (iv_CustomEncapsulationIP iv = [] \<or> c_network_address C (iv_CustomEncapsulationIP iv) = None) \<and>
     (\<exists>r. parse_services (iv_Services iv) d w = (Ok r, w))"
  unfolding parse_services_accepts validateServices_None [symmetric]
  by (auto simp: validate_def validateMode_def validateToken_def validateCustomEncapsulationIP_def
      validateCustomCACert_def validateCustomCAKey_def IsNotEmpty_def split: option.splits if_splits)

text \<open>A CA certificate without its key, or a key without its certificate, is dropped without an error:
  the values are accepted and the member is initialised as if none had been given.\<close>

theorem half_custom_CA_ignored:
  "validate C (iv\<lparr>iv_CustomCACert := path, iv_CustomCAKey := []\<rparr>) =
     validate C (iv\<lparr>iv_CustomCACert := [], iv_CustomCAKey := []\<rparr>)
   \<and> validate C (iv\<lparr>iv_CustomCACert := [], iv_CustomCAKey := path\<rparr>) =
     validate C (iv\<lparr>iv_CustomCACert := [], iv_CustomCAKey := []\<rparr>)
   \<and> applyInitValues C b (iv\<lparr>iv_CustomCACert := path, iv_CustomCAKey := []\<rparr>) =
     applyInitValues C b (iv\<lparr>iv_CustomCACert := [], iv_CustomCAKey := []\<rparr>)
   \<and> applyInitValues C b (iv\<lparr>iv_CustomCACert := [], iv_CustomCAKey := path\<rparr>) =
     applyInitValues C b (iv\<lparr>iv_CustomCACert := [], iv_CustomCAKey := []\<rparr>)"
  by (auto simp: applyInitValues_def init_options_def validate_def validateCustomCACert_def
      validateCustomCAKey_def IsNotEmpty_def split: option.splits)

section \<open>Only checked values reach the cluster\<close>

definition cluster_calls :: "world \<Rightarrow> event list" where
  "cluster_calls w = filter (\<lambda>ev. \<exists>call name. ev = Http ''microcluster'' call name) (w_trace w)"

lemma calls_print: "keeps (\<lambda>w. cluster_calls w = t) (print s)"
  by (simp add: keeps_def run cluster_calls_def)

lemma calls_outside:
  "keeps (\<lambda>w. cluster_calls w = t) (outside f)" "keeps (\<lambda>w. cluster_calls w = t) (outside_err g)"
  unfolding outside_def outside_err_def by (intro keeps_rules)+

lemma calls_ask:
  "keeps (\<lambda>w. cluster_calls w = t) (AskBool C q d)" "keeps (\<lambda>w. cluster_calls w = t) (AskString C q d)"
  unfolding AskBool_def AskString_def by (intro keeps_rules calls_print calls_outside)+

lemmas init_value_defs = readPreseedConfig_def populateInteractively_def askServices_def askCustomCA_def
  askCustomEncapsulationIP_def ask_encapsulation_def applyDefaults_def Let_def

lemma calls_init_values: "keeps (\<lambda>w. cluster_calls w = t) (init_values C flagAddress)"
  unfolding init_values_def init_value_defs by (intro keeps_rules calls_ask calls_outside)

lemma calls_is_uninitialized: "keeps (\<lambda>w. cluster_calls w = t) (is_uninitialized C)"
  unfolding is_uninitialized_def by (intro keeps_rules calls_outside)

lemma calls_before: "keeps (\<lambda>w. cluster_calls w = t) (andthen (outside_err (c_app C)) (is_uninitialized C))"
  by (intro keeps_rules calls_outside calls_is_uninitialized)

lemma init_values_valid: "init_values C flagAddress w = (Ok (iv, pre), w') \<Longrightarrow> validate C iv = None"
  unfolding init_values_def by (auto simp: ret_err_def elim!: bind_OkE andthen_OkE split: option.splits)

text \<open>C34: Before any call of the cluster library all values are checked: when \<open>init\<close> has made a call, its
  values were valid, and values that are refused change nothing.\<close>

theorem init_acts_on_valid_values:
  assumes "init_apply C flagAddress w = (r, w')" and "cluster_calls w' \<noteq> cluster_calls w"
  shows "\<exists>iv pre w1 w2. init_values C flagAddress w1 = (Ok (iv, pre), w2) \<and> validate C iv = None \<and>
    cluster_calls w2 = cluster_calls w"
proof (cases "andthen (outside_err (c_app C)) (is_uninitialized C)" w rule: io_cases)
  case (Ok u w1)
  have w1: "cluster_calls w1 = cluster_calls w"
    by (rule keepsD [OF calls_before refl Ok])
  obtain x wa where a: "outside_err (c_app C) w = (World.Ok x, wa)" and b: "is_uninitialized C wa = (World.Ok u, w1)"
    using Ok by (elim andthen_OkE)
  have rest: "init_apply C flagAddress w = bind (init_values C flagAddress) (\<lambda>(iv, fromPreseed).
      andthen (applyInitValues C u iv)
      (if \<not> fromPreseed \<and> iv_Mode iv \<noteq> ''join''
       then AskBool C ''Would you like to add additional servers to the cluster? (yes/no) [default=no]: '' ''no''
       else ret False)) w1"
    by (simp add: init_apply_def andthen_def [of "outside_err (c_app C)"] bind_def [of "outside_err (c_app C)"]
        bind_def [of "is_uninitialized C"] a b)
  show ?thesis
  proof (cases "init_values C flagAddress" w1 rule: io_cases)
    case (Ok p w2)
    obtain iv pre where p: "p = (iv, pre)" by fastforce
    have "cluster_calls w2 = cluster_calls w1"
      by (rule keepsD [OF calls_init_values refl Ok])
    with Ok init_values_valid [of C flagAddress w1 iv pre w2] w1 show ?thesis
      unfolding p by (intro exI [of _ iv] exI [of _ pre] exI [of _ w1] exI [of _ w2]) simp
  next
    case (Er e w2)
    have "cluster_calls w2 = cluster_calls w1" by (rule keepsD [OF calls_init_values refl Er])
    with assms rest Er w1 show ?thesis by (simp add: bind_def [of "init_values C flagAddress"])
  next
    case (Panic s w2)
    have "cluster_calls w2 = cluster_calls w1" by (rule keepsD [OF calls_init_values refl Panic])
    with assms rest Panic w1 show ?thesis by (simp add: bind_def [of "init_values C flagAddress"])
  qed
next
  case (Er e w1)
  have "cluster_calls w1 = cluster_calls w"
    by (rule keepsD [OF calls_before refl Er])
  moreover have "init_apply C flagAddress w = (World.Er e, w1)"
    using Er by (auto simp: init_apply_def andthen_def bind_def split: prod.splits res.splits)
  ultimately show ?thesis using assms by simp
next
  case (Panic s w1)
  have "cluster_calls w1 = cluster_calls w"
    by (rule keepsD [OF calls_before refl Panic])
  moreover have "init_apply C flagAddress w = (World.Panic s, w1)"
    using Panic by (auto simp: init_apply_def andthen_def bind_def split: prod.splits res.splits)
  ultimately show ?thesis using assms by simp
qed

section \<open>The loop that makes tokens\<close>

lemma AskString_trace: "AskString C q d w =
    (case c_ask_string C (Print q # w_trace w) q d of
       Inl e \<Rightarrow> (Er e, w\<lparr>w_trace := Print q # w_trace w\<rparr>)
     | Inr a \<Rightarrow> (Ok a, w\<lparr>w_trace := Print q # w_trace w\<rparr>))"
  by (simp add: AskString_def run run_andthen(1) [OF run_print] run_outside split: sum.splits)

lemma add_server_trace: "add_server C n w = (Ok u, w') \<Longrightarrow> length (w_trace w') \<ge> length (w_trace w)"
  unfolding add_server_def NewJoinToken_def cluster_call_def println_def
  by (auto simp: run run_outside elim!: bind_OkE split: sum.splits)

text \<open>C35: The loop that makes join tokens returns when the user sooner or later gives an empty name (here:
  to every question after the first \<open>n\<close> events), whatever the other answers are; it ends without an error
  only by an empty name.\<close>

theorem token_loop_returns:
  assumes "\<And>t. n \<le> length t \<Longrightarrow> c_ask_string C t server_question [] = Inr []"
  shows "\<exists>r w'. token_loop C w = Some (r, w') \<and>
    (r = Ok () \<longrightarrow> c_ask_string C (w_trace w') server_question [] = Inr [])"
proof (induction "n - length (w_trace w)" arbitrary: w rule: less_induct)
  case less
  let ?w1 = "w\<lparr>w_trace := Print server_question # w_trace w\<rparr>"
  show ?case
  proof (cases "c_ask_string C (w_trace ?w1) server_question []")
    case (Inl e)
    then show ?thesis by (subst token_loop.simps) (simp add: AskString_trace)
  next
    case (Inr a)
    show ?thesis
    proof (cases "a = []")
      case True
      with Inr show ?thesis by (subst token_loop.simps) (simp add: AskString_trace)
    next
      case False
      then have "length (w_trace ?w1) < n"
        using Inr assms [of "w_trace ?w1"] by (metis not_le sum.inject(2))
      show ?thesis
      proof (cases "add_server C a" ?w1 rule: io_cases)
        case (Ok u w2)
        have "length (w_trace w2) > length (w_trace w)"
          using add_server_trace [OF Ok] by simp
        with \<open>length (w_trace ?w1) < n\<close> have "n - length (w_trace w2) < n - length (w_trace w)" by simp
        from less [OF this] show ?thesis
          by (subst token_loop.simps) (use False Inr Ok in \<open>simp add: AskString_trace\<close>)
      qed (subst token_loop.simps, use False Inr in \<open>simp add: AskString_trace\<close>)+
    qed
  qed
qed

section \<open>Witnesses\<close>

theorem token_loop_returns_witness: "\<exists>r w'. token_loop sample_cli sample_world = Some (r, w')"
  using token_loop_returns [of 2 sample_cli sample_world] by (auto simp: sample_cli_def)

lemma sample_init: "\<exists>w'. init_apply sample_cli [] sample_world = (Ok False, w') \<and>
    cluster_calls w' = [Http ''microcluster'' ''NewCluster'' ''n1''] \<and> cluster_calls sample_world = []"
  by (simp add: init_apply_def is_uninitialized_def init_values_def readPreseedConfig_def applyDefaults_def
      applyInitValues_def NewCluster_def cluster_call_def outside_def outside_err_def sample_cli_def evals of_sum_def
      no_values_def validate_def validateMode_def validateToken_def validateServices_def validServices_def
      validateCustomEncapsulationIP_def validateCustomCACert_def validateCustomCAKey_def cluster_calls_def)

theorem init_acts_on_valid_values_witness:
  "\<exists>iv pre w1 w2. init_values sample_cli [] w1 = (Ok (iv, pre), w2) \<and> validate sample_cli iv = None"
proof -
  obtain w' where "init_apply sample_cli [] sample_world = (Ok False, w')"
    and "cluster_calls w' \<noteq> cluster_calls sample_world"
    using sample_init by auto
  from init_acts_on_valid_values [OF this] show ?thesis by blast
qed

end
