(* ===== verification/CliCluster.thy ===== *)
theory CliCluster
  imports Console
begin

text \<open>
  The commands about the cluster itself (cmd/microovn/cluster_add.go, cluster_list.go, cluster_remove.go,
  cluster_sql.go and waitready.go). They ask the cluster library, which is a parameter, and print its
  answers. The lemmas say which rows the list of the members has, and what a batch of SQL queries prints.
\<close>

section \<open>The library behind the commands\<close>

record listed_member =
  lm_name :: string
  lm_address :: string
  lm_role :: string
  lm_certificate :: string
  lm_status :: string

record sql_result =
  res_Type :: string
  res_Columns :: "string list"
  res_Rows :: "json list list"
  res_RowsAffected :: int

text \<open>
  Besides the parameters of \<open>cli\<close>: \<open>k_join_token\<close>, \<open>k_members\<close>, \<open>k_remove\<close>, \<open>k_sql\<close> and \<open>k_ready\<close> are the
  calls of microcluster (the time a token is valid in nanoseconds, the pointer to the batch of results, which may
  be nil, the timeout of \<open>Ready\<close> in seconds);
  \<open>k_fingerprint\<close>, \<open>k_sort\<close> and \<open>k_render\<close> are \<open>CertFingerprintStr\<close>, the sorting and the printing of a table in
  LXD; \<open>k_table\<close> is the text of package \<open>tablewriter\<close>, \<open>k_value\<close> the verb \<open>%v\<close> and \<open>k_help\<close> the help of cobra.
\<close>

record cluster_cli = cli +
  k_join_token :: "event list \<Rightarrow> string \<Rightarrow> int \<Rightarrow> goerr + string"
  k_members :: "event list \<Rightarrow> goerr + listed_member list"
  k_remove :: "event list \<Rightarrow> string \<Rightarrow> bool \<Rightarrow> goerr option"
  k_sql :: "event list \<Rightarrow> string \<Rightarrow> goerr + string \<times> sql_result list option"
  k_ready :: "event list \<Rightarrow> int option \<Rightarrow> goerr option"
  k_fingerprint :: "string \<Rightarrow> goerr + string"
  k_sort :: "string list list \<Rightarrow> string list list"
  k_render :: "string \<Rightarrow> string list \<Rightarrow> string list list \<Rightarrow> goerr + string"
  k_table :: "string list \<Rightarrow> string list list \<Rightarrow> string"
  k_value :: "json \<Rightarrow> string"
  k_help :: "goerr + string"

section \<open>The commands\<close>

text \<open>The second argument is the flag \<open>--timeout\<close> as a \<open>time.Duration\<close>.\<close>

definition cluster_add_Run :: "cluster_cli \<Rightarrow> int \<Rightarrow> string \<Rightarrow> unit io" where
  "cluster_add_Run C tokenDuration name =
     andthen (outside_err (c_app C))
     (bind (on_err (errf (''unable to add server to microcluster, name '' @ quoted name @ '' is taken:'' @ [CHR 0x0A]))
        (cluster_call ''NewJoinToken'' name (outside (\<lambda>t. k_join_token C t name tokenDuration))))
      println)"

text \<open>The rows are written by index into a slice of nil rows; a member whose certificate has no
  fingerprint is skipped.\<close>

fun list_loop :: "cluster_cli \<Rightarrow> nat \<Rightarrow> listed_member list \<Rightarrow> string list list \<Rightarrow> string list list" where
  "list_loop C i [] data = data"
| "list_loop C i (m # ms) data = (case k_fingerprint C (lm_certificate m) of
       Inl err \<Rightarrow> list_loop C (Suc i) ms data
     | Inr fingerprint \<Rightarrow>
         list_loop C (Suc i) ms (data[i := [lm_name m, lm_address m, lm_role m, fingerprint, lm_status m]]))"

definition cluster_list_Run :: "cluster_cli \<Rightarrow> string \<Rightarrow> unit io" where
  "cluster_list_Run C format =
     andthen (outside_err (c_app C))
     (bind (outside (k_members C)) (\<lambda>clusterMembers.
      let data = list_loop C 0 clusterMembers (replicate (length clusterMembers) []);
          header = [''NAME'', ''ADDRESS'', ''ROLE'', ''FINGERPRINT'', ''STATUS''] in
      bind (of_sum (k_render C format header (k_sort C data))) print))"

definition cluster_remove_Run :: "cluster_cli \<Rightarrow> bool \<Rightarrow> string \<Rightarrow> unit io" where
  "cluster_remove_Run C force name =
     andthen (outside_err (c_app C))
     (cluster_call ''RemoveClusterMember'' name (outside_err (\<lambda>t. k_remove C t name force)))"

definition sqlPrintSelectResult :: "cluster_cli \<Rightarrow> string list \<Rightarrow> json list list \<Rightarrow> unit io" where
  "sqlPrintSelectResult C columns rows = print (k_table C columns (map (map (k_value C)) rows))"

definition show_int :: "int \<Rightarrow> string" where
  "show_int n = (if n < 0 then CHR ''-'' # show_nat (nat (- n)) else show_nat (nat n))"

fun print_results :: "cluster_cli \<Rightarrow> bool \<Rightarrow> nat \<Rightarrow> sql_result list \<Rightarrow> unit io" where
  "print_results C several i [] = ret ()"
| "print_results C several i (r # rs) =
     andthen (if several then print (''=> Query '' @ show_nat i @ '':'' @ [CHR 0x0A, CHR 0x0A]) else ret ())
     (andthen (if res_Type r = ''select'' then sqlPrintSelectResult C (res_Columns r) (res_Rows r)
               else print (''Rows affected: '' @ show_int (res_RowsAffected r) @ [CHR 0x0A]))
     (andthen (if several then print [CHR 0x0A] else ret ())
     (print_results C several (Suc i) rs)))"

definition run_query :: "cluster_cli \<Rightarrow> string \<Rightarrow> unit io" where
  "run_query C q =
     andthen (outside_err (c_app C))
     (bind (cluster_call ''SQL'' q (outside (\<lambda>t. k_sql C t q))) (\<lambda>(dump, batch).
      if dump \<noteq> [] then print dump
      else (case batch of
          None \<Rightarrow> panic ''invalid memory address or nil pointer dereference''
        | Some results \<Rightarrow> print_results C (1 < length results) 0 results)))"

text \<open>The documented answer of the library to a query: a dump or a batch.\<close>

definition dump_or_batch :: "cluster_cli \<Rightarrow> bool" where
  "dump_or_batch C \<longleftrightarrow> (\<forall>t q. k_sql C t q \<noteq> Inr ([], None))"

definition cluster_sql_Run :: "cluster_cli \<Rightarrow> string list \<Rightarrow> unit io" where
  "cluster_sql_Run C args =
     andthen (if length args \<noteq> 1 then bind (on_err (wrapf ''unable to load help: '') (of_sum (k_help C))) print else ret ())
     (case args of [] \<Rightarrow> ret () | q # _ \<Rightarrow> run_query C q)"

definition waitready_Run :: "cluster_cli \<Rightarrow> int \<Rightarrow> unit io" where
  "waitready_Run C timeout =
     andthen (outside_err (c_app C))
     (outside_err (\<lambda>t. k_ready C t (if 0 < timeout then Some timeout else None)))"

section \<open>The list of the members\<close>

definition listed_row :: "cluster_cli \<Rightarrow> listed_member \<Rightarrow> string list" where
  "listed_row C m = (case k_fingerprint C (lm_certificate m) of Inl _ \<Rightarrow> []
     | Inr f \<Rightarrow> [lm_name m, lm_address m, lm_role m, f, lm_status m])"

text \<open>A skipped member is not left out of the table: its row is there, without any column.\<close>

lemma list_loop_rows:
  "list_loop C (length done) ms (done @ replicate (length ms) []) = done @ map (listed_row C) ms"
proof (induction ms arbitrary: "done")
  case (Cons m ms)
  show ?case
    using Cons.IH [of "done @ [listed_row C m]"]
    by (cases "k_fingerprint C (lm_certificate m)") (simp_all add: listed_row_def list_update_append)
qed simp

lemma cluster_list_rows:
  "list_loop C 0 ms (replicate (length ms) []) = map (listed_row C) ms"
  using list_loop_rows [of C "[]"] by simp

section \<open>What the SQL command prints\<close>

definition result_text :: "cluster_cli \<Rightarrow> sql_result \<Rightarrow> string" where
  "result_text C r = (if res_Type r = ''select'' then k_table C (res_Columns r) (map (map (k_value C)) (res_Rows r))
     else ''Rows affected: '' @ show_int (res_RowsAffected r) @ [CHR 0x0A])"

text \<open>The output of a part of a run, oldest first.\<close>

definition printed :: "event list \<Rightarrow> string" where
  "printed t = concat (map (\<lambda>e. case e of Print s \<Rightarrow> s | _ \<Rightarrow> []) (rev t))"

lemma printed_simps [simp]: "printed [] = []" "printed (Print s # t) = printed t @ s"
  "printed (t @ t') = printed t' @ printed t"
  by (simp_all add: printed_def)

definition numbered :: "cluster_cli \<Rightarrow> nat \<times> sql_result \<Rightarrow> string" where
  "numbered C = (\<lambda>(i, r). ''=> Query '' @ show_nat i @ '':'' @ [CHR 0x0A, CHR 0x0A] @ result_text C r @ [CHR 0x0A])"

lemma print_results_output:
  "\<exists>t. print_results C several i rs w = (Ok (), w\<lparr>w_trace := t @ w_trace w\<rparr>) \<and>
     printed t = (if several then concat (map (numbered C) (enumerate i rs)) else concat (map (result_text C) rs))"
proof (induction rs arbitrary: i w)
  case Nil
  show ?case by (intro exI [of _ "[]"]) (simp add: ret_def)
next
  case (Cons r rs)
  let ?q = "Print (''=> Query '' @ show_nat i @ '':'' @ [CHR 0x0A, CHR 0x0A])" and ?r = "Print (result_text C r)"
  have row: "numbered C (i, r) = ''=> Query '' @ show_nat i @ '':'' @ [CHR 0x0A, CHR 0x0A] @ result_text C r @ [CHR 0x0A]"
    by (simp add: numbered_def)
  let ?t = "if several then [Print [CHR 0x0A], ?r, ?q] else [?r]"
  obtain t where t: "print_results C several (Suc i) rs (w\<lparr>w_trace := ?t @ w_trace w\<rparr>) =
      (Ok (), w\<lparr>w_trace := t @ ?t @ w_trace w\<rparr>)"
    "printed t = (if several then concat (map (numbered C) (enumerate (Suc i) rs)) else concat (map (result_text C) rs))"
    using Cons.IH [of "Suc i" "w\<lparr>w_trace := ?t @ w_trace w\<rparr>"] by auto
  show ?case
    using t by (intro exI [of _ "t @ ?t"])
      (auto simp: run sqlPrintSelectResult_def result_text_def [of C r] row)
qed


text \<open>With one argument the query runs. With more, the help is printed and then the first of them runs.\<close>

lemma cluster_sql_output:
  assumes "\<And>t. c_app C t = None" and "k_help C = Inr h" and "\<And>t. k_sql C t q = Inr (dump, Some rs)"
  shows "\<exists>t. cluster_sql_Run C (q # rest) w = (Ok (), w\<lparr>w_trace := t @ w_trace w\<rparr>) \<and>
    printed t = (if rest = [] then [] else h) @
      (if dump \<noteq> [] then dump else if length rs \<le> 1 then concat (map (result_text C) rs)
       else concat (map (numbered C) (enumerate 0 rs)))"
proof -
  let ?sql = "Http ''microcluster'' ''SQL'' q"
  let ?out = "if dump \<noteq> [] then dump else if length rs \<le> 1 then concat (map (result_text C) rs)
       else concat (map (numbered C) (enumerate 0 rs))"
  have run_q: "\<exists>t. run_query C q w = (Ok (), w\<lparr>w_trace := t @ w_trace w\<rparr>) \<and> printed t = ?out" for w
  proof (cases "dump = []")
    case True
    obtain t where "print_results C (1 < length rs) 0 rs (w\<lparr>w_trace := ?sql # w_trace w\<rparr>) =
        (Ok (), w\<lparr>w_trace := t @ ?sql # w_trace w\<rparr>)" "printed t = ?out"
      using print_results_output [of C "1 < length rs" 0 rs "w\<lparr>w_trace := ?sql # w_trace w\<rparr>"] True
      by (auto simp: not_le split: if_splits)
    then show ?thesis
      using True assms(1,3) by (intro exI [of _ "t @ [?sql]"])
        (simp add: run_query_def run run_outside run_outside_err cluster_call_def printed_def)
  next
    case False
    then show ?thesis
      using assms(1,3) by (intro exI [of _ "[Print dump, ?sql]"])
        (simp add: run_query_def run run_outside run_outside_err cluster_call_def printed_def)
  qed
  show ?thesis
  proof (cases "rest = []")
    case True
    then show ?thesis
      using run_q [of w] by (simp add: cluster_sql_Run_def run)
  next
    case False
    obtain t where "run_query C q (w\<lparr>w_trace := Print h # w_trace w\<rparr>) =
        (Ok (), w\<lparr>w_trace := t @ Print h # w_trace w\<rparr>)" "printed t = ?out"
      using run_q [of "w\<lparr>w_trace := Print h # w_trace w\<rparr>"] by auto
    then show ?thesis
      using False assms(2) by (intro exI [of _ "t @ [Print h]"]) (simp add: cluster_sql_Run_def run)
  qed
qed

end
