(* ===== verification/Commands.thy ===== *)
theory Commands
  imports CliStatus CliService CliInit CliCluster
begin

text \<open>
  The command line program as a whole (cmd/microovn/main.go and the methods \<open>Command\<close> of its commands): the
  tree of the commands with their arguments and flags, and the program that runs the command the user
  names. The package cobra, which reads the arguments and finds the command, is a parameter; what it is
  relied on for is stated in \<open>cobra_ok\<close>. The lemmas show that no command accepts arguments for which it would
  read past their end, that no accepted command line makes the program panic, and that a command reads no flag
  it does not declare.
\<close>

section \<open>Commands, arguments and flags\<close>

text \<open>The checks of cobra; without a check every argument is accepted.\<close>

datatype args_rule = ArbitraryArgs | NoArgs | ExactArgs nat | OnlyValidArgs | MatchAll "args_rule list"

fun check_args :: "string list \<Rightarrow> args_rule \<Rightarrow> string list \<Rightarrow> bool" where
  "check_args valid ArbitraryArgs args \<longleftrightarrow> True"
| "check_args valid NoArgs args \<longleftrightarrow> args = []"
| "check_args valid (ExactArgs n) args \<longleftrightarrow> length args = n"
| "check_args valid OnlyValidArgs args \<longleftrightarrow> list_all (\<lambda>a. a \<in> set valid) args"
| "check_args valid (MatchAll rs) args \<longleftrightarrow> list_all (\<lambda>r. check_args valid r args) rs"

text \<open>A flag with its name, its short form and its default.\<close>

datatype flag =
    BoolFlag string string bool
  | StringFlag string string string
  | StringArrayFlag string
  | IntFlag string string int
  | SecondsFlag string int       \<comment> \<open>a \<open>float64\<close> of seconds, as a \<open>time.Duration\<close> in nanoseconds\<close>

record flag_values =
  v_bool :: "string \<Rightarrow> bool"
  v_string :: "string \<Rightarrow> string"
  v_strings :: "string \<Rightarrow> string list"
  v_int :: "string \<Rightarrow> int"
  v_duration :: "string \<Rightarrow> int"

type_synonym runner = "flag_values \<Rightarrow> string list \<Rightarrow> world \<Rightarrow> (unit res \<times> world) option"

datatype command = Command (cmd_Use: string) (cmd_ValidArgs: "string list") (cmd_Args: args_rule)
  (cmd_Flags: "flag list") (cmd_Run: "runner option") (cmd_Sub: "command list")

definition accepts :: "command \<Rightarrow> string list \<Rightarrow> bool" where
  "accepts c args \<longleftrightarrow> check_args (cmd_ValidArgs c) (cmd_Args c) args"

text \<open>The name of a command is the first word of its usage.\<close>

definition cmd_name :: "command \<Rightarrow> string" where
  "cmd_name c = takeWhile (\<lambda>x. x \<noteq> CHR '' '') (cmd_Use c)"

fun tree :: "command \<Rightarrow> command list" where
  "tree (Command u v a f r sub) = Command u v a f r sub # concat (map tree sub)"

text \<open>\<open>args[i]\<close> of a Go slice.\<close>

definition arg :: "string list \<Rightarrow> nat \<Rightarrow> string io" where
  "arg args i = (if i < length args then ret (args ! i) else panic ''index out of range'')"

definition running :: "(flag_values \<Rightarrow> string list \<Rightarrow> unit io) \<Rightarrow> runner option" where
  "running m = Some (\<lambda>fl args w. Some (m fl args w))"

section \<open>The declarations\<close>

text \<open>
  \<open>C\<close> is the outside of the client program. Without a run method cobra prints the help of a command. The flag
  \<open>--state-dir\<close> goes to the cluster library and is part of what \<open>c_app\<close> stands for.
\<close>

definition cmdInit_Command :: "cluster_cli \<Rightarrow> command" where
  "cmdInit_Command C = Command ''init'' [] ArbitraryArgs [StringFlag ''address'' [] []]
     (Some (\<lambda>fl args. init_Run (cli.truncate C) (v_string fl ''address''))) []"

definition cmdStatus_Command :: "env \<Rightarrow> cluster_cli \<Rightarrow> command" where
  "cmdStatus_Command E C = Command ''status'' [] ArbitraryArgs [] (running (\<lambda>fl args. status_Run E (cli.truncate C))) []"

definition cmdDisable_Command :: "env \<Rightarrow> cluster_cli \<Rightarrow> command" where
  "cmdDisable_Command E C = Command ''disable <SERVICE>'' ServiceNames (MatchAll [ExactArgs 1, OnlyValidArgs])
     [BoolFlag ''allow-disable-last-central'' [] False, StringFlag ''node'' [] []]
     (running (\<lambda>fl args. bind (arg args 0)
        (disable_Run E (cli.truncate C) (v_bool fl ''verbose'') (v_bool fl ''allow-disable-last-central'') (v_string fl ''node'')))) []"

definition cmdEnable_Command :: "env \<Rightarrow> cluster_cli \<Rightarrow> command" where
  "cmdEnable_Command E C = Command ''enable <SERVICE>'' ServiceNames (MatchAll [ExactArgs 1, OnlyValidArgs])
     [StringArrayFlag ''config'', BoolFlag ''manual-bgpd-config'' [] False, StringFlag ''node'' [] []]
     (running (\<lambda>fl args. bind (arg args 0)
        (enable_Run E (cli.truncate C) (v_bool fl ''verbose'') (v_strings fl ''config'') (v_bool fl ''manual-bgpd-config'')
          (v_string fl ''node'')))) []"

definition cmdWaitReady_Command :: "cluster_cli \<Rightarrow> command" where
  "cmdWaitReady_Command C = Command ''waitready'' [] (MatchAll [ExactArgs 0]) [IntFlag ''timeout'' ''t'' 0]
     (running (\<lambda>fl args. waitready_Run C (v_int fl ''timeout''))) []"

definition cmdClusterAdd_Command :: "cluster_cli \<Rightarrow> command" where
  "cmdClusterAdd_Command C = Command ''add <NAME>'' [] (MatchAll [ExactArgs 1]) [SecondsFlag ''timeout'' 10800000000000]
     (running (\<lambda>fl args. bind (arg args 0) (cluster_add_Run C (v_duration fl ''timeout'')))) []"

definition cmdClusterBootstrap_Command :: "cluster_cli \<Rightarrow> command" where
  "cmdClusterBootstrap_Command C = Command ''bootstrap'' [] (MatchAll [ExactArgs 0]) []
     (running (\<lambda>fl args. cluster_bootstrap_Run (cli.truncate C))) []"

definition cmdClusterJoin_Command :: "cluster_cli \<Rightarrow> command" where
  "cmdClusterJoin_Command C = Command ''join <TOKEN>'' [] (MatchAll [ExactArgs 1]) []
     (running (\<lambda>fl args. bind (arg args 0) (cluster_join_Run (cli.truncate C)))) []"

definition cmdClusterList_Command :: "cluster_cli \<Rightarrow> command" where
  "cmdClusterList_Command C = Command ''list'' [] ArbitraryArgs [StringFlag ''format'' ''f'' ''table'']
     (running (\<lambda>fl args. cluster_list_Run C (v_string fl ''format''))) []"

definition cmdClusterRemove_Command :: "cluster_cli \<Rightarrow> command" where
  "cmdClusterRemove_Command C = Command ''remove <NAME>'' [] (MatchAll [ExactArgs 1]) [BoolFlag ''force'' ''f'' False]
     (running (\<lambda>fl args. bind (arg args 0) (cluster_remove_Run C (v_bool fl ''force'')))) []"

definition cmdClusterSQL_Command :: "cluster_cli \<Rightarrow> command" where
  "cmdClusterSQL_Command C = Command ''sql <query>'' [] ArbitraryArgs [] (running (\<lambda>fl args. cluster_sql_Run C args)) []"

definition cmdCluster_Command :: "cluster_cli \<Rightarrow> command" where
  "cmdCluster_Command C = Command ''cluster'' [] NoArgs []
     (running (\<lambda>fl args. ignore_err (bind (of_sum (k_help C)) print)))
     [cmdClusterAdd_Command C, cmdClusterBootstrap_Command C, cmdClusterJoin_Command C, cmdClusterList_Command C,
      cmdClusterRemove_Command C, cmdClusterSQL_Command C]"

definition outputFormats :: "string list" where "outputFormats = [''text'', ''json'']"

definition cmdCertificatesList_Command :: "env \<Rightarrow> cluster_cli \<Rightarrow> command" where
  "cmdCertificatesList_Command E C = Command ''list'' [] ArbitraryArgs [StringFlag ''format'' ''f'' ''text'']
     (running (\<lambda>fl args. certificates_list_Run E (cli.truncate C) (v_string fl ''format''))) []"

definition validCertificates :: "string list" where
  "validCertificates = [''client'', ''ovnnb'', ''ovnsb'', ''ovn-controller'', ''ovn-northd'', ''all'']"

definition cmdCertificatesReissue_Command :: "env \<Rightarrow> cluster_cli \<Rightarrow> command" where
  "cmdCertificatesReissue_Command E C = Command ''reissue <SERVICE>'' validCertificates
     (MatchAll [ExactArgs 1, OnlyValidArgs]) [] (running (\<lambda>fl args. bind (arg args 0) (reissue_Run E (cli.truncate C)))) []"

definition cmdCertificatesRegenerateCa_Command :: "env \<Rightarrow> cluster_cli \<Rightarrow> command" where
  "cmdCertificatesRegenerateCa_Command E C = Command ''regenerate-ca'' [] ArbitraryArgs []
     (running (\<lambda>fl args. regenerate_ca_Run E (cli.truncate C))) []"

definition cmdCertificatesSetCA_Command :: "env \<Rightarrow> cluster_cli \<Rightarrow> command" where
  "cmdCertificatesSetCA_Command E C = Command ''set-ca'' [] ArbitraryArgs
     [StringFlag ''cert'' [] [], StringFlag ''key'' [] [], BoolFlag ''combined'' [] False]
     (Some (\<lambda>fl args. set_ca_Run E (cli.truncate C) (v_string fl ''cert'') (v_string fl ''key'') (v_bool fl ''combined''))) []"

definition cmdCertificates_Command :: "env \<Rightarrow> cluster_cli \<Rightarrow> command" where
  "cmdCertificates_Command E C = Command ''certificates'' [] ArbitraryArgs [] None
     [cmdCertificatesList_Command E C, cmdCertificatesReissue_Command E C, cmdCertificatesRegenerateCa_Command E C,
      cmdCertificatesSetCA_Command E C]"

definition cmdConfigSet_Command :: "env \<Rightarrow> cluster_cli \<Rightarrow> command" where
  "cmdConfigSet_Command E C = Command ''set <KEY> <VALUE>'' [] (ExactArgs 2) []
     (running (\<lambda>fl args. bind (arg args 0) (\<lambda>key. bind (arg args 1) (config_set_Run E (cli.truncate C) key)))) []"

definition cmdConfigGet_Command :: "env \<Rightarrow> cluster_cli \<Rightarrow> command" where
  "cmdConfigGet_Command E C = Command ''get <KEY>'' [] (ExactArgs 1) []
     (running (\<lambda>fl args. bind (arg args 0) (config_get_Run E (cli.truncate C)))) []"

definition cmdConfigDelete_Command :: "env \<Rightarrow> cluster_cli \<Rightarrow> command" where
  "cmdConfigDelete_Command E C = Command ''delete <KEY>'' [] (ExactArgs 1) []
     (running (\<lambda>fl args. bind (arg args 0) (config_delete_Run E (cli.truncate C)))) []"

definition cmdConfigList_Command :: command where
  "cmdConfigList_Command = Command ''list'' [] ArbitraryArgs [] (running (\<lambda>fl args. config_list_Run)) []"

definition cmdConfig_Command :: "env \<Rightarrow> cluster_cli \<Rightarrow> command" where
  "cmdConfig_Command E C = Command ''config'' [] ArbitraryArgs [] None
     [cmdConfigSet_Command E C, cmdConfigGet_Command E C, cmdConfigDelete_Command E C, cmdConfigList_Command]"

definition cmdSetupBgp_Command :: "env \<Rightarrow> cluster_cli \<Rightarrow> command" where
  "cmdSetupBgp_Command E C = Command ''bgp'' [] NoArgs
     [StringFlag ''interface'' [] [], StringFlag ''br'' [] [], StringFlag ''asn'' [] [], StringFlag ''asn_range'' [] [],
      StringFlag ''connection-ip4-range'' [] []]
     (running (\<lambda>fl args. setup_bgp_Run E (cli.truncate C) (v_string fl ''interface'') (v_string fl ''br'') (v_string fl ''asn'')
        (v_string fl ''asn_range'') (v_string fl ''connection-ip4-range''))) []"

definition cmdSetup_Command :: "env \<Rightarrow> cluster_cli \<Rightarrow> command" where
  "cmdSetup_Command E C = Command ''setup'' [] ArbitraryArgs [] None [cmdSetupBgp_Command E C]"

section \<open>The program\<close>

definition persistent_flags :: "flag list" where
  "persistent_flags = [StringFlag ''state-dir'' [] [], BoolFlag ''help'' ''h'' False, BoolFlag ''version'' [] False,
     BoolFlag ''debug'' ''d'' False, BoolFlag ''verbose'' ''v'' False]"

definition microovn :: "env \<Rightarrow> cluster_cli \<Rightarrow> command" where
  "microovn E C = Command ''microovn'' [] ArbitraryArgs persistent_flags None
     [cmdInit_Command C, cmdStatus_Command E C, cmdDisable_Command E C, cmdEnable_Command E C, cmdWaitReady_Command C,
      cmdCluster_Command C, cmdCertificates_Command E C, cmdConfig_Command E C, cmdSetup_Command E C]"

text \<open>
  What cobra does: \<open>x_builtin\<close> is the text with which it answers a command line by itself (help and version);
  \<open>x_find\<close> is the command that any other command line names, with its flags and arguments, or an error;
  \<open>x_help\<close> is the help of a command. \<open>None\<close> is a run that never ends.
\<close>

record cobra =
  x_builtin :: "string list \<Rightarrow> string option"
  x_find :: "command \<Rightarrow> string list \<Rightarrow> goerr + command \<times> flag_values \<times> string list"
  x_help :: "command \<Rightarrow> string"

datatype exit = Exit nat | Crash string

definition exit_status :: "unit res \<Rightarrow> exit" where
  "exit_status r = (case r of Ok _ \<Rightarrow> Exit 0 | Er e \<Rightarrow> Exit 1 | Panic s \<Rightarrow> Crash s)"

text \<open>\<open>app.Execute()\<close> and \<open>os.Exit(1)\<close> on an error.\<close>

definition execute :: "cobra \<Rightarrow> command \<Rightarrow> string list \<Rightarrow> world \<Rightarrow> (exit \<times> world) option" where
  "execute X root argv w = map_option (\<lambda>(r, w'). (exit_status r, w')) (case x_builtin X argv of
       Some text \<Rightarrow> Some (print text w)
     | None \<Rightarrow> (case x_find X root argv of
           Inl e \<Rightarrow> Some (fail e w)
         | Inr (c, fl, args) \<Rightarrow> (case cmd_Run c of
               None \<Rightarrow> Some (print (x_help X c) w)
             | Some run \<Rightarrow> run fl args w)))"

definition main_program :: "cobra \<Rightarrow> env \<Rightarrow> cluster_cli \<Rightarrow> string list \<Rightarrow> world \<Rightarrow> (exit \<times> world) option" where
  "main_program X E C = execute X (microovn E C)"

text \<open>cobra runs a command of the tree, and only after its check of the arguments.\<close>

definition cobra_ok :: "cobra \<Rightarrow> bool" where
  "cobra_ok X \<longleftrightarrow> (\<forall>root argv c fl args. x_find X root argv = Inr (c, fl, args) \<longrightarrow> c \<in> set (tree root) \<and> accepts c args)"


lemmas command_defs = cmdInit_Command_def cmdStatus_Command_def cmdDisable_Command_def cmdEnable_Command_def
  cmdWaitReady_Command_def cmdClusterAdd_Command_def cmdClusterBootstrap_Command_def cmdClusterJoin_Command_def
  cmdClusterList_Command_def cmdClusterRemove_Command_def cmdClusterSQL_Command_def cmdCluster_Command_def
  cmdCertificatesList_Command_def cmdCertificatesReissue_Command_def cmdCertificatesRegenerateCa_Command_def
  cmdCertificatesSetCA_Command_def cmdCertificates_Command_def cmdConfigSet_Command_def cmdConfigGet_Command_def
  cmdConfigDelete_Command_def cmdConfigList_Command_def cmdConfig_Command_def cmdSetupBgp_Command_def cmdSetup_Command_def

section \<open>Commands that do not panic\<close>

lemma np_of_total: "total_io m \<Longrightarrow> no_panic m"
  unfolding total_io_def no_panic_def by (metis prod.inject res.distinct(3))

lemma np_prints [np_rules]:
  "no_panic (println s)" "no_panic (IssueCertificate_PrettyPrint i)" "no_panic (RegenerateCa_PrettyPrint r)"
  "no_panic (WarningSet_PrettyPrint ws b)" "no_panic (RegenerateEnv_PrettyPrint e)"
  by (rule np_of_total [OF tot_print(1)] np_of_total [OF tot_print(2)] np_of_total [OF tot_print(3)]
      np_of_total [OF tot_print(4)] np_of_total [OF tot_print(5)])+

lemma np_cluster_call [np_rules]: "no_panic m \<Longrightarrow> no_panic (cluster_call c n m)"
  by (auto simp: cluster_call_def no_panic_def split: prod.splits)

lemma np_library_calls [np_rules]:
  "no_panic (NewCluster C n a cfg)" "no_panic (JoinCluster C n a t cfg)" "no_panic (NewJoinToken C n)"
  "no_panic (AskBool C q d)" "no_panic (AskString C q d)"
  unfolding NewCluster_def JoinCluster_def NewJoinToken_def AskBool_def AskString_def by (intro np_rules)+

lemma np_answers:
  "no_panic (config_set_Run E C k v)" "no_panic (config_get_Run E C k)" "no_panic (config_delete_Run E C k)"
  "no_panic (reissue_Run E C s)" "no_panic (regenerate_ca_Run E C)" "no_panic config_list_Run"
  "no_panic (disable_Run E C b l n s)" "no_panic (enable_Run E C b x m n s)" "no_panic (setup_bgp_Run E C i br a r c)"
  unfolding config_set_Run_def config_get_Run_def config_delete_Run_def reissue_Run_def regenerate_ca_Run_def
    config_list_Run_def disable_Run_def enable_Run_def setup_bgp_Run_def
  by (intro np_rules)+

lemma np_print_results [np_rules]: "no_panic (print_results C b i rs)"
  by (induction rs arbitrary: i) (auto intro!: np_rules simp: sqlPrintSelectResult_def)

lemma np_cluster:
  "no_panic (cluster_add_Run C d n)" "no_panic (cluster_list_Run C f)" "no_panic (cluster_remove_Run C b n)"
  "no_panic (waitready_Run C i)" "no_panic (cluster_bootstrap_Run D)" "no_panic (cluster_join_Run D t)"
  unfolding cluster_add_Run_def cluster_list_Run_def cluster_remove_Run_def waitready_Run_def cluster_bootstrap_Run_def cluster_join_Run_def own_address_def
  by (intro np_rules)+

text \<open>The batch is read only when there is no dump.\<close>

lemma np_sql:
  assumes "dump_or_batch C"
  shows "no_panic (cluster_sql_Run C args)"
proof -
  have "no_panic (case p of (dump, batch) \<Rightarrow> if dump \<noteq> [] then print dump
      else (case batch of None \<Rightarrow> panic ''invalid memory address or nil pointer dereference''
        | Some results \<Rightarrow> print_results C (1 < length results) 0 results))"
    if "cluster_call ''SQL'' q (outside (\<lambda>t. k_sql C t q)) w = (Ok p, w')" for p q w w'
  proof -
    have "p \<noteq> ([], None)"
      using that assms by (auto simp: dump_or_batch_def cluster_call_def run_outside split: sum.splits)
    then show ?thesis by (cases p) (auto intro!: np_rules split: option.split)
  qed
  note answer = this
  have "no_panic (run_query C q)" for q
    unfolding run_query_def
  proof (rule np_andthen)
    show "no_panic (outside_err (c_app C))" by (intro np_rules)
  qed (rule np_bind_Ok, (intro np_rules)[1], erule answer)
  then show ?thesis unfolding cluster_sql_Run_def by (intro np_rules)
qed

lemma tot_printed_status [tot_rules]: "total_io (certBundle_printCertStatus E b)" "total_io (caCertInfo_printCertStatus E i)"
  "total_io (printOvnCertStatus E p)"
  unfolding certBundle_printCertStatus_def caCertInfo_printCertStatus_def printOvnCertStatus_def
  by (intro tot_rules)+

lemma np_expected [np_rules]:
  "no_panic (ca_info E c)" "no_panic (populateExpectedCertificates E s i h)" "no_panic (printOvnCertStatus E p)"
  "no_panic (print_server ss m)" "no_panic (reportOvsdbSchemaStatus E C cli d)" "no_panic (printCertsSummary E p)"
proof -
  show "no_panic (ca_info E c)"
    unfolding ca_info_def by (intro np_rules)
  show "no_panic (populateExpectedCertificates E s i h)"
    unfolding populateExpectedCertificates_def by (intro np_rules) (rule np_of_total, intro tot_rules)
qed (rule np_of_total, intro tot_rules)+

lemma np_reports: "no_panic (status_Run E C)" "no_panic (certificates_list_Run E C f)"
  unfolding status_Run_def certificates_list_Run_def by (intro np_rules)+

section \<open>Commands that may not end\<close>

text \<open>\<open>m\<close> does not panic when it ends.\<close>

definition np_partial :: "(world \<Rightarrow> (unit res \<times> world) option) \<Rightarrow> bool" where
  "np_partial m \<longleftrightarrow> (\<forall>w s w'. m w \<noteq> Some (Panic s, w'))"

lemma np_partial_Some: "no_panic m \<Longrightarrow> np_partial (\<lambda>w. Some (m w))"
  by (simp add: np_partial_def no_panic_def)

lemma token_loop_result:
  assumes "token_loop C w = Some y"
  shows "\<forall>s. fst y \<noteq> Panic s"
proof (rule token_loop.raw_induct [OF _ assms, of "\<lambda>C w y. \<forall>s. fst y \<noteq> Panic s"])
  fix loop :: "cli \<Rightarrow> world \<Rightarrow> (unit res \<times> world) option" and C w y
  assume loop: "\<And>C w y. loop C w = Some y \<Longrightarrow> \<forall>s. fst y \<noteq> Panic s"
    and step: "(case AskString C server_question [] w of
         (Ok tokenName, w1) \<Rightarrow> if tokenName = [] then Some (Ok (), w1)
           else (case add_server C tokenName w1 of (Ok u, w2) \<Rightarrow> loop C w2 | (Er e, w2) \<Rightarrow> Some (Er e, w2)
             | (Panic s, w2) \<Rightarrow> Some (Panic s, w2))
       | (Er e, w1) \<Rightarrow> Some (Er e, w1) | (Panic s, w1) \<Rightarrow> Some (Panic s, w1)) = Some y"
  have "no_panic (AskString C server_question [])" "\<And>n. no_panic (add_server C n)"
    unfolding add_server_def by (intro np_rules)+
  with step show "\<forall>s. fst y \<noteq> Panic s"
    by (auto simp: no_panic_def dest: loop split: prod.splits res.splits if_splits) (metis fst_conv res.distinct(5))
qed

lemma token_loop_no_panic: "np_partial (token_loop C)"
  using token_loop_result by (force simp: np_partial_def)

lemma init_no_panic: "np_partial (init_Run C a)"
proof -
  have "no_panic (init_apply C a)"
    unfolding init_apply_def is_uninitialized_def init_values_def readPreseedConfig_def populateInteractively_def
      applyDefaults_def applyInitValues_def add_server_def ask_encapsulation_def askServices_def askCustomCA_def
      askCustomEncapsulationIP_def
    by (intro np_rules)
  then show ?thesis
    using token_loop_no_panic [of C]
    by (auto simp: np_partial_def no_panic_def init_Run_def split: prod.splits res.splits)
qed

lemma set_ca_no_panic: "np_partial (set_ca_Run E C c k b)"
proof -
  have "no_panic (set_ca_request E C (from_stdin r))" "no_panic (set_ca_request E C (read_files E c k))" for r
    unfolding set_ca_request_def from_stdin_def read_files_def by (intro np_rules)+
  then show ?thesis
    by (auto simp: np_partial_def no_panic_def set_ca_Run_def fail_def Let_def split: sum.splits)
qed


section \<open>Accepted command lines\<close>

definition safe_command :: "command \<Rightarrow> bool" where
  "safe_command c \<longleftrightarrow> (\<forall>run fl args. cmd_Run c = Some run \<longrightarrow> accepts c args \<longrightarrow> np_partial (run fl args))"

lemma safe_group: "safe_command (Command u v a f None sub)"
  by (simp add: safe_command_def)

lemma safe_running:
  "(\<And>fl args. check_args v a args \<Longrightarrow> no_panic (m fl args)) \<Longrightarrow> safe_command (Command u v a f (running m) sub)"
  by (auto simp: safe_command_def running_def accepts_def intro: np_partial_Some)

lemma safe_partial: "(\<And>fl args. np_partial (m fl args)) \<Longrightarrow> safe_command (Command u v a f (Some m) sub)"
  by (simp add: safe_command_def)

lemma np_arg: "i < length args \<Longrightarrow> no_panic (arg args i)"
  by (simp add: arg_def np_rules)

lemma np_help: "no_panic (ignore_err (bind (of_sum h) print))"
  by (intro np_rules)

lemmas safe_rules = safe_group safe_running safe_partial np_bind np_arg np_answers np_reports np_cluster np_help
  init_no_panic set_ca_no_panic

lemma safe_sql: "dump_or_batch C \<Longrightarrow> safe_command (cmdClusterSQL_Command C)"
  unfolding command_defs by (auto intro!: safe_rules np_sql)

lemma safe_commands:
  "safe_command (cmdInit_Command C)" "safe_command (cmdStatus_Command E C)" "safe_command (cmdDisable_Command E C)"
  "safe_command (cmdEnable_Command E C)" "safe_command (cmdWaitReady_Command C)"
  "safe_command (cmdClusterAdd_Command C)" "safe_command (cmdClusterBootstrap_Command C)"
  "safe_command (cmdClusterJoin_Command C)" "safe_command (cmdClusterList_Command C)"
  "safe_command (cmdClusterRemove_Command C)" "safe_command (cmdCluster_Command C)"
  "safe_command (cmdCertificatesList_Command E C)" "safe_command (cmdCertificatesReissue_Command E C)"
  "safe_command (cmdCertificatesRegenerateCa_Command E C)" "safe_command (cmdCertificatesSetCA_Command E C)"
  "safe_command (cmdCertificates_Command E C)" "safe_command (cmdConfigSet_Command E C)"
  "safe_command (cmdConfigGet_Command E C)" "safe_command (cmdConfigDelete_Command E C)"
  "safe_command cmdConfigList_Command" "safe_command (cmdConfig_Command E C)" "safe_command (cmdSetupBgp_Command E C)"
  "safe_command (cmdSetup_Command E C)"
  unfolding command_defs by (auto intro!: safe_rules)

lemma tree_microovn:
  "tree (microovn E C) = [microovn E C, cmdInit_Command C, cmdStatus_Command E C, cmdDisable_Command E C,
     cmdEnable_Command E C, cmdWaitReady_Command C, cmdCluster_Command C, cmdClusterAdd_Command C,
     cmdClusterBootstrap_Command C, cmdClusterJoin_Command C, cmdClusterList_Command C, cmdClusterRemove_Command C,
     cmdClusterSQL_Command C, cmdCertificates_Command E C, cmdCertificatesList_Command E C,
     cmdCertificatesReissue_Command E C, cmdCertificatesRegenerateCa_Command E C, cmdCertificatesSetCA_Command E C,
     cmdConfig_Command E C, cmdConfigSet_Command E C, cmdConfigGet_Command E C, cmdConfigDelete_Command E C,
     cmdConfigList_Command, cmdSetup_Command E C, cmdSetupBgp_Command E C]"
  by (simp add: microovn_def command_defs)

lemma all_commands_safe: "dump_or_batch C \<Longrightarrow> c \<in> set (tree (microovn E C)) \<Longrightarrow> safe_command c"
  unfolding tree_microovn by (auto simp: safe_commands safe_sql microovn_def safe_group)

text \<open>C10: Whatever the user types, the client program does not panic: each command that cobra runs was given
  arguments that its \<open>Run\<close> can index, and no answer of the daemon, of the user or of the system makes it panic. The
  one pointer of the library it follows unchecked, the batch of results of an SQL query, is nil only with a dump.
  Its exit status is 0 or 1, unless it never ends.\<close>

theorem command_line_never_panics:
  assumes "cobra_ok X" and "dump_or_batch C" and "main_program X E C argv w = Some (status, w')"
  shows "status = Exit 0 \<or> status = Exit 1"
proof -
  let ?m = "case x_builtin X argv of Some text \<Rightarrow> Some (print text w)
     | None \<Rightarrow> (case x_find X (microovn E C) argv of Inl e \<Rightarrow> Some (fail e w)
         | Inr (c, fl, args) \<Rightarrow> (case cmd_Run c of None \<Rightarrow> Some (print (x_help X c) w) | Some run \<Rightarrow> run fl args w))"
  obtain r where r: "?m = Some (r, w')" "status = exit_status r"
    using assms(3) by (auto simp: main_program_def execute_def)
  have "run fl args w \<noteq> Some (Panic s, w')"
    if "x_find X (microovn E C) argv = Inr (c, fl, args)" "cmd_Run c = Some run" for c fl args run s
  proof -
    have "c \<in> set (tree (microovn E C))" "accepts c args"
      using assms(1) that(1) unfolding cobra_ok_def by blast+
    then show ?thesis
      using all_commands_safe [OF assms(2), of c E] that(2) by (simp add: safe_command_def np_partial_def)
  qed
  then have "r \<noteq> Panic s" for s
    using r(1) by (auto simp: run split: option.splits sum.splits)
  then show ?thesis
    using r(2) by (auto simp: exit_status_def split: res.splits)
qed

section \<open>Flags\<close>

definition agree_on :: "flag_values \<Rightarrow> flag_values \<Rightarrow> flag \<Rightarrow> bool" where
  "agree_on v v' f \<longleftrightarrow> (case f of
       BoolFlag n _ _ \<Rightarrow> v_bool v n = v_bool v' n
     | StringFlag n _ _ \<Rightarrow> v_string v n = v_string v' n
     | StringArrayFlag n \<Rightarrow> v_strings v n = v_strings v' n
     | IntFlag n _ _ \<Rightarrow> v_int v n = v_int v' n
     | SecondsFlag n _ \<Rightarrow> v_duration v n = v_duration v' n)"

text \<open>What a command does depends only on the flags it declares, with their types, and on the flags of the
  program.\<close>

definition reads_declared :: "command \<Rightarrow> bool" where
  "reads_declared c \<longleftrightarrow> (\<forall>run v v'. cmd_Run c = Some run \<longrightarrow>
     list_all (agree_on v v') (persistent_flags @ cmd_Flags c) \<longrightarrow> run v = run v')"

lemmas flag_simps = reads_declared_def running_def persistent_flags_def agree_on_def

lemma commands_read_declared:
  "reads_declared (cmdInit_Command C)" "reads_declared (cmdStatus_Command E C)" "reads_declared (cmdDisable_Command E C)"
  "reads_declared (cmdEnable_Command E C)" "reads_declared (cmdWaitReady_Command C)"
  "reads_declared (cmdClusterAdd_Command C)" "reads_declared (cmdClusterBootstrap_Command C)"
  "reads_declared (cmdClusterJoin_Command C)" "reads_declared (cmdClusterList_Command C)"
  "reads_declared (cmdClusterRemove_Command C)" "reads_declared (cmdClusterSQL_Command C)" "reads_declared (cmdCluster_Command C)"
  "reads_declared (cmdCertificatesList_Command E C)" "reads_declared (cmdCertificatesReissue_Command E C)"
  "reads_declared (cmdCertificatesRegenerateCa_Command E C)" "reads_declared (cmdCertificatesSetCA_Command E C)"
  "reads_declared (cmdCertificates_Command E C)" "reads_declared (cmdConfigSet_Command E C)"
  "reads_declared (cmdConfigGet_Command E C)" "reads_declared (cmdConfigDelete_Command E C)"
  "reads_declared cmdConfigList_Command" "reads_declared (cmdConfig_Command E C)" "reads_declared (cmdSetupBgp_Command E C)"
  "reads_declared (cmdSetup_Command E C)"
  unfolding command_defs flag_simps by simp_all

lemma all_commands_read_declared: "c \<in> set (tree (microovn E C)) \<Longrightarrow> reads_declared c"
  unfolding tree_microovn by (auto simp: commands_read_declared) (simp add: microovn_def reads_declared_def)

section \<open>Finding a command by its path\<close>

text \<open>The search of the tree by names, without flags: the command that is found and what is left of the line.\<close>

fun descend :: "command \<Rightarrow> string list \<Rightarrow> command \<times> string list" where
  "descend c [] = (c, [])"
| "descend c (a # as) = (case find (\<lambda>s. cmd_name s = a) (cmd_Sub c) of
       None \<Rightarrow> (c, a # as)
     | Some s \<Rightarrow> descend s as)"

lemma tree_self: "c \<in> set (tree c)"
  by (cases c) simp

lemma tree_sub: "s \<in> set (cmd_Sub c) \<Longrightarrow> set (tree s) \<subseteq> set (tree c)"
  by (cases c) auto

lemma descend_in_tree: "fst (descend c as) \<in> set (tree c)"
proof (induction c as rule: descend.induct)
  case (2 c a as)
  show ?case
  proof (cases "find (\<lambda>s. cmd_name s = a) (cmd_Sub c)")
    case None
    then show ?thesis by (simp add: tree_self)
  next
    case (Some s)
    then show ?thesis using 2 [OF Some] tree_sub [of s c] by (auto dest: find_SomeD)
  qed
qed (simp add: tree_self)

fun names_distinct :: "command \<Rightarrow> bool" where
  "names_distinct (Command u v a f r sub) \<longleftrightarrow> distinct (map cmd_name sub) \<and> list_all names_distinct sub"

text \<open>No command of the program hides another one.\<close>

lemma microovn_names: "names_distinct (microovn E C)"
  by (simp add: microovn_def command_defs cmd_name_def)

section \<open>Witnesses\<close>

definition no_flags :: flag_values where
  "no_flags = \<lparr>v_bool = (\<lambda>n. False), v_string = (\<lambda>n. []), v_strings = (\<lambda>n. []), v_int = (\<lambda>n. 0), v_duration = (\<lambda>n. 0)\<rparr>"

definition plain_cobra :: cobra where
  "plain_cobra = \<lparr>x_builtin = (\<lambda>argv. None),
     x_find = (\<lambda>root argv. let (c, args) = descend root argv in
       if accepts c args then Inr (c, no_flags, args) else Inl (ErrS ''invalid arguments'')),
     x_help = cmd_Use\<rparr>"

lemma plain_cobra_ok: "cobra_ok plain_cobra"
  unfolding cobra_ok_def
proof (intro allI impI)
  fix root argv c fl args assume "x_find plain_cobra root argv = Inr (c, fl, args)"
  then have "descend root argv = (c, args)" "accepts c args"
    by (simp_all add: plain_cobra_def split: prod.splits if_splits)
  then show "c \<in> set (tree root) \<and> accepts c args"
    using descend_in_tree [of root argv] by simp
qed

definition sample_cluster_cli :: cluster_cli where
  "sample_cluster_cli = cli.extend sample_cli (cluster_cli.fields (\<lambda>t n d. Inr ''token'') (\<lambda>t. Inr []) (\<lambda>t n f. None)
     (\<lambda>t q. Inr ([], Some [])) (\<lambda>t d. None) (\<lambda>c. Inr []) id (\<lambda>f h d. Inr []) (\<lambda>h d. []) (\<lambda>j. []) (Inr []))"

text \<open>\<open>microovn config list\<close> prints the options and ends with status 0.\<close>

theorem command_line_never_panics_witness:
  "\<exists>status w'. main_program plain_cobra sample_env sample_cluster_cli [''config'', ''list''] sample_world = Some (status, w')
    \<and> (status = Exit 0 \<or> status = Exit 1)"
proof -
  have "x_find plain_cobra (microovn sample_env sample_cluster_cli) [''config'', ''list''] =
      Inr (cmdConfigList_Command, no_flags, [])"
    by (simp add: plain_cobra_def microovn_def command_defs cmd_name_def accepts_def)
  moreover have "x_builtin plain_cobra argv = None" for argv
    by (simp add: plain_cobra_def)
  moreover obtain r w' where "config_list_Run sample_world = (r, w')"
    by fastforce
  ultimately have m: "main_program plain_cobra sample_env sample_cluster_cli [''config'', ''list''] sample_world =
      Some (exit_status r, w')"
    by (simp add: main_program_def execute_def cmdConfigList_Command_def running_def)
  have "dump_or_batch sample_cluster_cli"
    by (simp add: dump_or_batch_def sample_cluster_cli_def cli.defs cluster_cli.defs)
  from command_line_never_panics [OF plain_cobra_ok this m] m show ?thesis by blast
qed

end
