(* ===== verification/DaemonProgram.thy ===== *)
theory DaemonProgram
  imports Daemon Schema Commands
begin

text \<open>
  The program microovnd: what the security log records, the declarations of the endpoints with their paths,
  methods and permissions (package api and its parts), and the main function (cmd/microovnd/main.go), which hands
  the hooks, the migrations and the endpoints to the cluster library.
\<close>

section \<open>What the security log records\<close>

text \<open>The log as a view: the operations between two entries keep it, and with the log off everything does.\<close>

interpretation noted: table_writes "\<lambda>w. audits w = A" E for A E
  by unfold_locales simp_all


lemma audits_rest: "keeps (\<lambda>v. audits v = audits w) m \<Longrightarrow> audits (snd (m w)) = audits w"
  by (simp add: keeps_def)

lemma audits_services:
  "audits (snd (EnableService E srv c w)) = enable_entry E srv @ audits w"
  "audits (snd (DisableService E srv allow w)) = disable_entry E srv @ audits w"
  using audits_rest [OF noted.keeps_service_bodies(1)] audits_rest [OF noted.keeps_service_bodies(2)]
  by (simp_all add: EnableService_logged DisableService_logged enable_entry_def disable_entry_def)

lemma stored_CA_audits:
  assumes "db_ok (w_db w)" and "bind (storeCA E c k b) (log_stored E b msg) w = (r, w')"
  shows "audits w' = (if abs_config (w_db w') \<noteq> abs_config (w_db w) then stored_entry E b msg True else []) @ audits w"
proof (cases "storeCA E c k b" w rule: io_cases)
  case (Ok u w1)
  have "audits w1 = audits w" by (rule keepsD [OF noted.keeps_storeCA refl Ok])
  with storeCA_Ok [OF assms(1) Ok] assms(2) Ok show ?thesis
    by (auto simp: bind_def stored_entry_def)
next
  case (Er e w1)
  have "audits w1 = audits w" by (rule keepsD [OF noted.keeps_storeCA refl Er])
  with storeCA_fails(1) [OF Er] assms(2) Er show ?thesis by (simp add: bind_def)
next
  case (Panic s w1)
  have "audits w1 = audits w" by (rule keepsD [OF noted.keeps_storeCA refl Panic])
  with storeCA_fails(2) [OF Panic] assms(2) Panic show ?thesis by (simp add: bind_def)
qed

lemma CA_audits:
  assumes "db_ok (w_db w)"
  shows "GenerateNewCACertificate E w = (r, w') \<Longrightarrow> audits w' =
      (if abs_config (w_db w') \<noteq> abs_config (w_db w)
       then stored_entry E True ''CA certificate generated and stored'' True else []) @ audits w"
    and "SetNewCACertificate E c k w = (r, w') \<Longrightarrow> audits w' =
      (if abs_config (w_db w') \<noteq> abs_config (w_db w)
       then stored_entry E False ''User-provided CA certificate stored'' True else []) @ audits w"
proof -
  let ?i = "issueCertificate E ''MicroOVN CA'' ''MicroOVN CA'' CertificateTypeCA None"
  assume call: "GenerateNewCACertificate E w = (r, w')"
  show "audits w' = (if abs_config (w_db w') \<noteq> abs_config (w_db w)
       then stored_entry E True ''CA certificate generated and stored'' True else []) @ audits w"
  proof (cases ?i w rule: io_cases)
    case (Ok x w1)
    have "w1 = w" by (rule keepsD [OF keeps_issueCertificate refl Ok])
    with call Ok stored_CA_audits [OF assms] show ?thesis
      by (cases x) (simp add: GenerateNewCACertificate_def bind_def [where m = ?i])
  next
    case (Er e w1)
    have "w1 = w" by (rule keepsD [OF keeps_issueCertificate refl Er])
    with call Er show ?thesis by (simp add: GenerateNewCACertificate_def bind_def)
  next
    case (Panic m w1)
    have "w1 = w" by (rule keepsD [OF keeps_issueCertificate refl Panic])
    with call Panic show ?thesis by (simp add: GenerateNewCACertificate_def bind_def)
  qed
next
  let ?i = "\<lambda>chain. for_each (check_ca_cert E) chain"
  assume call: "SetNewCACertificate E c k w = (r, w')"
  show "audits w' = (if abs_config (w_db w') \<noteq> abs_config (w_db w)
       then stored_entry E False ''User-provided CA certificate stored'' True else []) @ audits w"
  proof (cases "e_key_pair E c k")
    case (Inl e)
    with call show ?thesis by (simp add: SetNewCACertificate_def)
  next
    case (Inr chain)
    have c: "SetNewCACertificate E c k w = andthen (?i chain)
        (bind (storeCA E c k False) (log_stored E False ''User-provided CA certificate stored'')) w"
      by (simp add: SetNewCACertificate_def Inr)
    show ?thesis
    proof (cases "?i chain" w rule: io_cases)
      case (Ok x w1)
      have "w1 = w" by (rule keepsD [OF keeps_for_each [OF keeps_check_ca_cert] refl Ok])
      with call c Ok stored_CA_audits [OF assms] show ?thesis
        by (simp add: andthen_def bind_def [where m = "?i chain"])
    next
      case (Er e w1)
      have "w1 = w" by (rule keepsD [OF keeps_for_each [OF keeps_check_ca_cert] refl Er])
      with call c Er show ?thesis by (simp add: andthen_def bind_def)
    next
      case (Panic m w1)
      have "w1 = w" by (rule keepsD [OF keeps_for_each [OF keeps_check_ca_cert] refl Panic])
      with call c Panic show ?thesis by (simp add: andthen_def bind_def)
    qed
  qed
qed

text \<open>C22: With the security log on, every call that enables or disables a service adds exactly one entry,
  whatever becomes of the call, and every call that replaces the CA adds exactly one entry if the stored
  configuration of the CA changed, and none otherwise.\<close>

theorem security_log_exact:
  assumes "db_ok (w_db w)" and "e_security_log E"
  shows "length (audits (snd (EnableService E srv x w))) = length (audits w) + 1 \<and>
    length (audits (snd (DisableService E srv allow w))) = length (audits w) + 1 \<and>
    (\<forall>r w'. GenerateNewCACertificate E w = (r, w') \<or> SetNewCACertificate E c k w = (r, w') \<longrightarrow>
       length (audits w') = length (audits w) + (if abs_config (w_db w') \<noteq> abs_config (w_db w) then 1 else 0))"
  using CA_audits [OF assms(1)] assms(2)
  by (auto simp: audits_services enable_entry_def disable_entry_def log_entry_def stored_entry_def)

section \<open>The endpoints as they are declared\<close>

text \<open>A request: whether it comes from a member, its query, its body, and the variable of its path.\<close>

record request =
  rq_notification :: bool
  rq_query :: string
  rq_body :: "goerr + json"
  rq_var :: string

record endpoint_action =
  Handler :: "env \<Rightarrow> request \<Rightarrow> json response io"
  AllowUntrusted :: bool
  ProxyTarget :: bool

record rest_endpoint =
  Path :: string
  Get :: "endpoint_action option"
  Post :: "endpoint_action option"
  Put :: "endpoint_action option"
  Delete :: "endpoint_action option"

definition declared :: "bool \<Rightarrow> (env \<Rightarrow> request \<Rightarrow> json response io) \<Rightarrow> endpoint_action option" where
  "declared proxy h = Some \<lparr>Handler = h, AllowUntrusted = False, ProxyTarget = proxy\<rparr>"

definition ListCmd_decl :: rest_endpoint where
  "ListCmd_decl = \<lparr>Path = ''services'',
     Get = declared True (\<lambda>E r. served (enc_list enc_Service) (cmdServicesGet E)),
     Post = None, Put = None, Delete = None\<rparr>"

definition ServiceControlCmd_decl :: rest_endpoint where
  "ServiceControlCmd_decl = \<lparr>Path = ''service/{service}'', Get = None, Post = None,
     Put = declared True (\<lambda>E r. served enc_ServiceControlResponse (enableService E (rq_var r) (rq_body r))),
     Delete = declared True (\<lambda>E r. served enc_ServiceControlResponse (disableService E (rq_var r) (rq_body r)))\<rparr>"

definition RegenerateEnvEndpoint_decl :: rest_endpoint where
  "RegenerateEnvEndpoint_decl = \<lparr>Path = ''env'', Get = None,
     Post = declared True (\<lambda>E r. served enc_RegenerateEnvResponse (regenerateEnvPost E (rq_notification r))),
     Put = None, Delete = None\<rparr>"

definition IssueCertificatesEndpoint_decl :: rest_endpoint where
  "IssueCertificatesEndpoint_decl = \<lparr>Path = ''certificates/{service}'', Get = None, Post = None,
     Put = declared True (\<lambda>E r. served enc_IssueCertificateResponse (issueCertificatesPut E (rq_var r))), Delete = None\<rparr>"

definition IssueCertificatesAllEndpoint_decl :: rest_endpoint where
  "IssueCertificatesAllEndpoint_decl = \<lparr>Path = ''certificates'', Get = None, Post = None,
     Put = declared True (\<lambda>E r. served enc_IssueCertificateResponse (issueCertificatesAllPut E)), Delete = None\<rparr>"

definition RegenerateCaEndpoint_decl :: rest_endpoint where
  "RegenerateCaEndpoint_decl = \<lparr>Path = ''ca'',
     Get = declared True (\<lambda>E r. served enc_CaInfo (infoCaGet E)),
     Post = declared True (\<lambda>E r. served enc_RegenerateCaResponse (setCaPost E (rq_notification r) (rq_body r))),
     Put = declared True (\<lambda>E r. served enc_RegenerateCaResponse (regenerateCaPut E (rq_notification r))), Delete = None\<rparr>"

definition ActiveSchemaVersion_decl :: rest_endpoint where
  "ActiveSchemaVersion_decl = \<lparr>Path = ''ovsdb/schema/{db}/active'',
     Get = declared False (\<lambda>E r. served JStr (getActiveSchemaVersion E (rq_var r))),
     Post = None, Put = None, Delete = None\<rparr>"

definition AllExpectedSchemaVersions_decl :: rest_endpoint where
  "AllExpectedSchemaVersions_decl = \<lparr>Path = ''ovsdb/schema/{db}/expected/all'',
     Get = declared False (\<lambda>E r. served (enc_list enc_SchemaVersionResult) (getAllExpectedSchemaVersions E (rq_var r))),
     Post = None, Put = None, Delete = None\<rparr>"

definition ExpectedSchemaVersion_decl :: rest_endpoint where
  "ExpectedSchemaVersion_decl = \<lparr>Path = ''ovsdb/schema/{db}/expected'',
     Get = declared False (\<lambda>E r. served JStr (getExpectedSchemaVersion E (rq_var r))),
     Post = None, Put = None, Delete = None\<rparr>"

definition ConfigEndpoint_decl :: rest_endpoint where
  "ConfigEndpoint_decl = \<lparr>Path = ''config'',
     Get = declared True (\<lambda>E r. served enc_GetConfigResponse (getConfig E (rq_body r))),
     Post = declared True (\<lambda>E r. served enc_SetConfigResponse (setConfig E (rq_body r))), Put = None,
     Delete = declared True (\<lambda>E r. served enc_SetConfigResponse (deleteConfig E (rq_body r)))\<rparr>"

definition BgpSetupEndpoint_decl :: rest_endpoint where
  "BgpSetupEndpoint_decl = \<lparr>Path = ''bgp/setup'', Get = None,
     Post = declared True (\<lambda>E r. served enc_SetupBgpResponse (setupBgpHandler E (rq_notification r) (rq_body r))),
     Put = None, Delete = None\<rparr>"

definition BgpCheckInterfaceEndpoint_decl :: rest_endpoint where
  "BgpCheckInterfaceEndpoint_decl = \<lparr>Path = ''bgp/check-interface'',
     Get = declared True (\<lambda>E r. served (\<lambda>m. JObj (map (\<lambda>(k, b). (k, JBool b)) m)) (checkInterfaceHandler E (query_name (rq_query r)))),
     Post = None, Put = None, Delete = None\<rparr>"

record rest_server =
  CoreAPI :: bool
  ServeUnix :: bool
  PathPrefix :: string
  Endpoints :: "rest_endpoint list"

definition APIVersion :: string where "APIVersion = ''1.0''"

definition Server :: "(string \<times> rest_server) list" where
  "Server = [(''microovn'', \<lparr>CoreAPI = True, ServeUnix = True, PathPrefix = APIVersion,
     Endpoints = [ListCmd_decl, ServiceControlCmd_decl, RegenerateEnvEndpoint_decl, IssueCertificatesEndpoint_decl,
       IssueCertificatesAllEndpoint_decl, RegenerateCaEndpoint_decl, ActiveSchemaVersion_decl,
       AllExpectedSchemaVersions_decl, ExpectedSchemaVersion_decl, ConfigEndpoint_decl, BgpSetupEndpoint_decl,
       BgpCheckInterfaceEndpoint_decl]\<rparr>)]"





section \<open>The program\<close>

text \<open>The hooks of the cluster library, with the options of \<open>init\<close> or \<open>join\<close> for the first two.\<close>

record hooks =
  h_PostBootstrap :: "(string \<times> string) list \<Rightarrow> unit io"
  h_PreJoin :: "(string \<times> string) list \<Rightarrow> unit io"
  h_OnNewMember :: "unit io"
  h_PreRemove :: "unit io"
  h_PostRemove :: "unit io"
  h_OnStart :: "unit io"

record 'm daemon_args =
  da_Version :: string
  da_ExtensionsSchema :: "'m list"
  da_APIExtensions :: "string list"
  da_Hooks :: hooks
  da_ExtensionServers :: "(string \<times> rest_server) list"

datatype log_level = LevelInfo | LevelDebug

type_synonym migration = "faults \<Rightarrow> bool \<Rightarrow> catalog \<Rightarrow> goerr + catalog"

text \<open>What the cluster library and LXD do: \<open>mc_logger\<close> is \<open>logger.InitLogger\<close>, \<open>mc_app\<close> an error of
  \<open>microcluster.App\<close>, \<open>mc_start\<close> the daemon they run in the environment of the process until it is shut down.\<close>

record microcluster =
  mc_logger :: "bool \<Rightarrow> bool \<Rightarrow> goerr option"
  mc_app :: "string \<Rightarrow> log_level \<Rightarrow> goerr option"
  mc_start :: "env \<Rightarrow> string \<Rightarrow> migration daemon_args \<Rightarrow> unit io"

definition daemon_hooks :: "env \<Rightarrow> ((string \<times> DevlinkPort) list \<Rightarrow> (string \<times> DevlinkPort) list) \<Rightarrow> hooks" where
  "daemon_hooks E order = \<lparr>h_PostBootstrap = Bootstrap E order, h_PreJoin = Join E order, h_OnNewMember = Refresh E,
     h_PreRemove = Leave E, h_PostRemove = Refresh E, h_OnStart = bind (StartDaemon E) (\<lambda>_. ret ())\<rparr>"

definition daemonArgs :: "env \<Rightarrow> ((string \<times> DevlinkPort) list \<Rightarrow> (string \<times> DevlinkPort) list) \<Rightarrow> string \<Rightarrow>
    migration daemon_args" where
  "daemonArgs E order ovnVersion = \<lparr>da_Version = MajorVersion ovnVersion, da_ExtensionsSchema = SchemaExtensions,
     da_APIExtensions = Extensions, da_Hooks = daemon_hooks E order, da_ExtensionServers = Server\<rparr>"

definition cmdDaemon_Run :: "microcluster \<Rightarrow> env \<Rightarrow> ((string \<times> DevlinkPort) list \<Rightarrow> (string \<times> DevlinkPort) list) \<Rightarrow>
    string \<Rightarrow> flag_values \<Rightarrow> unit io" where
  "cmdDaemon_Run M E order ovnVersion fl =
     (let E = (if v_bool fl ''disable-security-logging'' then SetEnabled False E else E);
          logLevel = (if v_bool fl ''debug'' then LevelDebug else LevelInfo) in
      andthen (ret_err (mc_logger M (v_bool fl ''verbose'') (v_bool fl ''debug'')))
      (andthen (ret_err (mc_app M (v_string fl ''state-dir'') logLevel))
      (mc_start M E (v_string fl ''state-dir'') (daemonArgs E order ovnVersion))))"

definition daemon_flags :: "flag list" where
  "daemon_flags = [BoolFlag ''help'' ''h'' False, BoolFlag ''version'' [] False, BoolFlag ''debug'' ''d'' False,
     BoolFlag ''verbose'' ''v'' False, BoolFlag ''disable-security-logging'' [] False, StringFlag ''state-dir'' [] []]"

definition cmdDaemon_Command :: "microcluster \<Rightarrow> env \<Rightarrow> ((string \<times> DevlinkPort) list \<Rightarrow> (string \<times> DevlinkPort) list) \<Rightarrow>
    string \<Rightarrow> command" where
  "cmdDaemon_Command M E order ovnVersion = Command ''microd'' [] ArbitraryArgs daemon_flags
     (running (\<lambda>fl args. cmdDaemon_Run M E order ovnVersion fl)) []"

definition microovnd :: "cobra \<Rightarrow> microcluster \<Rightarrow> env \<Rightarrow> ((string \<times> DevlinkPort) list \<Rightarrow> (string \<times> DevlinkPort) list) \<Rightarrow>
    string \<Rightarrow> string list \<Rightarrow> world \<Rightarrow> (exit \<times> world) option" where
  "microovnd X M E order ovnVersion = execute X (cmdDaemon_Command M E order ovnVersion)"

section \<open>What a run of the daemon can do\<close>








section \<open>Witnesses\<close>

theorem security_log_exact_witness:
  "length (audits (snd (EnableService sample_env SrvSwitch None sample_world))) = 1"
  using security_log_exact [OF db_ok_sample(1), of sample_env]
  by (simp add: sample_env_def sample_world_def audits_def)




end
