(* ===== verification/EndToEnd.thy ===== *)
theory EndToEnd
  imports Daemon Commands
begin

text \<open>
  Commands of the client program run against the endpoints of the daemon. The cluster library carries the
  requests: what it is relied on for is \<open>delivers\<close> and \<open>relays\<close> of theory \<open>Daemon\<close>. The theorems compose the
  Run method of a command, the function of the client, the table of the endpoints, the handler and the tables it
  writes: a command reports a success exactly when the daemon did what was asked.
\<close>

section \<open>The local client\<close>

text \<open>The local client of the command line is \<open>c\<close>.\<close>

definition connected :: "cli \<Rightarrow> string \<Rightarrow> bool" where
  "connected C c \<longleftrightarrow> (\<forall>t. c_app C t = None) \<and> (\<forall>t. c_local C t = Inr c)"

lemma connected_client: "connected C c \<Longrightarrow> bind (local_client C) k w = k c w"
  by (simp add: connected_def local_client_def bind_def run_outside run_outside_err andthen_def)

lemma connected_sample: "connected sample_cli ''local''"
  by (simp add: connected_def sample_cli_def)

section \<open>Setting and getting an option\<close>

definition set_request :: "string \<Rightarrow> string \<Rightarrow> json" where
  "set_request k val = enc_SetConfigRequest \<lparr>Set_Key = k, Set_Value = val\<rparr>"

definition get_request :: "string \<Rightarrow> json" where
  "get_request k = enc_GetConfigRequest \<lparr>Get_Key = k\<rparr>"

lemma decoded_requests:
  "decode_request dec_SetConfigRequest (Inr (set_request k val)) = Inr \<lparr>Set_Key = k, Set_Value = val\<rparr>"
  "decode_request dec_GetConfigRequest (Inr (get_request k)) = Inr \<lparr>Get_Key = k\<rparr>"
  using set_wire.roundtrip [of "\<lparr>Set_Key = k, Set_Value = val\<rparr>"] get_wire.roundtrip [of "\<lparr>Get_Key = k\<rparr>"]
  by (simp_all add: decode_request_def set_request_def get_request_def enc_SetConfigRequest_def enc_GetConfigRequest_def)

lemma accepted_request:
  "accepted (Inr (set_request k val)) = (if k = ''ovn.central-ips'' \<and> central_ips_ok val then Some val else None)"
  by (simp add: accepted_def decoded_requests)

text \<open>Whatever goes wrong in the daemon, its answer carries a text.\<close>

lemma parse_errors_have_text:
  "parse_set (Inr (set_request k val)) = Inl e \<Longrightarrow> err_text e \<noteq> []"
  "parse_get (Inr (get_request k)) = Inl e \<Longrightarrow> err_text e \<noteq> []"
  by (auto simp: parse_set_def parse_get_def decoded_requests AllowedConfigKeys_def split: if_splits option.splits)

lemma setConfig_answers:
  assumes "setConfig E (Inr (set_request k val)) v = (r, v')"
  obtains resp where "r = Ok (SyncResponse (Set_Error resp = []) resp)"
  using assms
proof (cases rule: setConfig_cases)
  case (refused e)
  then obtain e' where p: "parse_set (Inr (set_request k val)) = Inl e'"
    by (auto simp: parse_set_None)
  then have "r = Ok (SyncResponse False (set_error [] e'))"
    using assms by (simp add: setConfig_def ret_def)
  then show ?thesis
    using that [of "set_error [] e'"] parse_errors_have_text(1) [OF p] by (simp add: set_error_def)
next
  case (unsaved val' e)
  then show ?thesis
    using that [of "set_error ''Error occurred while setting config: '' e"] by (simp add: set_error_def)
next
  case (unapplied val' w1 e)
  then show ?thesis
    using that [of "set_error ''Error occurred while handling config change: '' e"] by (simp add: set_error_def)
next
  case (applied val' w1)
  then show ?thesis
    using that [of "\<lparr>Set_Error = []\<rparr>"] by simp
qed

lemma getConfig_answers:
  obtains ok resp where "fst (getConfig E (Inr (get_request k)) v) = Ok (SyncResponse ok resp)"
    and "Get_Error resp = [] \<longleftrightarrow> ok"
proof (cases "parse_get (Inr (get_request k))")
  case (Inl e)
  then show ?thesis
    using that parse_errors_have_text(2) [OF Inl] by (simp add: getConfig_def ret_def)
next
  case (Inr p)
  obtain req h where p: "p = (req, h)" by fastforce
  show ?thesis
  proof (cases "GetConfig E (Get_Key req)" v rule: io_cases)
    case (Ok item w1)
    then show ?thesis
      using that Inr p by (cases item) (simp_all add: getConfig_def seq_or_resp ret_def)
  next
    case (Er e w1)
    then show ?thesis
      using that [of False "\<lparr>Get_Value = [], Get_IsSet = False, Get_Error = ''Error occurred while getting config: '' @ err_text e\<rparr>"]
        Inr p by (simp add: getConfig_def seq_or_resp ret_def)
  next
    case (Panic s w1)
    moreover have "no_panic (GetConfig E (Get_Key req))" by (intro np_rules)
    ultimately show ?thesis by (simp add: no_panic_def)
  qed
qed


lemma c_SetConfig_delivered:
  assumes "delivers E c E' v" and "setConfig E' (Inr (set_request k val)) v = (Ok (SyncResponse ok resp), v')"
  shows "fst (c_SetConfig E c k val w) = Ok resp"
proof -
  have "answered_by (c_SetConfig E c k val) w (setConfig E' (Inr (set_request k val))) v id"
    unfolding c_SetConfig_def set_request_def
    by (rule query_answered [OF assms(1) fixed_routes(8)], rule set_response_wire.roundtrip)
  then show ?thesis using assms(2) by (simp add: answered_by_def)
qed

lemma c_GetConfig_delivered:
  assumes "delivers E c E' v" and "fst (getConfig E' (Inr (get_request k)) v) = Ok (SyncResponse ok resp)"
  shows "fst (c_GetConfig E c k w) = Ok resp"
proof -
  have "answered_by (c_GetConfig E c k) w (getConfig E' (Inr (get_request k))) v id"
    unfolding c_GetConfig_def get_request_def
    by (rule query_answered [OF assms(1) fixed_routes(7)], rule get_response_wire.roundtrip)
  then show ?thesis using assms(2) by (simp add: answered_by_def)
qed

lemma config_set_answer:
  assumes "delivers E c E' v" and "connected C c" and "setConfig E' (Inr (set_request k val)) v = (r, v')"
  obtains resp where "r = Ok (SyncResponse (Set_Error resp = []) resp)"
    and "fst (config_set_Run E C k val w) =
      (if Set_Error resp = [] then Ok () else Er (config_failed ''set'' k (ErrS (Set_Error resp))))"
proof -
  obtain resp where r: "r = Ok (SyncResponse (Set_Error resp = []) resp)"
    using assms(3) by (rule setConfig_answers)
  obtain w1 where "c_SetConfig E c k val w = (Ok resp, w1)"
    using c_SetConfig_delivered [OF assms(1), of k val _ resp v' w] assms(3) r by (metis prod.collapse)
  then show ?thesis
    using r by (intro that [OF r]) (simp add: config_set_Run_def connected_client [OF assms(2)] seq run println_def)
qed

lemma config_set_result:
  assumes "delivers E c E' v" and "connected C c" and "setConfig E' (Inr (set_request k val)) v = (r, v')"
  shows "fst (config_set_Run E C k val w) = Ok () \<longleftrightarrow> (\<exists>resp. r = Ok (SyncResponse True resp))"
proof -
  obtain resp where "r = Ok (SyncResponse (Set_Error resp = []) resp)" and "fst (config_set_Run E C k val w) =
      (if Set_Error resp = [] then Ok () else Er (config_failed ''set'' k (ErrS (Set_Error resp))))"
    by (rule config_set_answer [OF assms])
  then show ?thesis by simp
qed

text \<open>C8: \<open>microovn config set\<close> succeeds exactly when the daemon answers that it has set the option, and otherwise fails
  with the text of the answer. A key that is not an option, or a value that is not a list of addresses, is
  refused and leaves the daemon as it was. For a valid request a success means that the value is stored; a
  failure says whether it is: it is not when setting it failed, and it is when only the handling of the change
  failed afterwards.\<close>

theorem config_set_reports_truth:
  assumes "delivers E c E' v" and "connected C c" and "db_ok (w_db v)"
    and "setConfig E' (Inr (set_request k val)) v = (r, v')"
  shows "\<exists>resp. r = Ok (SyncResponse (Set_Error resp = []) resp) \<and>
    fst (config_set_Run E C k val w) =
      (if Set_Error resp = [] then Ok () else Er (config_failed ''set'' k (ErrS (Set_Error resp)))) \<and>
    (if \<not> (k = ''ovn.central-ips'' \<and> central_ips_ok val) then Set_Error resp \<noteq> [] \<and> v' = v
     else if Set_Error resp = [] then abs_config (w_db v') = (abs_config (w_db v))(k \<mapsto> val)
     else (\<exists>e. Set_Error resp = ''Error occurred while setting config: '' @ err_text e) \<and>
            abs_config (w_db v') = abs_config (w_db v) \<or>
          (\<exists>e. Set_Error resp = ''Error occurred while handling config change: '' @ err_text e) \<and>
            abs_config (w_db v') = (abs_config (w_db v))(k \<mapsto> val))"
proof -
  obtain resp where r: "r = Ok (SyncResponse (Set_Error resp = []) resp)"
    and c: "fst (config_set_Run E C k val w) =
      (if Set_Error resp = [] then Ok () else Er (config_failed ''set'' k (ErrS (Set_Error resp))))"
    by (rule config_set_answer [OF assms(1,2,4)])
  have ok: "db_ok (w_db (with_log (set_log E') v))" using assms(3) by simp
  from assms(4) show ?thesis
  proof (cases rule: setConfig_cases)
    case (refused e)
    with r c show ?thesis by (auto simp: accepted_request set_error_def)
  next
    case (unsaved x e)
    with r c config_fails_db(1) [OF unsaved(2)] show ?thesis
      by (auto simp: accepted_request set_error_def split: if_splits)
  next
    case (unapplied x w1 e)
    with r c SetConfig_Ok [OF ok unapplied(2)] show ?thesis
      by (auto simp: accepted_request set_error_def split: if_splits)
  next
    case (applied x w1)
    with r c SetConfig_Ok [OF ok applied(2)] show ?thesis by (auto simp: accepted_request split: if_splits)
  qed
qed

lemma getConfig_value:
  assumes "db_ok (w_db u)" and "abs_config (w_db u) k = Some val"
    and "fst (getConfig E (Inr (get_request k)) u) = Ok (SyncResponse True resp)"
  shows "Get_IsSet resp \<and> Get_Value resp = val"
proof -
  obtain u' where g: "getConfig E (Inr (get_request k)) u = (Ok (SyncResponse True resp), u')"
    using assms(3) by (metis prod.collapse)
  then obtain req h item where p: "parse_get (Inr (get_request k)) = Inr (req, h)"
    and c: "GetConfig E (Get_Key req) u = (Ok item, u')"
    and r: "resp = (case item of None \<Rightarrow> \<lparr>Get_Value = [], Get_IsSet = False, Get_Error = []\<rparr>
        | Some i \<Rightarrow> \<lparr>Get_Value = ci_value i, Get_IsSet = True, Get_Error = []\<rparr>)"
    unfolding getConfig_def by (auto split: sum.splits elim!: or_resp_OkE)
  have "Get_Key req = k"
    using p by (cases "find_handler k None AllowedConfigKeys") (auto simp: parse_get_def decoded_requests)
  with GetConfig_Ok [OF assms(1) c] assms(2) r show ?thesis by auto
qed

text \<open>C27: After a successful \<open>microovn config set\<close>, a successful \<open>microovn config get\<close> of the same option, on any
  member that sees the same tables, prints the value that was set.\<close>

theorem config_set_then_get:
  assumes "delivers E c E' v" and "connected C c" and "db_ok (w_db v)"
    and "setConfig E' (Inr (set_request k val)) v = (r, v')" and "fst (config_set_Run E C k val w) = Ok ()"
    and "delivers F c' F' u" and "connected D c'" and "w_db u = w_db v'"
    and "config_get_Run F D k w2 = (Ok (), w3)"
  shows "\<exists>t. w_trace w3 = Print (val @ [CHR 0x0A]) # t"
proof -
  have stored: "db_ok (w_db v')" "abs_config (w_db v') k = Some val"
    using assms(4)
  proof (atomize (full), cases rule: setConfig_cases)
    case (applied x w1)
    then show "db_ok (w_db v') \<and> abs_config (w_db v') k = Some val"
      using SetConfig_Ok [OF _ applied(2)] assms(3) keepsD [OF keeps_config_ok(1) _ applied(2)]
      by (auto simp: accepted_request split: if_splits)
  qed (use config_set_result [OF assms(1,2,4)] assms(5) in simp_all)
  obtain ok resp where g: "fst (getConfig F' (Inr (get_request k)) u) = Ok (SyncResponse ok resp)" "Get_Error resp = [] \<longleftrightarrow> ok"
    by (rule getConfig_answers)
  obtain w4 where c: "c_GetConfig F c' k w2 = (Ok resp, w4)"
    using c_GetConfig_delivered [OF assms(6) g(1)] by (metis prod.collapse)
  have "ok"
    using assms(9) c g(2) by (auto simp: config_get_Run_def connected_client [OF assms(7)] seq run split: if_splits)
  then have "Get_IsSet resp \<and> Get_Value resp = val" "Get_Error resp = []"
    using getConfig_value [of u k val F' resp] g assms(8) stored by simp_all
  then show ?thesis
    using assms(9) c by (auto simp: config_get_Run_def connected_client [OF assms(7)] seq run println_def)
qed


section \<open>Enabling and disabling a service\<close>

lemma service_segment:
  assumes "srv \<in> set ServiceNames"
  shows "plain_segment srv" and "path_unescape srv = Some srv" and "CheckValidService srv"
proof -
  show "plain_segment srv" using assms by (auto simp: ServiceNames_def srv_defs plain_segment_def)
  show "path_unescape srv = Some srv"
    using assms by (intro path_unescape_plain) (auto simp: ServiceNames_def srv_defs)
  show "CheckValidService srv" using assms by (simp add: CheckValidService_names)
qed

lemma enableService_SyncResponse:
  assumes "path_unescape raw = Some srv" and "fst (enableService E raw body v) = Ok (SyncResponse ok resp)"
  obtains x v1 ws where "EnableService E srv (Some x) v = (Ok (), v1)"
    and "ServiceWarnings E v1 = (Ok ws, snd (enableService E raw body v))"
proof -
  obtain v' where "enableService E raw body v = (Ok (SyncResponse ok resp), v')"
    using assms(2) by (metis prod.collapse)
  then show ?thesis
    using that assms(1) unfolding enableService_def path_var_def control_answer_def
    by (auto split: if_splits sum.splits elim!: or_resp_OkE)
qed

lemma ServiceWarnings_db: "ServiceWarnings E w = (r, w') \<Longrightarrow> w_db w' = w_db w"
proof -
  have "keeps (\<lambda>v. w_db v = w_db w) (ServiceWarnings E)"
    unfolding ServiceWarnings_def by (intro keeps_rules dbv.keeps_node_reads)
  then show "ServiceWarnings E w = (r, w') \<Longrightarrow> w_db w' = w_db w"
    by (rule keepsD [OF _ refl])
qed

text \<open>C6: When \<open>microovn enable\<close> reports that a service was enabled, the daemon it
  reached has registered the service, which it did not run before, with the extra configuration of the command
  line.\<close>

theorem enable_reports_truth:
  assumes "relays E c E' v" and "connected C c" and "db_ok (w_db v)" and "srv \<in> set ServiceNames"
    and "enable_Run E C verbose args manual node srv w = (Ok (), w')"
  shows "\<exists>cfg. parseExtraConfig args manual srv = Inr cfg \<and> (e_name E', srv) \<notin> abs_services (w_db v) \<and>
    abs_services (w_db (snd (enableService E' srv (Inr (enc_ExtraServiceConfig (Some cfg))) v))) =
      insert (e_name E', srv) (abs_services (w_db v))"
proof -
  obtain cfg w1 x w2 where cfg: "parseExtraConfig args manual srv = Inr cfg"
    and call: "c_EnableService E c srv (Some cfg) node w1 = (Ok x, w2)"
    using assms(5) unfolding enable_Run_def connected_client [OF assms(2)]
    by (auto simp: of_sum_def elim!: ok_elims split: sum.splits)
  let ?h = "enableService E' srv (Inr (enc_ExtraServiceConfig (Some cfg)))"
  obtain y w3 where q: "query E c ''PUT'' (service_path srv node) (enc_ExtraServiceConfig (Some cfg))
      dec_ServiceControlResponse w1 = (Ok y, w3)"
    using call unfolding c_EnableService_def by (auto elim!: ok_elims)
  have "fst (query E c ''PUT'' (service_path srv node) (enc_ExtraServiceConfig (Some cfg)) dec_ServiceControlResponse w1) = Ok y"
    by (simp add: q)
  from query_relayed [OF assms(1) routes_with_variable(2) [OF service_segment(1) [OF assms(4)]] this]
  obtain ok z where "fst (?h v) = Ok (SyncResponse ok z)" by (elim exE)
  then obtain u v1 ws where "EnableService E' srv (Some u) v = (Ok (), v1)" "ServiceWarnings E' v1 = (Ok ws, snd (?h v))"
    by (rule enableService_SyncResponse [OF service_segment(2) [OF assms(4)]])
  then show ?thesis
    using EnableService_Ok [OF assms(3)] ServiceWarnings_db cfg by metis
qed


lemma disableService_SyncResponse:
  assumes "path_unescape raw = Some srv" and "fst (disableService E raw (Inr body) v) = Ok (SyncResponse ok resp)"
  obtains req v1 ws where "dec_DisableServiceRequest body = Inr req"
    and "DisableService E srv (AllowDisableLastCentral req) v = (Ok (), v1)"
    and "ServiceWarnings E v1 = (Ok ws, snd (disableService E raw (Inr body) v))"
proof -
  obtain v' where "disableService E raw (Inr body) v = (Ok (SyncResponse ok resp), v')"
    using assms(2) by (metis prod.collapse)
  then show ?thesis
    using that assms(1) unfolding disableService_def path_var_def control_answer_def decode_def
    by (auto split: if_splits sum.splits elim!: or_resp_OkE)
qed

text \<open>C7: When \<open>microovn disable\<close> reports that a service was disabled, the daemon it reached has removed
  exactly its own registration of the service; and without \<open>--allow-disable-last-central\<close> some other member still
  runs the central service, if that is the service disabled.\<close>

theorem disable_reports_truth:
  assumes "relays E c E' v" and "connected C c" and "db_ok (w_db v)" and "srv \<in> set ServiceNames"
    and "disable_Run E C verbose allow node srv w = (Ok (), w')"
  shows "let v' = snd (disableService E' srv (Inr (enc_DisableServiceRequest \<lparr>AllowDisableLastCentral = allow\<rparr>)) v) in
    (e_name E', srv) \<in> abs_services (w_db v) \<and>
    abs_services (w_db v') = abs_services (w_db v) - {(e_name E', srv)} \<and>
    (srv = SrvCentral \<and> \<not> allow \<longrightarrow> (\<exists>m. (m, SrvCentral) \<in> abs_services (w_db v')))"
proof -
  let ?req = "\<lparr>AllowDisableLastCentral = allow\<rparr>"
  let ?h = "disableService E' srv (Inr (enc_DisableServiceRequest ?req))"
  obtain w1 x w2 where call: "c_DisableService E c srv allow node w1 = (Ok x, w2)"
    using assms(5) unfolding disable_Run_def connected_client [OF assms(2)] by (auto elim!: ok_elims)
  then obtain y where "fst (query E c ''DELETE'' (service_path srv node) (enc_DisableServiceRequest ?req)
      dec_ServiceControlResponse w1) = Ok y"
    unfolding c_DisableService_def by (fastforce elim!: ok_elims)
  from query_relayed [OF assms(1) routes_with_variable(3) [OF service_segment(1) [OF assms(4)]] this]
  obtain ok z where "fst (?h v) = Ok (SyncResponse ok z)" by (elim exE)
  then obtain req v1 ws where "dec_DisableServiceRequest (enc_DisableServiceRequest ?req) = Inr req"
    and d: "DisableService E' srv (AllowDisableLastCentral req) v = (Ok (), v1)" and s: "ServiceWarnings E' v1 = (Ok ws, snd (?h v))"
    by (rule disableService_SyncResponse [OF service_segment(2) [OF assms(4)]])
  then have d: "DisableService E' srv allow v = (Ok (), v1)"
    using disable_wire.roundtrip [of ?req] by auto
  note out = DisableService_Ok [OF assms(3) d]
  have "\<exists>m. (m, SrvCentral) \<in> abs_services (w_db v1)" if "srv = SrvCentral" "\<not> allow"
    using central_survives [OF assms(3), of E' srv "Ok ()" v1] d that out by auto
  then show ?thesis
    unfolding Let_def ServiceWarnings_db [OF s] using out by blast
qed

section \<open>Witnesses\<close>

text \<open>A library that carries the requests to a daemon in a given state.\<close>

definition wired :: "env \<Rightarrow> world \<Rightarrow> env" where
  "wired E v = sample_env\<lparr>e_http := (\<lambda>t c meth url body.
     case route E False meth url (Inr body) of
       None \<Rightarrow> Inl (StatusErr 404 ''Not Found'')
     | Some h \<Rightarrow> (case fst (h v) of
           Ok (SyncResponse ok j) \<Rightarrow> Inr j
         | _ \<Rightarrow> Inl (StatusErr 500 ''Internal Server Error'')))\<rparr>"

lemma wired_relays: "relays (wired E v) c E v"
  by (auto simp: relays_def delivers_def wired_def split: res.splits response.splits)

lemma wired_delivers: "delivers (wired E v) c E v"
  using wired_relays unfolding relays_def by blast

theorem config_set_reports_truth_witness:
  "fst (config_set_Run (wired sample_env sample_world) sample_cli ''ovn.other'' ''x'' sample_world) \<noteq> Ok ()"
  using config_set_reports_truth [OF wired_delivers connected_sample db_ok_sample(1) prod.collapse [symmetric],
      of sample_env "''ovn.other''" "''x''" sample_world] by auto

theorem config_set_then_get_witness:
  "\<exists>v t. w_trace (snd (config_get_Run (wired answering_env v) sample_cli ''ovn.central-ips'' sample_world)) =
    Print (''::1'' @ [CHR 0x0A]) # t"
proof -
  let ?k = "''ovn.central-ips''"
  have req: "address_request = Inr (set_request ?k ''::1'')"
    by (simp add: address_request_def set_request_def)
  obtain w1 where put: "setConfig answering_env (Inr (set_request ?k ''::1'')) sample_world =
      (Ok (SyncResponse True \<lparr>Set_Error = []\<rparr>), w1)"
    and g: "fst (GetConfig answering_env ?k w1) = Ok (Some \<lparr>ci_id = 1, ci_key = ?k, ci_value = ''::1''\<rparr>)"
    by (rule address_course [unfolded req])
  have set: "fst (config_set_Run (wired answering_env sample_world) sample_cli ?k ''::1'' sample_world) = Ok ()"
    using config_set_result [OF wired_delivers connected_sample put] by blast
  have "parse_get (Inr (get_request ?k)) = Inr (\<lparr>Get_Key = ?k\<rparr>, Some ovnCentralIpsUpdated)"
    by (simp add: parse_get_def decoded_requests AllowedConfigKeys_def)
  with g have "fst (getConfig answering_env (Inr (get_request ?k)) w1) =
      Ok (SyncResponse True \<lparr>Get_Value = ''::1'', Get_IsSet = True, Get_Error = []\<rparr>)"
    by (cases "GetConfig answering_env ?k" w1 rule: io_cases) (simp_all add: getConfig_def seq run)
  then obtain w4 where "c_GetConfig (wired answering_env w1) ''local'' ?k sample_world =
      (Ok \<lparr>Get_Value = ''::1'', Get_IsSet = True, Get_Error = []\<rparr>, w4)"
    using c_GetConfig_delivered [OF wired_delivers] by (metis prod.collapse)
  then obtain w3 where get: "config_get_Run (wired answering_env w1) sample_cli ?k sample_world = (Ok (), w3)"
    by (simp add: config_get_Run_def connected_client [OF connected_sample] seq run println_def)
  from config_set_then_get [OF wired_delivers connected_sample db_ok_sample(1) put set wired_delivers connected_sample refl get]
  show ?thesis using get by (metis snd_conv)
qed

lemma control_delivered:
  assumes "relays E c E' v" and "srv \<noteq> SrvCentral"
    and "route E' False meth url (Inr body) = Some (served enc_ServiceControlResponse h)"
    and "fst (h v) = Ok (SyncResponse ok resp)"
  shows "fst (bind (on_err g (query E c meth url body dec_ServiceControlResponse)) (regenerate_after E c srv) w) =
    Ok (Warnings resp, \<lparr>Env_Success = False, Env_Errors = []\<rparr>)"
proof -
  have "delivers E c E' v" using assms(1) by (simp add: relays_def)
  then have "answered_by (query E c meth url body dec_ServiceControlResponse) w h v id"
    by (rule query_answered [OF _ assms(3)]) (rule control_wire.roundtrip)
  then have "answered_by (bind (on_err g (query E c meth url body dec_ServiceControlResponse)) (regenerate_after E c srv)) w
      h v (\<lambda>r. (Warnings r, \<lparr>Env_Success = False, Env_Errors = []\<rparr>))"
    using assms(2) by (intro answered_then [where f = id] answered_on_err) (simp_all add: regenerate_after_def run_ret)
  then show ?thesis using assms(4) unfolding answered_by_def by blast
qed

lemma tot_shown [tot_rules]: "total_io (println s)" "total_io (WarningSet_PrettyPrint ws b)"
  by (rule tot_print)+

theorem enable_reports_truth_witness:
  "abs_services (w_db (snd (enableService sample_env SrvSwitch (Inr (enc_ExtraServiceConfig (Some None))) world_with_env))) =
    {(''n1'', SrvSwitch)}"
proof -
  let ?body = "enc_ExtraServiceConfig (Some None)" and ?E = "wired sample_env world_with_env"
  have "dec_ExtraServiceConfig ?body = Inr None"
    using extra_wire.roundtrip [of "Some None"] by simp
  then obtain resp where h: "fst (enableService sample_env SrvSwitch (Inr ?body) world_with_env) = Ok (SyncResponse True resp)"
    using service_segment [of SrvSwitch]
    by (simp add: ServiceNames_def enableService_def path_var_def decode_def control_answer_def evals world_with_env_def)
  have switch: "SrvSwitch \<in> set ServiceNames" "SrvSwitch \<noteq> SrvCentral" "SrvSwitch \<noteq> SrvBgp"
    by (simp_all add: ServiceNames_def srv_defs)
  have "fst (c_EnableService ?E ''local'' SrvSwitch (Some None) [] w) = Ok (Warnings resp, \<lparr>Env_Success = False, Env_Errors = []\<rparr>)" for w
    unfolding c_EnableService_def
    by (rule control_delivered [OF wired_relays switch(2) routes_with_variable(2) [OF service_segment(1) [OF switch(1)]] h])
  then obtain w1 where "c_EnableService ?E ''local'' SrvSwitch (Some None) [] sample_world =
      (Ok (Warnings resp, \<lparr>Env_Success = False, Env_Errors = []\<rparr>), w1)"
    by (metis prod.collapse)
  moreover obtain u w2 where "WarningSet_PrettyPrint (Warnings resp) False (snd (println (''Service '' @ SrvSwitch @ '' enabled'') w1)) = (Ok u, w2)"
    by (rule total_ioE [OF tot_print(4)])
  ultimately have "enable_Run ?E sample_cli False [] False [] SrvSwitch sample_world = (Ok (), w2)"
    using switch(3) by (simp add: enable_Run_def connected_client [OF connected_sample] parseExtraConfig_def of_sum_def seq run println_def)
  from enable_reports_truth [OF wired_relays connected_sample db_ok_sample(2) switch(1) this]
  show ?thesis
    by (simp add: parseExtraConfig_def world_with_env_def sample_world_def sample_db_def sample_env_def abs_services_def)
qed

theorem disable_reports_truth_witness:
  "abs_services (w_db (snd (disableService sample_env SrvSwitch
     (Inr (enc_DisableServiceRequest \<lparr>AllowDisableLastCentral = False\<rparr>)) world_with_switch))) = {}"
proof -
  let ?body = "enc_DisableServiceRequest \<lparr>AllowDisableLastCentral = False\<rparr>" and ?E = "wired sample_env world_with_switch"
  have ok: "db_ok (w_db world_with_switch)"
    by (simp add: world_with_switch_def sample_db_def db_ok_def members_keys_def services_schema_def config_schema_def)
  have "dec_DisableServiceRequest ?body = Inr \<lparr>AllowDisableLastCentral = False\<rparr>"
    using disable_wire.roundtrip by simp
  then obtain resp where h: "fst (disableService sample_env SrvSwitch (Inr ?body) world_with_switch) = Ok (SyncResponse True resp)"
    using service_segment [of SrvSwitch]
    by (simp add: ServiceNames_def disableService_def path_var_def decode_def control_answer_def evals world_with_switch_def
          stop_service_def find_members.simps deactivateService_def Stop_def)
  have switch: "SrvSwitch \<in> set ServiceNames" "SrvSwitch \<noteq> SrvCentral"
    by (simp_all add: ServiceNames_def srv_defs)
  have "fst (c_DisableService ?E ''local'' SrvSwitch False [] w) = Ok (Warnings resp, \<lparr>Env_Success = False, Env_Errors = []\<rparr>)" for w
    unfolding c_DisableService_def
    by (rule control_delivered [OF wired_relays switch(2) routes_with_variable(3) [OF service_segment(1) [OF switch(1)]] h])
  then obtain w1 where "c_DisableService ?E ''local'' SrvSwitch False [] sample_world =
      (Ok (Warnings resp, \<lparr>Env_Success = False, Env_Errors = []\<rparr>), w1)"
    by (metis prod.collapse)
  moreover obtain u w2 where "WarningSet_PrettyPrint (Warnings resp) False (snd (println (''Service '' @ SrvSwitch @ '' disabled'') w1)) = (Ok u, w2)"
    by (rule total_ioE [OF tot_print(4)])
  ultimately have "disable_Run ?E sample_cli False False [] SrvSwitch sample_world = (Ok (), w2)"
    by (simp add: disable_Run_def connected_client [OF connected_sample] seq run println_def)
  from disable_reports_truth [OF wired_relays connected_sample ok switch(1) this]
  show ?thesis
    by (simp add: Let_def world_with_switch_def sample_world_def sample_db_def sample_env_def abs_services_def)
qed

end
