(* ===== verification/Departure.thy ===== *)
theory Departure
  imports Lifecycle
begin

text \<open>
  What the hook of a leaving member does while the database works (ovn/leave.go with
  \<open>DisableAllServices\<close> of node/node.go): which rows it deletes and which commands it runs for them.
  The first part shows that the database operations of \<open>DisableService\<close> succeed when no statement
  fails, the second that the commands which stop a service are run whatever else fails.
\<close>

section \<open>A working database\<close>

definition sql_works :: "env \<Rightarrow> bool" where
  "sql_works E \<longleftrightarrow> (\<forall>t s. e_fault E t (Sql s) = None)"

lemma tot_on_err [tot_rules]: "total_io m \<Longrightarrow> total_io (on_err f m)"
  unfolding total_io_def by (metis run_on_err(1))

lemma tot_step_sql: "sql_works E \<Longrightarrow> total_io (step E (Sql s))"
  by (simp add: sql_works_def total_io_def step_def)

lemma tot_stmts:
  assumes "sql_works E"
  shows "total_io (prepare E n)" "total_io (query_stmt E n q)" "total_io (rows_affected E k)"
    "total_io (query_members E)" "total_io (rows_err E)"
  unfolding prepare_def query_stmt_def rows_affected_def query_members_def rows_err_def
  by (intro tot_rules tot_step_sql assms)+

lemma transaction_runs:
  assumes db: "sql_works E" and body: "\<And>v. w_db v = w_db w \<Longrightarrow> \<exists>x v'. m v = (Ok x, v')"
  obtains x w' where "transaction E m w = (Ok x, w')"
proof -
  let ?v = "w\<lparr>w_trace := Sql ''BEGIN'' # w_trace w\<rparr>"
  obtain x v' where "m ?v = (Ok x, v')" using body [of ?v] by auto
  with db have "\<exists>w'. transaction E m w = (Ok x, w')"
    by (simp add: transaction_def bind_def andthen_def step_def sql_works_def run)
  with that show ?thesis by blast
qed

lemma tot_transaction: "sql_works E \<Longrightarrow> total_io m \<Longrightarrow> total_io (transaction E m)"
  unfolding total_io_def by (metis transaction_runs)

lemma tot_GetServices:
  assumes "sql_works E"
  shows "total_io (GetServices E [\<lparr>sf_member = Some m, sf_service = s\<rparr>])"
  unfolding GetServices_def getServices_def
  by (cases s) (auto simp: pick_stmt_def filter_stmt_def intro!: tot_rules tot_stmts assms)

lemma tot_HasServiceActive: "sql_works E \<Longrightarrow> total_io (HasServiceActive E srv)"
  unfolding HasServiceActive_def by (intro tot_transaction tot_rules tot_GetServices)

lemma tot_ServiceExists:
  assumes "sql_works E"
  shows "total_io (ServiceExists E m s)"
proof -
  have "\<exists>b w'. ServiceExists E m s w = (Ok b, w')" for w
  proof -
    obtain u w1 where p: "prepare E ''serviceID'' w = (Ok u, w1)" by (rule total_ioE [OF tot_stmts(1) [OF assms]])
    obtain ids w2 where q: "query_stmt E ''serviceID'' (select_service_ids m s) w1 = (Ok ids, w2)"
      by (rule total_ioE [OF tot_stmts(2) [OF assms]])
    from p q show ?thesis
      by (cases ids) (simp_all add: ServiceExists_def GetServiceID_def andthen_def on_err_def attempt_def bind_def
          ret_def fail_def is_not_found_def ex_bool_eq)
  qed
  then show ?thesis by (simp add: total_io_def)
qed

lemma tot_find_members: "sql_works E \<Longrightarrow> total_io (find_members E srv ms found)"
  by (induction ms arbitrary: found) (auto intro!: tot_rules tot_ServiceExists)

lemma tot_FindService: "sql_works E \<Longrightarrow> total_io (FindService E srv)"
  unfolding FindService_def by (intro tot_transaction tot_rules tot_stmts tot_find_members)

lemma at_most_one: "distinct (map f xs) \<Longrightarrow> length (filter (\<lambda>x. f x = a) xs) \<le> 1"
proof (induction xs)
  case (Cons x xs)
  then show ?case by (cases "f x = a") (force simp: filter_empty_conv image_iff)+
qed simp

text \<open>Deleting the entry of a service that is there succeeds: the constraint leaves one row to delete.\<close>

lemma delete_row_works:
  assumes db: "sql_works E" and ok: "db_ok (w_db w)" and row: "(m, s) \<in> abs_services (w_db w)"
  obtains w' where "transaction E (DeleteService E m s) w = (Ok (), w')"
    and "abs_services (w_db w') = abs_services (w_db w) - {(m, s)}" and "db_ok (w_db w')"
proof -
  have body: "\<exists>u v'. DeleteService E m s v = (Ok u, v')" if v: "w_db v = w_db w" for v
  proof -
    let ?d = "w_db w"
    let ?hit = "\<lambda>r. Some (sr_member r) = member_id_of ?d m \<and> sr_service r = s"
    obtain d' n where del: "delete_by_member_service m s ?d = Inr (d', n)"
      by (simp add: delete_by_member_service_def delete_rows_def)
    have n: "n = length (filter ?hit (services ?d))"
      using del by (auto simp: delete_by_member_service_def delete_rows_def)
    have "length (filter (\<lambda>r. (sr_member r, sr_service r) = (k, s)) (services ?d)) \<le> 1" for k
      using ok by (intro at_most_one) (simp add: db_ok_def services_schema_def)
    then have "n \<le> 1" unfolding n by (cases "member_id_of ?d m") auto
    moreover have "n \<noteq> 0" using abs_delete_service [OF ok del] row by blast
    ultimately have n1: "n = 1" by simp
    obtain u v1 where p: "prepare E ''serviceDeleteByMemberAndService'' v = (Ok u, v1)"
      by (rule total_ioE [OF tot_stmts(1) [OF db]])
    then have v1: "w_db v1 = ?d" using v by (auto elim: prepare_OkE)
    obtain v2 where e: "exec_stmt E ''serviceDeleteByMemberAndService'' (delete_by_member_service m s) v1 = (Ok n, v2)"
      using db v1 del by (simp add: exec_stmt_def andthen_def bind_def step_def sql_works_def)
    obtain v3 where r: "rows_affected E n v2 = (Ok n, v3)"
      using db by (simp add: rows_affected_def andthen_def on_err_def attempt_def bind_def step_def sql_works_def run)
    from p e r n1 show ?thesis
      by (simp add: DeleteService_def andthen_def on_err_def attempt_def bind_def ret_def)
  qed
  then obtain u w' where t: "transaction E (DeleteService E m s) w = (Ok u, w')"
    by (rule transaction_runs [OF db])
  with that [of w'] delete_row_Ok [OF ok t] show ?thesis by simp
qed

section \<open>What has been run since\<close>

text \<open>\<open>since t C w\<close>: the trace of \<open>w\<close> continues \<open>t\<close>, and all events of \<open>C\<close> have happened since.\<close>

definition since :: "event list \<Rightarrow> event set \<Rightarrow> world \<Rightarrow> bool" where
  "since t C w \<longleftrightarrow> (\<exists>new. w_trace w = new @ t \<and> C \<subseteq> set new)"

lemma since_now [simp]: "since (w_trace w) {} w"
  by (simp add: since_def)

lemma since_event [simp]: "since t C w \<Longrightarrow> since t (insert ev C) (w\<lparr>w_trace := ev # w_trace w\<rparr>)"
  by (force simp: since_def)

lemma since_more: "since t C w \<Longrightarrow> since t C (w\<lparr>w_trace := ev # w_trace w\<rparr>)"
  by (force simp: since_def)

lemma since_Un: "since t C w \<Longrightarrow> since t D w \<Longrightarrow> since t (C \<union> D) w"
  by (auto simp: since_def)

interpretation snc: cmd_log "since t C" "\<lambda>_. True" for t C
  by unfold_locales (simp_all add: since_more, simp_all add: since_def)

interpretation snf: fs_blind "since t C" for t C
  by unfold_locales (simp_all add: since_more, simp add: since_def)

text \<open>\<open>runs C m\<close>: however \<open>m\<close> ends, the events of \<open>C\<close> have then happened.\<close>

definition runs :: "event set \<Rightarrow> 'a io \<Rightarrow> bool" where
  "runs C m \<longleftrightarrow> (\<forall>t w. since t {} w \<longrightarrow> since t C (snd (m w)))"

lemma runs_cmd: "runs {Cmd argv} (run_cmd E argv)"
  by (simp add: runs_def run_cmd_def)

lemma runs_first: "runs C m \<Longrightarrow> (\<And>x t. keeps (since t C) (k x)) \<Longrightarrow> runs C (bind m k)"
  by (force simp: runs_def keeps_def bind_def split: prod.splits res.splits)

lemma runs_bind:
  assumes "total_io m" and "\<And>t. keeps (since t {}) m" and "\<And>x. runs C (k x)"
  shows "runs C (bind m k)"
  unfolding runs_def
proof (intro allI impI)
  fix t w assume w: "since t {} w"
  obtain x w1 where m: "m w = (Ok x, w1)" by (rule total_ioE [OF assms(1)])
  with keepsD [OF assms(2) w] assms(3) [of x] show "since t C (snd (bind m k w))"
    by (simp add: runs_def run)
qed

lemma runs_both: "runs C m \<Longrightarrow> runs D m \<Longrightarrow> runs (C \<union> D) m"
  by (simp add: runs_def since_Un)

lemma runs_attempt: "runs C m \<Longrightarrow> runs C (attempt m)"
  by (force simp: runs_def attempt_def split: prod.splits res.splits)

lemma runs_ignored: "runs C m \<Longrightarrow> runs C (ignore_err m)"
  unfolding ignore_err_def by (intro runs_first runs_attempt keeps_rules)

text \<open>A step of a sequence whose errors are ignored: it runs, and so does what follows it.\<close>

lemma runs_here: "runs C m \<Longrightarrow> (\<And>t. keeps (since t C) k) \<Longrightarrow> runs C (andthen m k)"
  unfolding andthen_def by (rule runs_first)

lemma runs_later: "total_io m \<Longrightarrow> (\<And>t. keeps (since t {}) m) \<Longrightarrow> runs C k \<Longrightarrow> runs C (andthen m k)"
  unfolding andthen_def by (rule runs_bind)

text \<open>What stopping a service runs: the local members of the two databases leave their clusters, the
  controller is told to exit, and the snap services are stopped and disabled.\<close>

definition stops :: "string \<Rightarrow> event" where
  "stops srv = Cmd [''snapctl'', ''stop'', ''microovn.'' @ srv, ''--disable'']"

definition departure :: "env \<Rightarrow> string \<Rightarrow> event set" where
  "departure E srv =
     (if srv = SrvCentral then
        {Cmd [''ovn-appctl'', ''-t'', OvnNBControlSock E, ''cluster/leave'', ''OVN_Northbound''],
         Cmd [''ovn-appctl'', ''-t'', OvnSBControlSock E, ''cluster/leave'', ''OVN_Southbound''],
         stops ''ovn-northd'', stops ''ovn-ovsdb-server-nb'', stops ''ovn-ovsdb-server-sb''}
      else if srv = SrvChassis then
        {Cmd [''OVS_RUNDIR='' @ OvnRuntimeDir E, ''ovs-appctl'', ''-t'', ''ovn-controller'', ''exit''],
         stops ''chassis''}
      else if srv = SrvBgp then {stops ''bird''}
      else {stops srv})"

lemma runs_Stop: "runs {stops srv} (Stop E srv True)"
  unfolding Stop_def by (rule runs_first) (simp_all add: stops_def runs_cmd keeps_rules)

lemma runs_AppCtl: "runs {Cmd ([''ovn-appctl'', ''-t'', sock] @ args)} (AppCtl E sock args)"
  unfolding AppCtl_def by (rule runs_cmd)

lemma runs_ControllerCtl:
  "runs {Cmd ([''OVS_RUNDIR='' @ OvnRuntimeDir E, ''ovs-appctl'', ''-t'', ''ovn-controller''] @ args)} (ControllerCtl E args)"
  unfolding ControllerCtl_def by (rule runs_cmd)

lemmas kept_since = snf.keeps_snap snf.keeps_ctl snf.keeps_os snf.keeps_activate snf.keeps_WaitForDBState
  snf.keeps_DisableBgp snf.keeps_leave

lemma runs_deactivate:
  "runs {stops ''ovn-northd''} (deactivateService E SrvCentral True)"
  "runs {stops ''ovn-ovsdb-server-nb''} (deactivateService E SrvCentral True)"
  "runs {stops ''ovn-ovsdb-server-sb''} (deactivateService E SrvCentral True)"
  "runs {stops ''chassis''} (deactivateService E SrvChassis True)"
  "srv \<noteq> SrvCentral \<Longrightarrow> srv \<noteq> SrvChassis \<Longrightarrow> runs {stops srv} (deactivateService E srv True)"
  unfolding deactivateService_def
  by (simp_all add: srv_defs)
    (rule runs_here runs_later runs_ignored runs_Stop tot_rules np_rules keeps_rules kept_since | assumption)+

lemma tot_deactivate: "total_io (deactivateService E srv b)"
  unfolding deactivateService_def by (intro tot_rules np_rules)

lemma tot_wait_removed: "total_io (wait_removed E ty)"
  unfolding wait_removed_def by (intro tot_rules np_rules)

lemma keeps_wait_removed: "keeps (since t C) (wait_removed E ty)"
  unfolding wait_removed_def by (intro keeps_rules kept_since)

lemma runs_leaveCentral:
  "runs {Cmd [''ovn-appctl'', ''-t'', OvnNBControlSock E, ''cluster/leave'', ''OVN_Northbound'']} (leaveCentral E l)"
  "runs {Cmd [''ovn-appctl'', ''-t'', OvnSBControlSock E, ''cluster/leave'', ''OVN_Southbound'']} (leaveCentral E l)"
proof -
  note go = runs_here runs_ignored tot_rules np_rules keeps_rules kept_since keeps_wait_removed tot_wait_removed
  show "runs {Cmd [''ovn-appctl'', ''-t'', OvnNBControlSock E, ''cluster/leave'', ''OVN_Northbound'']} (leaveCentral E l)"
    unfolding leaveCentral_def
    by (rule runs_here [OF runs_ignored [OF runs_AppCtl [of _ "[''cluster/leave'', ''OVN_Northbound'']", simplified]]])
      (intro go)
  show "runs {Cmd [''ovn-appctl'', ''-t'', OvnSBControlSock E, ''cluster/leave'', ''OVN_Southbound'']} (leaveCentral E l)"
    unfolding leaveCentral_def
    by (rule runs_later, intro go, intro go,
        rule runs_here [OF runs_ignored [OF runs_AppCtl [of _ "[''cluster/leave'', ''OVN_Southbound'']", simplified]]])
      (intro go)
qed

text \<open>The rest of \<open>leaveCentral\<close> leads to the stopping of the three services.\<close>

lemma runs_leaveCentral_end: "runs C (deactivateService E SrvCentral True) \<Longrightarrow> runs C (leaveCentral E l)"
  unfolding leaveCentral_def
  by (rule runs_later, (intro tot_rules np_rules), (intro keeps_rules kept_since))
    (intro runs_later tot_rules np_rules keeps_rules kept_since keeps_wait_removed tot_wait_removed)

lemma runs_leaveChassis:
  "runs {Cmd [''OVS_RUNDIR='' @ OvnRuntimeDir E, ''ovs-appctl'', ''-t'', ''ovn-controller'', ''exit'']} (leaveChassis E)"
  "runs {stops ''chassis''} (leaveChassis E)"
proof -
  show "runs {Cmd [''OVS_RUNDIR='' @ OvnRuntimeDir E, ''ovs-appctl'', ''-t'', ''ovn-controller'', ''exit'']} (leaveChassis E)"
    unfolding leaveChassis_def using runs_ControllerCtl [of E "[''exit'']"]
    by (intro runs_here runs_ignored kept_since) simp
  show "runs {stops ''chassis''} (leaveChassis E)"
    unfolding leaveChassis_def
    by (intro runs_later runs_deactivate tot_rules np_rules keeps_rules kept_since)
qed

lemma runs_DisableBgp: "runs {stops ''bird''} (DisableBgp E)"
proof -
  have "runs {stops ''bird''} (collect f (Stop E BirdService True) acc)" for f acc
    unfolding collect_def BirdService_def by (intro runs_first runs_attempt runs_Stop keeps_rules)
  then show ?thesis unfolding DisableBgp_def
    by (rule runs_first) (intro keeps_rules snf.keeps_teardown)
qed

lemma runs_stop_service: "runs (departure E srv) (stop_service E srv l)"
proof -
  have "runs (departure E SrvCentral) (leaveCentral E l)"
    unfolding departure_def
    using runs_both [OF runs_leaveCentral(1) runs_both [OF runs_leaveCentral(2) runs_both
        [OF runs_leaveCentral_end [OF runs_deactivate(1)] runs_both
        [OF runs_leaveCentral_end [OF runs_deactivate(2)] runs_leaveCentral_end [OF runs_deactivate(3)]]]]]
    by (simp add: insert_commute)
  moreover have "runs (departure E SrvChassis) (leaveChassis E)"
    using runs_both [OF runs_leaveChassis] by (simp add: departure_def srv_defs insert_commute)
  moreover have "runs (departure E SrvBgp) (DisableBgp E)"
    using runs_DisableBgp by (simp add: departure_def srv_defs)
  moreover have "srv \<noteq> SrvBgp \<Longrightarrow> srv \<noteq> SrvCentral \<Longrightarrow> srv \<noteq> SrvChassis \<Longrightarrow> runs (departure E srv) (deactivateService E srv True)"
    using runs_deactivate(5) by (simp add: departure_def)
  ultimately show ?thesis unfolding stop_service_def by auto
qed

section \<open>One service, and all of them\<close>

text \<open>A member keeps its central service when no other member runs one.\<close>

definition leavable :: "env \<Rightarrow> db \<Rightarrow> string \<Rightarrow> bool" where
  "leavable E d s \<longleftrightarrow> (e_name E, s) \<in> abs_services d \<and>
     (s = SrvCentral \<longrightarrow> (\<exists>m. m \<noteq> e_name E \<and> (m, SrvCentral) \<in> abs_services d))"

lemma single_central:
  assumes ok: "db_ok d" and me: "(e, s) \<in> abs_services d"
  shows "length (members_with s d) = 1 \<longleftrightarrow> \<not> (\<exists>m. m \<noteq> e \<and> (m, s) \<in> abs_services d)"
proof
  assume "length (members_with s d) = 1"
  then obtain x where "members_with s d = [x]" by (auto simp: length_Suc_conv)
  with me show "\<not> (\<exists>m. m \<noteq> e \<and> (m, s) \<in> abs_services d)" by (simp add: in_members_with)
qed (use another_member [OF ok me] in blast)

lemma keeps_delete_row: "keeps (since t C) (transaction E (DeleteService E m s))"
proof -
  have "keeps (since t C) (exec_stmt E n f)" for n and f :: "db \<Rightarrow> goerr + db \<times> 'x"
    unfolding exec_stmt_def
    by (intro keeps_rules snc.keeps_step_sql) (auto simp: keeps_def snc.tables split: sum.splits)
  then show ?thesis
    unfolding DeleteService_def rows_affected_def
    by (intro snc.keeps_transaction keeps_rules snc.keeps_reading snc.keeps_step_sql)
qed

text \<open>What the guard of the last central answers, and how the call goes on.\<close>

lemma check_last_works:
  assumes db: "sql_works E" and ok: "db_ok (w_db w)" and row: "(e_name E, srv) \<in> abs_services (w_db w)" and t: "since t {} w"
  obtains r w' where "check_last_central E srv False w = (r, w')" and "w_db w' = w_db w" and "since t {} w'"
    and "if leavable E (w_db w) srv then r = Ok False else \<exists>e. r = Er e"
proof (cases "srv = SrvCentral")
  case True
  obtain ms w1 where f: "FindService E SrvCentral w = (Ok ms, w1)" by (rule total_ioE [OF tot_FindService [OF db]])
  from FindService_Ok [OF f] have ms: "ms = members_with SrvCentral (w_db w)" and w1: "w_db w1 = w_db w" by simp_all
  have t1: "since t {} w1" by (rule keepsD [OF snc.keeps_registry(1) t f])
  have "leavable E (w_db w) srv \<longleftrightarrow> length ms \<noteq> 1"
    using single_central [OF ok row] row True ms by (simp add: leavable_def)
  with f True w1 t1 that show ?thesis
    by (cases "length ms = 1") (simp_all add: check_last_central_def run)
next
  case False
  with row t that [of "Ok False" w] show ?thesis by (simp add: check_last_central_def leavable_def)
qed

lemma DisableService_works:
  assumes db: "sql_works E" and ok: "db_ok (w_db w)" and t: "since t {} w"
  obtains w' where "ignore_err (DisableService E srv False) w = (Ok (), w')" and "db_ok (w_db w')" and "since t {} w'"
    and "abs_services (w_db w') = abs_services (w_db w) - (if leavable E (w_db w) srv then {(e_name E, srv)} else {})"
    and "leavable E (w_db w) srv \<longrightarrow> since t (departure E srv) w'"
proof -
  let ?w = "with_log (disable_entry E srv) w"
  have t0: "since t {} ?w" using t by (auto simp: since_def)
  obtain h w1 where h: "HasServiceActive E srv ?w = (Ok h, w1)" by (rule total_ioE [OF tot_HasServiceActive [OF db]])
  from HasServiceActive_Ok [OF h] have w1: "w_db w1 = w_db w" and hd: "h \<longleftrightarrow> (e_name E, srv) \<in> abs_services (w_db w)"
    by simp_all
  have t1: "since t {} w1" by (rule keepsD [OF snc.keeps_registry(2) t0 h])
  show thesis
  proof (cases h)
    case False
    with h have "ignore_err (DisableService E srv False) w = (Ok (), w1)"
      by (intro run_ignore_err(2)) (simp add: DisableService_logged run)
    with False hd w1 t1 ok that show ?thesis by (simp add: leavable_def)
  next
    case True
    have ok1: "db_ok (w_db w1)" and row: "(e_name E, srv) \<in> abs_services (w_db w1)" using ok hd True w1 by simp_all
    obtain r w2 where c: "check_last_central E srv False w1 = (r, w2)" and w2: "w_db w2 = w_db w1" and t2: "since t {} w2"
      and r: "if leavable E (w_db w1) srv then r = Ok False else \<exists>e. r = Er e"
      by (rule check_last_works [OF db ok1 row t1])
    show ?thesis
    proof (cases "leavable E (w_db w) srv")
      case False
      with r w1 obtain e where "r = Er e" by auto
      with h True c have "ignore_err (DisableService E srv False) w = (Ok (), w2)"
        by (intro run_ignore_err(2)) (simp add: DisableService_logged run)
      with False w1 w2 t2 ok that show ?thesis by simp
    next
      case lv: True
      then have "r = Ok False" using r w1 by simp
      obtain w3 where d: "transaction E (DeleteService E (e_name E) srv) w2 = (Ok (), w3)"
        and gone: "abs_services (w_db w3) = abs_services (w_db w2) - {(e_name E, srv)}" and ok3: "db_ok (w_db w3)"
        by (rule delete_row_works [OF db, of w2 "e_name E" srv]) (use ok1 row w2 in auto)
      have t3: "since t {} w3" by (rule keepsD [OF keeps_delete_row t2 d])
      obtain q w4 where s: "stop_service E srv False w3 = (q, w4)" by fastforce
      have "since t (departure E srv) w4"
        using runs_stop_service [of E srv False] t3 s by (force simp: runs_def)
      moreover have "DisableService E srv False w = (q, w4)"
        using h True c \<open>r = Ok False\<close> d s by (simp add: DisableService_logged bind_def andthen_def)
      then have "ignore_err (DisableService E srv False) w = (Ok (), w4)"
        using np_node(13) by (cases q) (auto intro: run_ignore_err(1,2) dest: no_panicD)
      ultimately show ?thesis
        using that [of w4] lv gone ok3 w1 w2 stop_service_db [OF s] by (auto simp: since_def)
    qed
  qed
qed

lemma keeps_DisableService: "keeps (since t C) (DisableService E srv b)"
  unfolding DisableService_def check_last_central_def
  by (intro keeps_rules snc.keeps_Log snc.keeps_registry keeps_delete_row snf.keeps_start_stop)

lemma all_services_work:
  assumes db: "sql_works E"
  shows "distinct xs \<Longrightarrow> db_ok (w_db w) \<Longrightarrow> since t {} w \<Longrightarrow>
    \<exists>w'. for_each (\<lambda>srv. ignore_err (DisableService E srv False)) xs w = (Ok (), w') \<and> db_ok (w_db w') \<and>
      abs_services (w_db w') = abs_services (w_db w) - {e_name E} \<times> {s \<in> set xs. leavable E (w_db w) s} \<and>
      since t (\<Union>s \<in> {s \<in> set xs. leavable E (w_db w) s}. departure E s) w'"
proof (induction xs arbitrary: w)
  case (Cons x xs)
  let ?gone = "\<lambda>ys. {s \<in> set ys. leavable E (w_db w) s}"
  obtain w1 where d: "ignore_err (DisableService E x False) w = (Ok (), w1)" and ok1: "db_ok (w_db w1)" and t1: "since t {} w1"
    and g: "abs_services (w_db w1) = abs_services (w_db w) - (if leavable E (w_db w) x then {(e_name E, x)} else {})"
    and c: "leavable E (w_db w) x \<longrightarrow> since t (departure E x) w1"
    by (rule DisableService_works [OF db Cons.prems(2,3), of x])
  have "leavable E (w_db w1) s \<longleftrightarrow> leavable E (w_db w) s" if "s \<in> set xs" for s
    using that Cons.prems(1) g by (auto simp: leavable_def)
  then have same: "{s \<in> set xs. leavable E (w_db w1) s} = ?gone xs" by auto
  from Cons.IH [OF _ ok1 t1] Cons.prems(1) obtain w' where
    r: "for_each (\<lambda>srv. ignore_err (DisableService E srv False)) xs w1 = (Ok (), w')" and ok': "db_ok (w_db w')"
    and g': "abs_services (w_db w') = abs_services (w_db w1) - {e_name E} \<times> ?gone xs"
    and c': "since t (\<Union>s \<in> ?gone xs. departure E s) w'" unfolding same by auto
  have "keeps (since t C) (for_each (\<lambda>srv. ignore_err (DisableService E srv False)) xs)" for C
    by (intro keeps_rules keeps_DisableService)
  from keepsD [OF this _ r] c have "leavable E (w_db w) x \<Longrightarrow> since t (departure E x) w'" by blast
  then have "since t ((\<Union>s \<in> ?gone xs. departure E s) \<union> (if leavable E (w_db w) x then departure E x else {})) w'"
    using c' since_Un by simp
  moreover have "(\<Union>s \<in> ?gone xs. departure E s) \<union> (if leavable E (w_db w) x then departure E x else {}) =
      (\<Union>s \<in> ?gone (x # xs). departure E s)" by auto
  ultimately have "since t (\<Union>s \<in> ?gone (x # xs). departure E s) w'" by simp
  moreover have "abs_services (w_db w') = abs_services (w_db w) - {e_name E} \<times> ?gone (x # xs)"
    using g g' by auto
  ultimately show ?case using d r ok' by (auto simp: run)
qed simp

section \<open>Leaving\<close>

definition leave_entry :: "env \<Rightarrow> event list" where
  "leave_entry E = log_entry E CatSys EventSysShutdown [(''node'', JStr (e_name E))]
     ''Node '%s' shutting down OVN services before departure'' [e_name E]"

lemma Leave_logged: "Leave E w = andthen (DisableAllServices E)
     (andthen (ignore_err (CleanupPaths E))
     (Log E CatAuthz EventAdminActivity [(''action'', JStr ''cluster_leave''), (''node'', JStr (e_name E))]
       ''Node '%s' left cluster'' [e_name E])) (with_log (leave_entry E) w)"
  by (simp only: Leave_def andthen_Log leave_entry_def)

lemma Leave_runs:
  obtains u w1 w' where "DisableAllServices E (with_log (leave_entry E) w) = (Ok u, w1)" and "Leave E w = (Ok (), w')"
    and "w_db w' = w_db w1" and "\<forall>t C. since t C w1 \<longrightarrow> since t C w'"
proof -
  have "total_io (DisableAllServices E)" unfolding DisableAllServices_def by (intro tot_rules np_node)
  then obtain u w1 where d: "DisableAllServices E (with_log (leave_entry E) w) = (Ok u, w1)" by (rule total_ioE)
  let ?rest = "andthen (ignore_err (CleanupPaths E)) (Log E CatAuthz EventAdminActivity
    [(''action'', JStr ''cluster_leave''), (''node'', JStr (e_name E))] ''Node '%s' left cluster'' [e_name E])"
  have "total_io ?rest" by (intro tot_rules np_rules)
  then obtain v w' where c: "?rest w1 = (Ok v, w')" by (rule total_ioE)
  have "keeps (since t C) ?rest" for t C by (intro keeps_rules snc.keeps_paths snc.keeps_Log)
  from keepsD [OF this _ c] have s: "\<forall>t C. since t C w1 \<longrightarrow> since t C w'" by blast
  have "keeps (\<lambda>w. w_db w = w_db w1) ?rest" by (intro keeps_rules dbf.keeps_setup dbv.keeps_Log)
  from keepsD [OF this refl c] s d c that show ?thesis by (simp add: Leave_logged run_andthen(1) [where m = "DisableAllServices E"] del: andthen_Log)
qed

lemma keeps_some_central:
  "keeps (\<lambda>w. db_ok (w_db w) \<and> (\<exists>m. (m, SrvCentral) \<in> abs_services (w_db w))) (DisableAllServices E)"
proof -
  let ?P = "\<lambda>w. db_ok (w_db w) \<and> (\<exists>m. (m, SrvCentral) \<in> abs_services (w_db w))"
  have "keeps ?P (DisableService E srv False)" for srv
    by (rule keepsI) (use central_survives keepsD [OF keeps_services_ok(2)] in blast)
  then show ?thesis unfolding DisableAllServices_def by (intro keeps_rules)
qed

text \<open>C37: \<open>Leave\<close> always returns without an error and keeps the constraints of the tables and, where there is
  one, a member with the central service. When no database statement fails it takes away exactly the entries of
  the local member for its registered services, the central one only if another member has it too, and for each
  of them it has run the commands that stop it: the two \<open>cluster/leave\<close> commands and the stopping of the
  three snap services for central, the \<open>exit\<close> of the controller and the stopping of chassis, and the stopping
  of the snap service for the others.\<close>

theorem Leave_outcome:
  assumes ok: "db_ok (w_db w)"
  shows "\<exists>w' new. Leave E w = (Ok (), w') \<and> db_ok (w_db w') \<and> w_trace w' = new @ w_trace w \<and>
    ((\<exists>m. (m, SrvCentral) \<in> abs_services (w_db w)) \<longrightarrow> (\<exists>m. (m, SrvCentral) \<in> abs_services (w_db w'))) \<and>
    ((\<forall>t s. e_fault E t (Sql s) = None) \<longrightarrow>
      (let gone = {s \<in> set ServiceNames. (e_name E, s) \<in> abs_services (w_db w) \<and>
           (s = SrvCentral \<longrightarrow> (\<exists>m. m \<noteq> e_name E \<and> (m, SrvCentral) \<in> abs_services (w_db w)))} in
       abs_services (w_db w') = abs_services (w_db w) - {e_name E} \<times> gone \<and>
       (SrvCentral \<in> gone \<longrightarrow>
          {Cmd [''ovn-appctl'', ''-t'', OvnNBControlSock E, ''cluster/leave'', ''OVN_Northbound''],
           Cmd [''ovn-appctl'', ''-t'', OvnSBControlSock E, ''cluster/leave'', ''OVN_Southbound''],
           Cmd [''snapctl'', ''stop'', ''microovn.ovn-northd'', ''--disable''],
           Cmd [''snapctl'', ''stop'', ''microovn.ovn-ovsdb-server-nb'', ''--disable''],
           Cmd [''snapctl'', ''stop'', ''microovn.ovn-ovsdb-server-sb'', ''--disable'']} \<subseteq> set new) \<and>
       (SrvChassis \<in> gone \<longrightarrow>
          {Cmd [''OVS_RUNDIR='' @ OvnRuntimeDir E, ''ovs-appctl'', ''-t'', ''ovn-controller'', ''exit''],
           Cmd [''snapctl'', ''stop'', ''microovn.chassis'', ''--disable'']} \<subseteq> set new) \<and>
       (SrvBgp \<in> gone \<longrightarrow> Cmd [''snapctl'', ''stop'', ''microovn.bird'', ''--disable''] \<in> set new) \<and>
       (SrvSwitch \<in> gone \<longrightarrow> Cmd [''snapctl'', ''stop'', ''microovn.switch'', ''--disable''] \<in> set new)))"
proof -
  obtain u w1 w' where d: "DisableAllServices E (with_log (leave_entry E) w) = (Ok u, w1)"
    and l: "Leave E w = (Ok (), w')" "w_db w' = w_db w1" and later: "\<forall>t C. since t C w1 \<longrightarrow> since t C w'"
    by (rule Leave_runs [of E w])
  let ?w = "with_log (leave_entry E) w"
  have w: "since (w_trace w) {} ?w" by (simp add: since_def)
  have "keeps (since t C) (DisableAllServices E)" for t C
    unfolding DisableAllServices_def by (intro keeps_rules keeps_DisableService)
  from later [rule_format, OF keepsD [OF this w d]] obtain new where new: "w_trace w' = new @ w_trace w" by (auto simp: since_def)
  have "keeps (\<lambda>w. db_ok (w_db w)) (DisableAllServices E)"
    unfolding DisableAllServices_def by (intro keeps_rules keeps_services_ok)
  from keepsD [OF this _ d] keepsD [OF keeps_some_central _ d] ok l(2)
  have inv: "db_ok (w_db w')" "(\<exists>m. (m, SrvCentral) \<in> abs_services (w_db w)) \<longrightarrow> (\<exists>m. (m, SrvCentral) \<in> abs_services (w_db w'))"
    by auto
  have works: "abs_services (w_db w') = abs_services (w_db w) - {e_name E} \<times> {s \<in> set ServiceNames. leavable E (w_db w) s}"
    "\<forall>s \<in> {s \<in> set ServiceNames. leavable E (w_db w) s}. departure E s \<subseteq> set new" if "sql_works E"
  proof -
    have "distinct ServiceNames" by (simp add: ServiceNames_def srv_defs)
    from all_services_work [OF that this _ w] ok d [unfolded DisableAllServices_def]
    have "abs_services (w_db w1) = abs_services (w_db w) - {e_name E} \<times> {s \<in> set ServiceNames. leavable E (w_db w) s}"
      and c: "since (w_trace w) (\<Union>s \<in> {s \<in> set ServiceNames. leavable E (w_db w) s}. departure E s) w1"
      by auto
    with l(2) show "abs_services (w_db w') = abs_services (w_db w) - {e_name E} \<times> {s \<in> set ServiceNames. leavable E (w_db w) s}"
      by simp
    from later [rule_format, OF c] new show "\<forall>s \<in> {s \<in> set ServiceNames. leavable E (w_db w) s}. departure E s \<subseteq> set new"
      by (auto simp: since_def)
  qed
  let ?gone = "{s \<in> set ServiceNames. (e_name E, s) \<in> abs_services (w_db w) \<and>
     (s = SrvCentral \<longrightarrow> (\<exists>m. m \<noteq> e_name E \<and> (m, SrvCentral) \<in> abs_services (w_db w)))}"
  have gone: "?gone = {s \<in> set ServiceNames. leavable E (w_db w) s}" by (simp add: leavable_def)
  have stopped: "s \<in> ?gone \<Longrightarrow> departure E s \<subseteq> set new" if "sql_works E" for s
    using works(2) [OF that] unfolding gone by blast
  show ?thesis
    using l(1) inv new works(1) stopped [of SrvCentral] stopped [of SrvChassis] stopped [of SrvBgp] stopped [of SrvSwitch]
    unfolding Let_def gone sql_works_def
    by (intro exI [of _ w'] exI [of _ new]) (auto simp: departure_def stops_def srv_defs)
qed

text \<open>C5: a member without entries in the table of services stops nothing when it leaves: \<open>Leave\<close> succeeds
  and runs no command at all, so no service is stopped, the controller is not told to exit and the clusters of
  the databases are not left.\<close>

theorem Leave_stops_only_registered:
  assumes ok: "db_ok (w_db w)" and none: "\<forall>s. (e_name E, s) \<notin> abs_services (w_db w)"
    and call: "Leave E w = (r, w')"
  shows "r = Ok () \<and> w_db w' = w_db w \<and> commands (w_trace w') = commands (w_trace w)"
proof -
  let ?P = "\<lambda>v. w_db v = w_db w \<and> commands (w_trace v) = commands (w_trace w)"
  have log: "keeps ?P (Log E c ev x f a)" for c ev x f a
    using dbv.keeps_Log quiet.keeps_Log by (fastforce simp: keeps_def)
  have d: "keeps ?P (DisableService E srv False)" for srv
  proof (rule keepsI)
    fix v q v' assume "?P v" and c: "DisableService E srv False v = (q, v')"
    let ?v = "with_log (disable_entry E srv) v"
    have P: "?P ?v"
      using \<open>?P v\<close> log by (simp add: disable_entry_def log_entry_def)
    obtain h v1 where h: "HasServiceActive E srv ?v = (h, v1)" by fastforce
    have v1: "?P v1" using keepsD [OF dbv.keeps_node_reads(2) refl h] keepsD [OF quiet.keeps_registry(2) refl h] P by simp
    have "h \<noteq> Ok True" using HasServiceActive_Ok [of E srv ?v True v1] h none P by auto
    with c h have "v' = v1"
      by (cases h) (auto simp: DisableService_logged bind_def)
    with v1 show "?P v'" by simp
  qed
  have "keeps ?P (CleanupPaths E)"
    using quiet.keeps_paths(2) dbf.keeps_setup(2) by (fastforce simp: keeps_def)
  with d have "keeps ?P (Leave E)"
    unfolding Leave_def DisableAllServices_def by (intro keeps_rules log)
  from keepsD [OF this _ call] have "?P w'" by simp
  moreover obtain v where "Leave E w = (Ok (), v)" by (rule Leave_runs [of E w])
  ultimately show ?thesis using call by simp
qed

section \<open>The properties at a concrete input\<close>

text \<open>Two members with the central service, the first also with chassis.\<close>

definition world_of_two :: world where
  "world_of_two = sample_world\<lparr>w_db := sample_db\<lparr>
     members := [\<lparr>m_id = 1, m_name = ''n1'', m_addr = ''10.0.0.1:6443''\<rparr>, \<lparr>m_id = 2, m_name = ''n2'', m_addr = ''10.0.0.2:6443''\<rparr>],
     services := [\<lparr>sr_id = 1, sr_member = 1, sr_service = SrvCentral\<rparr>, \<lparr>sr_id = 2, sr_member = 1, sr_service = SrvChassis\<rparr>,
       \<lparr>sr_id = 3, sr_member = 2, sr_service = SrvCentral\<rparr>], next_service := 4\<rparr>\<rparr>"

lemma world_of_two: "db_ok (w_db world_of_two)"
  "abs_services (w_db world_of_two) = {(''n1'', SrvCentral), (''n1'', SrvChassis), (''n2'', SrvCentral)}"
proof -
  show "db_ok (w_db world_of_two)"
    by (simp add: world_of_two_def sample_world_def sample_db_def db_ok_def members_keys_def services_schema_def
        config_schema_def srv_defs)
  have "(a, b) \<in> abs_services (w_db world_of_two) \<longleftrightarrow> (a, b) \<in> {(''n1'', SrvCentral), (''n1'', SrvChassis), (''n2'', SrvCentral)}"
    for a b
    unfolding in_abs_services by (simp add: world_of_two_def sample_world_def sample_db_def) blast
  then show "abs_services (w_db world_of_two) = {(''n1'', SrvCentral), (''n1'', SrvChassis), (''n2'', SrvCentral)}"
    by (intro set_eqI) (simp only: split_paired_all)
qed

theorem Leave_outcome_witness:
  "\<exists>w'. Leave sample_env world_of_two = (Ok (), w') \<and> abs_services (w_db w') = {(''n2'', SrvCentral)} \<and>
     Cmd [''snapctl'', ''stop'', ''microovn.ovn-northd'', ''--disable''] \<in> set (w_trace w') \<and>
     Cmd [''snapctl'', ''stop'', ''microovn.chassis'', ''--disable''] \<in> set (w_trace w')"
proof -
  have other: "\<exists>m. m \<noteq> ''n1'' \<and> (m, SrvCentral) \<in> abs_services (w_db world_of_two)"
    by (rule exI [of _ "''n2''"]) (simp add: world_of_two(2))
  have gone: "{s \<in> set ServiceNames. (''n1'', s) \<in> abs_services (w_db world_of_two) \<and>
      (s = SrvCentral \<longrightarrow> (\<exists>m. m \<noteq> ''n1'' \<and> (m, SrvCentral) \<in> abs_services (w_db world_of_two)))} = {SrvCentral, SrvChassis}"
    unfolding eqTrueI [OF other] by (auto simp: world_of_two(2) ServiceNames_def srv_defs)
  have E: "\<forall>t s. e_fault sample_env t (Sql s) = None" "e_name sample_env = ''n1''" by (simp_all add: sample_env_def)
  from Leave_outcome [OF world_of_two(1), of sample_env, unfolded Let_def E(2) gone] obtain w' new where
    l: "Leave sample_env world_of_two = (Ok (), w')" "w_trace w' = new @ w_trace world_of_two"
    and g: "abs_services (w_db w') = abs_services (w_db world_of_two) - {''n1''} \<times> {SrvCentral, SrvChassis}"
    and c: "Cmd [''snapctl'', ''stop'', ''microovn.ovn-northd'', ''--disable''] \<in> set new"
      "Cmd [''snapctl'', ''stop'', ''microovn.chassis'', ''--disable''] \<in> set new"
    by (elim exE conjE) (rule that, assumption, assumption, simp_all add: E(1))
  have "abs_services (w_db w') = {(''n2'', SrvCentral)}" unfolding g world_of_two(2) by auto
  with l c show ?thesis by (intro exI [of _ w']) simp
qed

theorem Leave_stops_only_registered_witness:
  "commands (w_trace (snd (Leave sample_env sample_world))) = []"
  using Leave_stops_only_registered [OF db_ok_sample(1) _ prod.collapse [symmetric], of sample_env]
  by (simp add: sample_world_def sample_db_def abs_services_def)

end
