(* ===== verification/Spec2Isabelle.thy ===== *)
theory Spec2Isabelle
  imports DaemonProgram EndToEnd Departure
begin

text \<open>
  A verification development for MicroOVN (directory src/microovn, in Go): the daemon microovnd, which runs
  OVN on every member of a cluster, and the command line program microovn.

  \<^bold>\<open>The program.\<close> The desired state of the cluster is two tables in a replicated database: \<open>services\<close>
  (which member runs central, chassis, switch or bgp) and \<open>config\<close> (options, the CA, the BGP set-up). The
  cluster library calls the hooks of the daemon when a member starts, joins, leaves or sees another one do so;
  clients and other members call its endpoints over HTTP. Hooks and handlers change rows, write files under the
  directories of the snap, start and stop snap services and run the tools of OVN. The command line
  program asks and prints, and sends requests to the local daemon.

  \<^bold>\<open>The model.\<close> A Go function that can fail is a value of type \<open>'a io\<close> (theory World): from a world (tables,
  files, the events so far) to a result (\<open>Ok\<close>, \<open>Er\<close> with an error value, or \<open>Panic\<close>) and a new world. What is
  outside the program is the record \<open>env\<close> (fields \<open>e_...\<close>: the answers of commands, of other members and of
  cryptographic packages, the clock, which statement or file operation fails) and, for the command line
  program, the record \<open>cli\<close> (fields \<open>c_...\<close> and \<open>k_...\<close>: the user, the terminal, the cluster library). An answer
  may depend on all earlier events. No theorem assumes that an operation succeeds unless it says so. A
  panic is a result of its own that no error check catches. The iteration order of a Go map is the order
  of an association list, or an argument; the theorems hold for every order unless they say otherwise.

  \<^bold>\<open>The theories,\<close> each with the code it models:
  \<^item> GoBase, NetAddr: strings, numbers and errors of the Go library; addresses of package net.
  \<^item> World, CommandLog: effects, transactions, and the rules by which properties of runs compose
    (\<open>keeps\<close> for invariants, \<open>no_panic\<close>, \<open>total_io\<close>, the elimination rules \<open>ok_elims\<close>).
  \<^item> SecurityLog: securitylog. Its entries are events of the world; every call of \<open>Log\<close> is part of the function that
    makes it.
  \<^item> Database, Schema: package database (mappers, schema.go and its migrations).
  \<^item> ConfigStore: package config. Certificates: ovn/certificates. Paths, FileSystem, Environment: ovn/paths and
    ovn/environment. OvnCmd: snap, ovn/cmd and ovn/cluster. Netplan: netplan. Dpu: ovn/dpu.
  \<^item> ServiceTypes, ApiTypes: api/types with its JSON forms. Client: client/client.go.
  \<^item> BgpRedirect, Bgp: package bgp. Node: package node. Upgrade: ovn/ovsdb.
  \<^item> Lifecycle: the hooks (ovn/bootstrap.go, join.go, leave.go, refresh.go, start.go). Departure: what a leaving member
    takes away and stops.
  \<^item> Rest, BgpApi, ConfigApi, CertApi, ServiceApi: the handlers of the endpoints (api/bgp, api/config, api/refresh.go,
    api/certificates, api/services, api/ovsdb).
  \<^item> Daemon, DaemonProgram: the registered hooks, the endpoints as a table and as they are declared, the steps of the
    cluster, and the main function of the daemon (cmd/microovnd, api/endpoints.go). DaemonProgram lets the library
    call any declared action with any request, and has it change the list of members and run the migrations.
  \<^item> Console, CliStatus, CliService, CliInit, CliCluster: the Run methods of cmd/microovn. Commands: the tree of its
    commands with their arguments and flags, and its main function.
  \<^item> EndToEnd: commands run against the endpoints of the daemon.

  \<^bold>\<open>What the theorems show.\<close>
  \<^item> Tables. Every sequence of hooks, requests and membership changes, whatever fails on the way, keeps the schema,
    registers only known services and keeps a valid list of central addresses (Daemon); a member changes
    only its own registrations. The migrations keep every row, and the constraints they create are the ones the
    model of the mappers enforces (Schema).
  \<^item> Services. What enabling and disabling a service leaves in the registry on every branch, the guard of the last
    central service (Node), what bootstrap and join register (Lifecycle), and which entries a leaving member takes away, with the
    commands it has run for them (Departure).
  \<^item> Upgrade. When the endless loop returns, and that only the leader converts a database, after every member
    expects the new version.
  \<^item> Interfaces. Every function of the client reaches the handler that reads its message, returns what that handler
    answers and fails when it fails; the command line accepts what the daemon accepts.
  \<^item> Programs. microovn never panics, and when it reports that a service was enabled or disabled or an option set, the
    daemon has done it (Commands, EndToEnd). A run of microovnd keeps the tables well formed whatever the library
    and the other members do in between; the security log has one entry for each change of a service or of the CA, and none when it is off
    (DaemonProgram).
  \<^item> Certificates, configuration, BGP. Which certificates are issued and served, what is refused without a change, that
    a failed start of BGP is undone once and both errors are reported, least free table identifiers, ranges of generated numbers.
  Contracts between components are locales: \<open>registry\<close>, \<open>kv_store\<close>, \<open>service_manager\<close>, \<open>last_guard\<close>,
  \<open>guarded_command\<close>, \<open>wire\<close>, \<open>cmd_log\<close>, \<open>trace_blind\<close>, \<open>log_blind\<close>, \<open>fs_blind\<close>, \<open>table_writes\<close> and \<open>table_inv\<close>;
  each is interpreted on the definitions of the component that provides it.

  \<^bold>\<open>Loops.\<close> Loops over slices are structural recursion. The search for a free VRF table ends at the bound of
  the identifiers and has a termination proof. Three loops may run forever and are partial functions, for which
  not returning is \<open>None\<close>: \<open>upgrade_loop\<close> (waiting for the cluster), \<open>block_loop\<close> (blocks of a PEM stream, ended
  by the decoder) and \<open>token_loop\<close> (join tokens, ended by the user). For each there is a theorem on when it returns.
  There is no fuel.

  \<^bold>\<open>Bounds of the model.\<close>
  \<^item> Goroutines and locks: the lock of the hooks makes each hook a run of its own; the two loops of the upgrade that the
    start of the daemon spawns are separate calls; \<open>cluster.Query\<close> asks the members in the order of \<open>e_peers\<close> (it
    asks them concurrently, and the hooks it calls share a map without a lock). A step of another member is seen
    through the tables only, between two steps.
  \<^item> A transaction is atomic and fails as a whole; retries inside the database library are not visible.
  \<^item> Strings are lists of bytes. The names of JSON fields are compared exactly, while encoding/json also accepts
    other cases; numbers in JSON are natural numbers. YAML, PEM, X.509 and table texts are parameters.
  \<^item> Log lines are left out, apart from the security log and those the command line program shows to its user.
  \<^item> The order of the fields of an entry of the security log is that of the source; the logger sees a map.

  \<^bold>\<open>Not modelled.\<close> Code outside the repository, which the definitions take as parameters: the cluster library and its
  router (\<open>route\<close> says which path is meant for which handler; how the library finds it is not modelled), LXD, OVN, the snap, and cobra, which reads the command lines and prints help, versions and usage (the short
  and long descriptions of the commands are its input only). The unused method \<open>cmdGlobal.Run\<close> of cmd/microovnd/main.go.
  Tests and the scripts of the snap.
\<close>

end
